theory Spec2Isabelle
  imports Complex_Main "HOL-Library.Word" "HOL-Library.AList"
begin

section \<open>JavaScript strings\<close>

text \<open>
  A JavaScript string is a sequence of UTF-16 code units. \<open>length\<close>,
  \<open>substring\<close>, \<open>trim\<close> and \<open>btoa\<close> all work on code units, so the
  model is a list of 16-bit words. \<open>js\<close> writes an ASCII literal.
\<close>

type_synonym jsstring = "16 word list"

definition js :: "string \<Rightarrow> jsstring" where
  "js s = map of_char s"

text \<open>
  \<open>String.prototype.trim\<close> strips WhiteSpace and LineTerminator code points
  (ECMA-262, 12.2 and 12.3): TAB, LF, VT, FF, CR, SP, NBSP, U+1680, U+2000..U+200A,
  U+2028, U+2029, U+202F, U+205F, U+3000 and U+FEFF.
\<close>

definition isWhiteSpace :: "16 word \<Rightarrow> bool" where
  "isWhiteSpace c \<longleftrightarrow>
     c = 0x9 \<or> c = 0xA \<or> c = 0xB \<or> c = 0xC \<or> c = 0xD \<or> c = 0x20 \<or> c = 0xA0 \<or>
     c = 0x1680 \<or> (0x2000 \<le> c \<and> c \<le> 0x200A) \<or> c = 0x2028 \<or> c = 0x2029 \<or>
     c = 0x202F \<or> c = 0x205F \<or> c = 0x3000 \<or> c = 0xFEFF"

definition trim :: "jsstring \<Rightarrow> jsstring" where
  "trim s = rev (dropWhile isWhiteSpace (rev (dropWhile isWhiteSpace s)))"

text \<open>A string is falsy in a JavaScript condition exactly when it is empty;
  \<open>null\<close> and \<open>undefined\<close> (\<open>None\<close>) are falsy too.\<close>

definition truthy :: "jsstring option \<Rightarrow> bool" where
  "truthy v \<longleftrightarrow> (case v of None \<Rightarrow> False | Some s \<Rightarrow> s \<noteq> [])"

section \<open>Data model\<close>

text \<open>
  The interfaces of the source. Field names follow the source, except that
  \<open>Message.text\<close> is \<open>msg_text\<close>, \<open>UserProfile.id\<close> is \<open>user_id\<close> and
  \<open>StoredSession.id\<close> is \<open>session_id\<close>. A JavaScript number is carried as a
  rational; no arithmetic on it is modelled. An optional field is an \<open>option\<close>.
\<close>

datatype Role = User | Model

record Message =
  role :: Role
  msg_text :: jsstring

datatype ModelName = Gemini_2_5_flash | Gemini_2_5_pro

datatype IntelligentMode = Ahm_ai_2_5 | Ahm_ai_5

record AISettings =
  model :: ModelName
  systemInstruction :: "jsstring option"
  temperature :: "rat option"
  topK :: "rat option"
  topP :: "rat option"
  intelligentMode :: "IntelligentMode option"
  codeIsNonbro :: "bool option"

record UserProfile =
  user_id :: jsstring
  username :: jsstring
  isVerified :: bool
  profilePicture :: "jsstring option"

text \<open>
  \<open>StoredSession\<close> of \<^verbatim>\<open>index.tsx\<close> has the six fields of \<open>SessionCore\<close>; the
  consolidated variant (\<^verbatim>\<open>part_000\<close>) adds \<open>ownerId\<close>.
\<close>

record SessionCore =
  session_id :: jsstring
  title :: jsstring
  messages :: "Message list"
  settings :: AISettings
  isPublic :: bool
  isArchived :: bool

record StoredSession = SessionCore +
  ownerId :: jsstring

text \<open>\<open>Partial<StoredSession>\<close>: every field may be absent.\<close>

record SessionUpdates =
  u_session_id :: "jsstring option"
  u_title :: "jsstring option"
  u_messages :: "Message list option"
  u_settings :: "AISettings option"
  u_isPublic :: "bool option"
  u_isArchived :: "bool option"
  u_ownerId :: "jsstring option"

definition noUpdates :: SessionUpdates where
  "noUpdates = \<lparr>u_session_id = None, u_title = None, u_messages = None, u_settings = None,
     u_isPublic = None, u_isArchived = None, u_ownerId = None\<rparr>"

text \<open>The object spread \<open>{ ...s, ...updates }\<close>.\<close>

definition spread :: "StoredSession \<Rightarrow> SessionUpdates \<Rightarrow> StoredSession" where
  "spread s u =
     \<lparr>session_id = (case u_session_id u of None \<Rightarrow> session_id s | Some v \<Rightarrow> v),
      title = (case u_title u of None \<Rightarrow> title s | Some v \<Rightarrow> v),
      messages = (case u_messages u of None \<Rightarrow> messages s | Some v \<Rightarrow> v),
      settings = (case u_settings u of None \<Rightarrow> settings s | Some v \<Rightarrow> v),
      isPublic = (case u_isPublic u of None \<Rightarrow> isPublic s | Some v \<Rightarrow> v),
      isArchived = (case u_isArchived u of None \<Rightarrow> isArchived s | Some v \<Rightarrow> v),
      ownerId = (case u_ownerId u of None \<Rightarrow> ownerId s | Some v \<Rightarrow> v)\<rparr>"

definition DEFAULT_AI_SETTINGS :: AISettings where
  "DEFAULT_AI_SETTINGS =
     \<lparr>model = Gemini_2_5_flash, systemInstruction = Some [], temperature = Some (9 / 10),
      topK = Some 1, topP = Some 1, intelligentMode = Some Ahm_ai_2_5,
      codeIsNonbro = Some False\<rparr>"

definition DEFAULT_GUEST_USER_PROFILE :: UserProfile where
  "DEFAULT_GUEST_USER_PROFILE =
     \<lparr>user_id = js ''guest'', username = js ''Guest'', isVerified = False,
      profilePicture = None\<rparr>"

section \<open>Session store (consolidated variant)\<close>

text \<open>
  \<open>AllUserSessions\<close> is an object keyed by owner identifier. The association list
  keeps the insertion order of the keys; \<open>{ ...prev, [k]: v }\<close> replaces the value of
  a key that is present and appends a new key, which is \<open>AList.update\<close>.
  \<open>sessionsOf st k\<close> is \<open>st[k] || []\<close>.
\<close>

type_synonym AllUserSessions = "(jsstring \<times> StoredSession list) list"

definition sessionsOf :: "AllUserSessions \<Rightarrow> jsstring \<Rightarrow> StoredSession list" where
  "sessionsOf st k = (case map_of st k of None \<Rightarrow> [] | Some ss \<Rightarrow> ss)"

definition addSession :: "StoredSession \<Rightarrow> AllUserSessions \<Rightarrow> AllUserSessions" where
  "addSession session prevAllSessions =
     (let userSessions = sessionsOf prevAllSessions (ownerId session)
      in AList.update (ownerId session) (userSessions @ [session]) prevAllSessions)"

definition updateSession ::
  "jsstring \<Rightarrow> jsstring \<Rightarrow> SessionUpdates \<Rightarrow> AllUserSessions \<Rightarrow> AllUserSessions" where
  "updateSession sessionId userId updates prevAllSessions =
     (let userSessions = sessionsOf prevAllSessions userId;
          updatedUserSessions =
            map (\<lambda>s. if session_id s = sessionId then spread s updates else s) userSessions
      in AList.update userId updatedUserSessions prevAllSessions)"

definition deleteSession :: "jsstring \<Rightarrow> jsstring \<Rightarrow> AllUserSessions \<Rightarrow> AllUserSessions" where
  "deleteSession sessionId userId prevAllSessions =
     (let userSessions = sessionsOf prevAllSessions userId;
          filteredUserSessions = filter (\<lambda>s. session_id s \<noteq> sessionId) userSessions
      in AList.update userId filteredUserSessions prevAllSessions)"

text \<open>
  \<open>archiveSession\<close> reads the flag from the \<open>allUserSessions\<close> of the render that
  created the callback (\<open>rendered\<close>) and writes through \<open>updateSession\<close>.
  \<open>!undefined\<close> is \<open>true\<close>, so a session that is not found is written as archived.
\<close>

definition archiveSession ::
  "jsstring \<Rightarrow> jsstring \<Rightarrow> AllUserSessions \<Rightarrow> AllUserSessions \<Rightarrow> AllUserSessions" where
  "archiveSession sessionId userId rendered prevAllSessions =
     updateSession sessionId userId
       (noUpdates\<lparr>u_isArchived :=
          Some (\<not> (case map_of rendered userId of
                      None \<Rightarrow> False
                    | Some ss \<Rightarrow>
                        (case find (\<lambda>s. session_id s = sessionId) ss of
                           None \<Rightarrow> False
                         | Some s \<Rightarrow> isArchived s)))\<rparr>)
       prevAllSessions"

text \<open>
  The states of the store the application reaches from the empty object. Every call
  of \<open>addSession\<close> passes a session whose identifier is a fresh
  \<open>crypto.randomUUID()\<close>; every call of \<open>updateSession\<close> passes some of
  \<open>title\<close>, \<open>messages\<close>, \<open>settings\<close>, \<open>isPublic\<close>, \<open>isArchived\<close> and never
  \<open>id\<close> or \<open>ownerId\<close>.
\<close>

definition allIds :: "AllUserSessions \<Rightarrow> jsstring list" where
  "allIds st = concat (map (\<lambda>(k, ss). map session_id ss) st)"

inductive reachable :: "AllUserSessions \<Rightarrow> bool" where
  reach_empty: "reachable []"
| reach_add: "reachable st \<Longrightarrow> session_id s \<notin> set (allIds st) \<Longrightarrow> reachable (addSession s st)"
| reach_update: "reachable st \<Longrightarrow> u_session_id u = None \<Longrightarrow> u_ownerId u = None \<Longrightarrow>
     reachable (updateSession sessionId userId u st)"
| reach_delete: "reachable st \<Longrightarrow> reachable (deleteSession sessionId userId st)"
| reach_archive: "reachable st \<Longrightarrow> reachable (archiveSession sessionId userId rendered st)"

definition ownedByKey :: "AllUserSessions \<Rightarrow> jsstring \<Rightarrow> bool" where
  "ownedByKey st k \<longleftrightarrow> list_all (\<lambda>s. ownerId s = k) (sessionsOf st k)"

definition disjointIds :: "AllUserSessions \<Rightarrow> jsstring \<Rightarrow> jsstring \<Rightarrow> bool" where
  "disjointIds st k1 k2 \<longleftrightarrow>
     list_all (\<lambda>s1. list_all (\<lambda>s2. session_id s1 \<noteq> session_id s2) (sessionsOf st k2))
       (sessionsOf st k1)"

section \<open>Application state\<close>

text \<open>
  The state hooks of \<open>UserProvider\<close> and \<open>App\<close> that the handlers below read or
  write. \<open>chat\<close> records whether a chat instance is present (\<open>chat !== null\<close>);
  \<open>publicSessionData\<close> is the decoded shared view. Both variants have the fields
  of \<open>AppCore\<close>; \<^verbatim>\<open>part_000\<close> adds the consolidated store and the API key flag,
  \<^verbatim>\<open>index.tsx\<close> keeps the session list of the current user only.
\<close>

record AppCore =
  currentUser :: UserProfile
  registeredUsers :: "UserProfile list"
  activeSessionId :: "jsstring option"
  chat :: bool
  inputValue :: jsstring
  isLoading :: bool
  editingSessionId :: "jsstring option"
  editingTitle :: jsstring
  showArchivedSessions :: bool
  isLoginRegisterModalOpen :: bool
  aiSettings :: AISettings
  publicSessionData :: "(jsstring \<times> Message list) option"

record AppState = AppCore +
  allUserSessions :: AllUserSessions
  isApiKeyMissing :: bool

record AppState_idx = AppCore +
  sessions_idx :: "SessionCore list"

definition isGuest :: "'a AppCore_scheme \<Rightarrow> bool" where
  "isGuest st \<longleftrightarrow> user_id (currentUser st) = user_id DEFAULT_GUEST_USER_PROFILE"

section \<open>Identity store\<close>

text \<open>
  \<open>updateUserProfile\<close> is the same in both variants: the profile replaces the first
  roster entry with its identifier, or is appended; the current user is refreshed
  when it has that identifier.
\<close>

fun upsertProfile :: "UserProfile \<Rightarrow> UserProfile list \<Rightarrow> UserProfile list" where
  "upsertProfile p [] = [p]"
| "upsertProfile p (u # us) =
     (if user_id u = user_id p then p # us else u # upsertProfile p us)"

definition updateUserProfile :: "UserProfile \<Rightarrow> 'a AppCore_scheme \<Rightarrow> 'a AppCore_scheme" where
  "updateUserProfile profile st =
     st\<lparr>registeredUsers := upsertProfile profile (registeredUsers st),
        currentUser := (if user_id (currentUser st) = user_id profile then profile
                        else currentUser st)\<rparr>"

text \<open>\<open>loginUser\<close> of \<^verbatim>\<open>part_000\<close> also makes sure the profile is in the roster;
  \<open>loginUser\<close> of \<^verbatim>\<open>index.tsx\<close> only sets the current user.\<close>

definition loginUser :: "UserProfile \<Rightarrow> 'a AppCore_scheme \<Rightarrow> 'a AppCore_scheme" where
  "loginUser profile st =
     st\<lparr>currentUser := profile,
        registeredUsers :=
          (if list_ex (\<lambda>u. user_id u = user_id profile) (registeredUsers st)
           then registeredUsers st else registeredUsers st @ [profile])\<rparr>"

definition loginUser_idx :: "UserProfile \<Rightarrow> 'a AppCore_scheme \<Rightarrow> 'a AppCore_scheme" where
  "loginUser_idx profile st = st\<lparr>currentUser := profile\<rparr>"

definition logoutUser :: "'a AppCore_scheme \<Rightarrow> 'a AppCore_scheme" where
  "logoutUser st = st\<lparr>currentUser := DEFAULT_GUEST_USER_PROFILE\<rparr>"

text \<open>
  \<open>handleLoginRegister\<close> of the login dialog. \<open>toLowerCase\<close> is the library's
  \<open>String.prototype.toLowerCase\<close>, taken as a parameter; \<open>uuid\<close> is the value of
  \<open>crypto.randomUUID()\<close>; \<open>tempUsername\<close> and \<open>tempIsVerified\<close> are the dialog's
  fields. A blank username sets the dialog's error and changes nothing (\<open>Inl\<close>).
\<close>

definition newUserProfile :: "jsstring \<Rightarrow> jsstring \<Rightarrow> bool \<Rightarrow> UserProfile" where
  "newUserProfile uuid trimmedUsername tempIsVerified =
     \<lparr>user_id = uuid, username = trimmedUsername, isVerified = tempIsVerified,
      profilePicture = None\<rparr>"

definition existingUser ::
  "(jsstring \<Rightarrow> jsstring) \<Rightarrow> jsstring \<Rightarrow> UserProfile list \<Rightarrow> UserProfile option" where
  "existingUser toLowerCase trimmedUsername users =
     find (\<lambda>user. toLowerCase (username user) = toLowerCase trimmedUsername) users"

definition handleLoginRegister ::
  "(jsstring \<Rightarrow> jsstring) \<Rightarrow> jsstring \<Rightarrow> jsstring \<Rightarrow> bool \<Rightarrow> 'a AppCore_scheme
     \<Rightarrow> jsstring + 'a AppCore_scheme" where
  "handleLoginRegister toLowerCase uuid tempUsername tempIsVerified st =
     (let trimmedUsername = trim tempUsername in
      if trimmedUsername = [] then Inl (js ''Username cannot be empty.'')
      else
        (case existingUser toLowerCase trimmedUsername (registeredUsers st) of
           Some existing \<Rightarrow>
             Inr ((loginUser existing st)\<lparr>isLoginRegisterModalOpen := False\<rparr>)
         | None \<Rightarrow>
             (let profile = newUserProfile uuid trimmedUsername tempIsVerified
              in Inr ((loginUser profile (updateUserProfile profile st))
                        \<lparr>isLoginRegisterModalOpen := False\<rparr>))))"

definition handleLoginRegister_idx ::
  "(jsstring \<Rightarrow> jsstring) \<Rightarrow> jsstring \<Rightarrow> jsstring \<Rightarrow> bool \<Rightarrow> 'a AppCore_scheme
     \<Rightarrow> jsstring + 'a AppCore_scheme" where
  "handleLoginRegister_idx toLowerCase uuid tempUsername tempIsVerified st =
     (let trimmedUsername = trim tempUsername in
      if trimmedUsername = [] then Inl (js ''Username cannot be empty.'')
      else
        (case existingUser toLowerCase trimmedUsername (registeredUsers st) of
           Some existing \<Rightarrow>
             Inr ((loginUser_idx existing st)\<lparr>isLoginRegisterModalOpen := False\<rparr>)
         | None \<Rightarrow>
             (let profile = newUserProfile uuid trimmedUsername tempIsVerified
              in Inr ((loginUser_idx profile (updateUserProfile profile st))
                        \<lparr>isLoginRegisterModalOpen := False\<rparr>))))"

section \<open>Session handlers (consolidated variant, \<^verbatim>\<open>part_000\<close>)\<close>

text \<open>\<open>sessions\<close> is the derived \<open>allUserSessions[currentUser.id] || []\<close>.\<close>

definition sessions :: "AppState \<Rightarrow> StoredSession list" where
  "sessions st = sessionsOf (allUserSessions st) (user_id (currentUser st))"

text \<open>\<open>inputValue.substring(0, 30) + (inputValue.length > 30 ? '...' : '')\<close>.\<close>

definition autoTitle :: "jsstring \<Rightarrow> jsstring" where
  "autoTitle v = take 30 v @ (if length v > 30 then js ''...'' else [])"

definition errorMessage :: Message where
  "errorMessage =
     \<lparr>role = Model, msg_text = js ''Oops! Something went wrong. Please try again.''\<rparr>"

text \<open>\<open>handleNewChat\<close>; \<open>uuid\<close> is the value of \<open>crypto.randomUUID()\<close>.\<close>

definition newSession :: "jsstring \<Rightarrow> AppState \<Rightarrow> StoredSession" where
  "newSession uuid st =
     \<lparr>session_id = uuid, title = js ''New Chat'', messages = [],
      settings = aiSettings st, isPublic = False, isArchived = False,
      ownerId = user_id (currentUser st)\<rparr>"

definition handleNewChat :: "bool \<Rightarrow> jsstring \<Rightarrow> AppState \<Rightarrow> AppState" where
  "handleNewChat forceNew uuid st =
     (if \<not> forceNew \<and> isGuest st then st\<lparr>isLoginRegisterModalOpen := True\<rparr>
      else if \<not> forceNew \<and> truthy (activeSessionId st) \<and>
              find (\<lambda>s. Some (session_id s) = activeSessionId st \<and> messages s = [])
                (sessions st) \<noteq> None
      then st
      else st\<lparr>allUserSessions := addSession (newSession uuid st) (allUserSessions st),
              activeSessionId := Some (session_id (newSession uuid st)), inputValue := []\<rparr>)"

definition handleSelectSession :: "jsstring \<Rightarrow> AppState \<Rightarrow> AppState" where
  "handleSelectSession i st =
     (if Some i \<noteq> activeSessionId st then st\<lparr>activeSessionId := Some i, chat := False\<rparr>
      else st)"

text \<open>
  \<open>handleSendMessage\<close> awaits the completion request. \<open>handleSendMessage_begin\<close> is
  the part before the \<open>await\<close>: it returns \<open>None\<close> when no request is issued, and
  otherwise the values the continuation closes over. \<open>handleSendMessage_resume\<close> is
  the \<open>try\<close> continuation, the \<open>catch\<close> and the \<open>finally\<close>, run on the state
  at the time the request settles.
\<close>

record SendCtx =
  ctx_sessionId :: jsstring
  ctx_userId :: jsstring
  ctx_message :: jsstring
  ctx_messagesAfterUserMessage :: "Message list"

datatype Completion = Reply jsstring | Failed

definition handleSendMessage_begin :: "AppState \<Rightarrow> SendCtx option \<times> AppState" where
  "handleSendMessage_begin st =
     (if trim (inputValue st) = [] \<or> isLoading st \<or> \<not> chat st \<or>
         \<not> truthy (activeSessionId st)
      then (None, st)
      else if isGuest st then (None, st\<lparr>isLoginRegisterModalOpen := True\<rparr>)
      else if isApiKeyMissing st then (None, st)
      else
        (case activeSessionId st of
           None \<Rightarrow> (None, st)
         | Some activeId \<Rightarrow>
             (let userMessage = \<lparr>role = User, msg_text = inputValue st\<rparr>;
                  st1 = st\<lparr>isLoading := True, inputValue := []\<rparr>
              in case find (\<lambda>s. session_id s = activeId) (sessions st) of
                   None \<Rightarrow> (None, st1\<lparr>isLoading := False\<rparr>)
                 | Some activeSession \<Rightarrow>
                     (let isFirstUserMessage =
                            (filter (\<lambda>m. role m = User) (messages activeSession) = []);
                          newTitle = (if isFirstUserMessage then autoTitle (inputValue st)
                                      else title activeSession);
                          messagesAfterUserMessage = messages activeSession @ [userMessage]
                      in (Some \<lparr>ctx_sessionId = activeId,
                                ctx_userId = user_id (currentUser st),
                                ctx_message = inputValue st,
                                ctx_messagesAfterUserMessage = messagesAfterUserMessage\<rparr>,
                          st1\<lparr>allUserSessions :=
                                updateSession activeId (user_id (currentUser st))
                                  (noUpdates\<lparr>u_messages := Some messagesAfterUserMessage,
                                             u_title := Some newTitle\<rparr>)
                                  (allUserSessions st)\<rparr>)))))"

definition handleSendMessage_resume :: "SendCtx \<Rightarrow> Completion \<Rightarrow> AppState \<Rightarrow> AppState" where
  "handleSendMessage_resume ctx outcome st =
     (let reply = (case outcome of
                     Reply t \<Rightarrow> \<lparr>role = Model, msg_text = t\<rparr>
                   | Failed \<Rightarrow> errorMessage)
      in st\<lparr>allUserSessions :=
              updateSession (ctx_sessionId ctx) (ctx_userId ctx)
                (noUpdates\<lparr>u_messages := Some (ctx_messagesAfterUserMessage ctx @ [reply])\<rparr>)
                (allUserSessions st),
            isLoading := False\<rparr>)"

text \<open>\<open>handleTitleSave\<close>: \<open>editingTitle.trim() || 'Untitled Chat'\<close>.\<close>

definition finalTitle :: "jsstring \<Rightarrow> jsstring" where
  "finalTitle editing = (if trim editing = [] then js ''Untitled Chat'' else trim editing)"

definition handleTitleSave :: "AppState \<Rightarrow> AppState" where
  "handleTitleSave st =
     (case editingSessionId st of
        None \<Rightarrow> st
      | Some editingId \<Rightarrow>
          if editingId = [] then st
          else st\<lparr>allUserSessions :=
                    updateSession editingId (user_id (currentUser st))
                      (noUpdates\<lparr>u_title := Some (finalTitle (editingTitle st))\<rparr>)
                      (allUserSessions st),
                  editingSessionId := None\<rparr>)"

text \<open>
  \<open>handleDeleteSession\<close>; \<open>confirmed\<close> is the answer of \<open>window.confirm\<close>, \<open>uuid\<close>
  the identifier a forced new chat would get.
\<close>

definition handleDeleteSession :: "jsstring \<Rightarrow> bool \<Rightarrow> jsstring \<Rightarrow> AppState \<Rightarrow> AppState" where
  "handleDeleteSession sessionId confirmed uuid st =
     (if confirmed then
        (let st1 = st\<lparr>allUserSessions :=
                        deleteSession sessionId (user_id (currentUser st)) (allUserSessions st)\<rparr>;
             updatedSessions = filter (\<lambda>s. session_id s \<noteq> sessionId) (sessions st)
         in if activeSessionId st = Some sessionId then
              (case updatedSessions of
                 first # _ \<Rightarrow> st1\<lparr>activeSessionId := Some (session_id first)\<rparr>
               | [] \<Rightarrow> handleNewChat True uuid st1)
            else st1)
      else st)"

definition handleArchiveSession :: "jsstring \<Rightarrow> jsstring \<Rightarrow> AppState \<Rightarrow> AppState" where
  "handleArchiveSession sessionId uuid st =
     (let st1 = st\<lparr>allUserSessions :=
                     archiveSession sessionId (user_id (currentUser st)) (allUserSessions st)
                       (allUserSessions st)\<rparr>
      in if activeSessionId st = Some sessionId \<and> \<not> showArchivedSessions st then
           (case filter (\<lambda>s. session_id s \<noteq> sessionId \<and> \<not> isArchived s) (sessions st) of
              first # _ \<Rightarrow> st1\<lparr>activeSessionId := Some (session_id first)\<rparr>
            | [] \<Rightarrow> handleNewChat True uuid st1)
         else st1)"

text \<open>\<open>activeSessionOf st\<close> is the \<open>activeSession\<close> the component derives:
  \<open>sessions.find(s => s.id === activeSessionId)\<close>.\<close>

definition activeSessionOf :: "AppState \<Rightarrow> StoredSession option" where
  "activeSessionOf st = find (\<lambda>s. Some (session_id s) = activeSessionId st) (sessions st)"

section \<open>Session handlers (\<^verbatim>\<open>index.tsx\<close>)\<close>

text \<open>
  \<^verbatim>\<open>index.tsx\<close> keeps \<open>sessions\<close> as a state of \<open>App\<close> and changes it with
  \<open>setSessions\<close>. A new chat starts with a greeting of the model; \<open>now\<close> is the
  value of \<open>Date.now().toString()\<close>.
\<close>

definition greeting :: Message where
  "greeting = \<lparr>role = Model, msg_text = js ''Hello! How can I help you today?''\<rparr>"

definition newSession_idx :: "jsstring \<Rightarrow> AppState_idx \<Rightarrow> SessionCore" where
  "newSession_idx now st =
     \<lparr>session_id = now, title = js ''New Chat'', messages = [greeting],
      settings = aiSettings st, isPublic = False, isArchived = False\<rparr>"

definition handleNewChat_idx :: "bool \<Rightarrow> jsstring \<Rightarrow> AppState_idx \<Rightarrow> AppState_idx" where
  "handleNewChat_idx isInitial now st =
     st\<lparr>sessions_idx := (if isInitial then [newSession_idx now st]
                         else newSession_idx now st # sessions_idx st),
        activeSessionId := Some (session_id (newSession_idx now st))\<rparr>"

definition activeSessionOf_idx :: "AppState_idx \<Rightarrow> SessionCore option" where
  "activeSessionOf_idx st =
     find (\<lambda>s. Some (session_id s) = activeSessionId st) (sessions_idx st)"

text \<open>
  \<open>handleSendMessage\<close> of \<^verbatim>\<open>index.tsx\<close>. The request is issued whenever the
  guards pass, also when the active session is not in the list; the continuation
  closes over \<open>activeSessionId\<close> only and appends to the messages the session has
  when the request settles.
\<close>

definition handleSendMessage_begin_idx :: "AppState_idx \<Rightarrow> jsstring option \<times> AppState_idx" where
  "handleSendMessage_begin_idx st =
     (if trim (inputValue st) = [] \<or> isLoading st \<or> \<not> chat st \<or>
         \<not> truthy (activeSessionId st)
      then (None, st)
      else if isGuest st then (None, st\<lparr>isLoginRegisterModalOpen := True\<rparr>)
      else
        (case activeSessionId st of
           None \<Rightarrow> (None, st)
         | Some activeId \<Rightarrow>
             (let userMessage = \<lparr>role = User, msg_text = inputValue st\<rparr>;
                  prevSessions = sessions_idx st
              in (Some activeId,
                  st\<lparr>isLoading := True, inputValue := [],
                     sessions_idx :=
                       (case find (\<lambda>s. session_id s = activeId) prevSessions of
                          None \<Rightarrow> prevSessions
                        | Some activeSession \<Rightarrow>
                            (let isFirstUserMessage =
                                   (filter (\<lambda>m. role m = User) (messages activeSession) = []);
                                 newTitle = (if isFirstUserMessage then autoTitle (inputValue st)
                                             else title activeSession);
                                 updatedMessages = messages activeSession @ [userMessage];
                                 updatedSession =
                                   activeSession\<lparr>messages := updatedMessages, title := newTitle\<rparr>
                             in map (\<lambda>s. if session_id s = activeId then updatedSession else s)
                                  prevSessions))\<rparr>))))"


definition handleTitleSave_idx :: "AppState_idx \<Rightarrow> AppState_idx" where
  "handleTitleSave_idx st =
     (case editingSessionId st of
        None \<Rightarrow> st
      | Some editingId \<Rightarrow>
          if editingId = [] then st
          else st\<lparr>sessions_idx :=
                    map (\<lambda>s. if session_id s = editingId
                              then s\<lparr>title := finalTitle (editingTitle st)\<rparr> else s)
                      (sessions_idx st),
                  editingSessionId := None\<rparr>)"

text \<open>
  \<open>handleDeleteSession\<close> of \<^verbatim>\<open>index.tsx\<close> chooses the replacement inside the
  updater it passes to \<open>setSessions\<close>. When no session is left the updater itself
  calls \<open>handleNewChat(true)\<close>, which queues a second \<open>setSessions\<close> from inside
  the first; React does not say in which order the two are applied (an updater must
  be pure), so the model gives no state there (\<open>None\<close>).
\<close>

definition handleDeleteSession_idx ::
  "jsstring \<Rightarrow> bool \<Rightarrow> AppState_idx \<Rightarrow> AppState_idx option" where
  "handleDeleteSession_idx sessionId confirmed st =
     (if confirmed then
        (let updatedSessions = filter (\<lambda>s. session_id s \<noteq> sessionId) (sessions_idx st)
         in if activeSessionId st = Some sessionId then
              (case updatedSessions of
                 first # _ \<Rightarrow>
                   Some (st\<lparr>sessions_idx := updatedSessions,
                            activeSessionId := Some (session_id first)\<rparr>)
               | [] \<Rightarrow> None)
            else Some (st\<lparr>sessions_idx := updatedSessions\<rparr>))
      else Some st)"

text \<open>
  \<open>handleArchiveSession\<close> of \<^verbatim>\<open>index.tsx\<close>: the forced new chat is
  \<open>handleNewChat(true)\<close>, whose \<open>setSessions([newSession])\<close> replaces the whole
  list after the flag has been flipped.
\<close>

definition handleArchiveSession_idx :: "jsstring \<Rightarrow> jsstring \<Rightarrow> AppState_idx \<Rightarrow> AppState_idx" where
  "handleArchiveSession_idx sessionId now st =
     (let st1 = st\<lparr>sessions_idx :=
                     map (\<lambda>s. if session_id s = sessionId
                               then s\<lparr>isArchived := \<not> isArchived s\<rparr> else s)
                       (sessions_idx st)\<rparr>
      in if activeSessionId st = Some sessionId \<and> \<not> showArchivedSessions st then
           (case filter (\<lambda>s. session_id s \<noteq> sessionId \<and> \<not> isArchived s) (sessions_idx st) of
              first # _ \<Rightarrow> st1\<lparr>activeSessionId := Some (session_id first)\<rparr>
            | [] \<Rightarrow> handleNewChat_idx True now st1)
         else st1)"

text \<open>The store is partitioned by owner: every session is stored under the key of its
  owner, and the collections of two different owners share no session identifier.\<close>

definition partitioned :: "AllUserSessions \<Rightarrow> bool" where
  "partitioned st \<longleftrightarrow>
     (\<forall>k. ownedByKey st k) \<and> (\<forall>k1 k2. k1 \<noteq> k2 \<longrightarrow> disjointIds st k1 k2)"



section \<open>Share links\<close>

subsection \<open>\<open>JSON.stringify\<close> of the shared data\<close>

text \<open>
  \<open>QuoteJSONString\<close> (ECMA-262, 25.5.2.3) walks the code points of the string: the
  characters with a short escape, the other code units below U+0020 and the
  surrogates that are not part of a pair are escaped; a high surrogate followed by
  a low one, and every other code unit, is copied. \<open>unicodeEscape\<close> writes
  \<^verbatim>\<open>\u\<close> and four lower-case hexadecimal digits.
\<close>

definition hexDigit :: "nat \<Rightarrow> 16 word" where
  "hexDigit n = (if n < 10 then 0x30 + of_nat n else 0x61 + of_nat (n - 10))"

definition unicodeEscape :: "16 word \<Rightarrow> jsstring" where
  "unicodeEscape c =
     [0x5C, 0x75, hexDigit (unat c div 4096), hexDigit (unat c div 256 mod 16),
      hexDigit (unat c div 16 mod 16), hexDigit (unat c mod 16)]"

definition isHighSurrogate :: "16 word \<Rightarrow> bool" where
  "isHighSurrogate c \<longleftrightarrow> 0xD800 \<le> c \<and> c \<le> 0xDBFF"

definition isLowSurrogate :: "16 word \<Rightarrow> bool" where
  "isLowSurrogate c \<longleftrightarrow> 0xDC00 \<le> c \<and> c \<le> 0xDFFF"

definition quoteUnit :: "16 word \<Rightarrow> jsstring" where
  "quoteUnit c =
     (if c = 0x8 then [0x5C, 0x62]
      else if c = 0x9 then [0x5C, 0x74]
      else if c = 0xA then [0x5C, 0x6E]
      else if c = 0xC then [0x5C, 0x66]
      else if c = 0xD then [0x5C, 0x72]
      else if c = 0x22 then [0x5C, 0x22]
      else if c = 0x5C then [0x5C, 0x5C]
      else if c < 0x20 \<or> isHighSurrogate c \<or> isLowSurrogate c then unicodeEscape c
      else [c])"

fun quoteChars :: "jsstring \<Rightarrow> jsstring" where
  "quoteChars [] = []"
| "quoteChars [c] = quoteUnit c"
| "quoteChars (c # d # cs) =
     (if isHighSurrogate c \<and> isLowSurrogate d then c # d # quoteChars cs
      else quoteUnit c @ quoteChars (d # cs))"

definition quoteJSONString :: "jsstring \<Rightarrow> jsstring" where
  "quoteJSONString s = [0x22] @ quoteChars s @ [0x22]"

text \<open>
  The shared object is \<open>{ title, messages }\<close> and every message is
  \<open>{ role, text }\<close>; \<open>JSON.stringify\<close> writes the properties in this order,
  quotes names and string values with \<open>QuoteJSONString\<close> and adds no white space.
\<close>

definition roleName :: "Role \<Rightarrow> jsstring" where
  "roleName r = (case r of User \<Rightarrow> js ''user'' | Model \<Rightarrow> js ''model'')"

definition stringifyMessage :: "Message \<Rightarrow> jsstring" where
  "stringifyMessage m =
     js ''{'' @ quoteJSONString (js ''role'') @ js '':'' @ quoteJSONString (roleName (role m)) @
     js '','' @ quoteJSONString (js ''text'') @ js '':'' @ quoteJSONString (msg_text m) @
     js ''}''"

fun stringifyElements :: "Message list \<Rightarrow> jsstring" where
  "stringifyElements [] = []"
| "stringifyElements [m] = stringifyMessage m"
| "stringifyElements (m # ms) = stringifyMessage m @ js '','' @ stringifyElements ms"

definition stringifyShared :: "jsstring \<Rightarrow> Message list \<Rightarrow> jsstring" where
  "stringifyShared t ms =
     js ''{'' @ quoteJSONString (js ''title'') @ js '':'' @ quoteJSONString t @
     js '','' @ quoteJSONString (js ''messages'') @ js '':['' @ stringifyElements ms @
     js '']}''"

subsection \<open>\<open>btoa\<close> and \<open>atob\<close>\<close>

text \<open>
  \<open>btoa\<close> throws \<open>InvalidCharacterError\<close> when a code unit is above U+00FF, and
  otherwise encodes the code units as bytes in base64 with padding.
\<close>

definition b64alphabet :: jsstring where
  "b64alphabet = js ''ABCDEFGHIJKLMNOPQRSTUVWXYZabcdefghijklmnopqrstuvwxyz0123456789+/''"

definition b64char :: "nat \<Rightarrow> 16 word" where
  "b64char n = b64alphabet ! n"

fun b64sextets :: "nat list \<Rightarrow> nat list" where
  "b64sextets [] = []"
| "b64sextets [a] = [a div 4, a mod 4 * 16]"
| "b64sextets [a, b] = [a div 4, a mod 4 * 16 + b div 16, b mod 16 * 4]"
| "b64sextets (a # b # c # r) =
     [a div 4, a mod 4 * 16 + b div 16, b mod 16 * 4 + c div 64, c mod 64] @ b64sextets r"

definition b64padding :: "nat \<Rightarrow> jsstring" where
  "b64padding n = replicate ((3 - n mod 3) mod 3) 0x3D"

definition btoa :: "jsstring \<Rightarrow> jsstring option" where
  "btoa s =
     (if list_ex (\<lambda>c. c > 0xFF) s then None
      else Some (map b64char (b64sextets (map unat s)) @ b64padding (length s)))"

text \<open>
  \<open>atob\<close> is the forgiving base64 decoder of the Infra standard: ASCII white space
  is removed; when the length is then a multiple of four, one or two trailing
  \<open>=\<close> are removed; a length of one more than a multiple of four, or a character
  outside the alphabet, is an error; the bits left over by a last group of two or
  three characters are dropped.
\<close>

definition isAsciiWhitespace :: "16 word \<Rightarrow> bool" where
  "isAsciiWhitespace c \<longleftrightarrow> c = 0x9 \<or> c = 0xA \<or> c = 0xC \<or> c = 0xD \<or> c = 0x20"

definition stripPadding :: "jsstring \<Rightarrow> jsstring" where
  "stripPadding d =
     (if length d mod 4 = 0 then
        (case rev d of
           p # q # r \<Rightarrow> if p = 0x3D \<and> q = 0x3D then rev r
                        else if p = 0x3D then rev (q # r) else d
         | _ \<Rightarrow> d)
      else d)"

definition b64value :: "16 word \<Rightarrow> nat option" where
  "b64value c =
     (if 0x41 \<le> c \<and> c \<le> 0x5A then Some (unat c - 0x41)
      else if 0x61 \<le> c \<and> c \<le> 0x7A then Some (unat c - 0x61 + 26)
      else if 0x30 \<le> c \<and> c \<le> 0x39 then Some (unat c - 0x30 + 52)
      else if c = 0x2B then Some 62
      else if c = 0x2F then Some 63
      else None)"

fun b64values :: "jsstring \<Rightarrow> nat list option" where
  "b64values [] = Some []"
| "b64values (c # cs) =
     (case b64value c of
        None \<Rightarrow> None
      | Some v \<Rightarrow> (case b64values cs of None \<Rightarrow> None | Some vs \<Rightarrow> Some (v # vs)))"

fun b64bytes :: "nat list \<Rightarrow> nat list" where
  "b64bytes (p # q # r # s # rest) =
     [p * 4 + q div 16, q mod 16 * 16 + r div 4, r mod 4 * 64 + s] @ b64bytes rest"
| "b64bytes [p, q, r] = [p * 4 + q div 16, q mod 16 * 16 + r div 4]"
| "b64bytes [p, q] = [p * 4 + q div 16]"
| "b64bytes _ = []"

definition atob :: "jsstring \<Rightarrow> jsstring option" where
  "atob s =
     (let d = stripPadding (filter (\<lambda>c. \<not> isAsciiWhitespace c) s)
      in if length d mod 4 = 1 then None
         else (case b64values d of
                 None \<Rightarrow> None
               | Some vs \<Rightarrow> Some (map of_nat (b64bytes vs))))"

subsection \<open>\<open>JSON.parse\<close>\<close>

text \<open>
  A parsed JSON value. A number keeps its source text; no arithmetic is done on it.
  The members of an object are in source order; reading a property takes the last
  member with that name.
\<close>

datatype json =
    JNull
  | JBool bool
  | JNumber jsstring
  | JString jsstring
  | JArray "json list"
  | JObject "(jsstring \<times> json) list"

definition isJsonWhitespace :: "16 word \<Rightarrow> bool" where
  "isJsonWhitespace c \<longleftrightarrow> c = 0x20 \<or> c = 0x9 \<or> c = 0xA \<or> c = 0xD"

definition skipWs :: "jsstring \<Rightarrow> jsstring" where
  "skipWs cs = dropWhile isJsonWhitespace cs"

definition hexValue :: "16 word \<Rightarrow> nat option" where
  "hexValue c =
     (if 0x30 \<le> c \<and> c \<le> 0x39 then Some (unat c - 0x30)
      else if 0x61 \<le> c \<and> c \<le> 0x66 then Some (unat c - 0x61 + 10)
      else if 0x41 \<le> c \<and> c \<le> 0x46 then Some (unat c - 0x41 + 10)
      else None)"

definition simpleEscape :: "16 word \<Rightarrow> 16 word option" where
  "simpleEscape e =
     (if e = 0x22 then Some 0x22
      else if e = 0x5C then Some 0x5C
      else if e = 0x2F then Some 0x2F
      else if e = 0x62 then Some 0x8
      else if e = 0x66 then Some 0xC
      else if e = 0x6E then Some 0xA
      else if e = 0x72 then Some 0xD
      else if e = 0x74 then Some 0x9
      else None)"

text \<open>\<open>parseChars\<close> reads the characters of a string up to its closing quote.\<close>

fun parseChars :: "jsstring \<Rightarrow> (jsstring \<times> jsstring) option" where
  "parseChars [] = None"
| "parseChars (c # cs) =
     (if c = 0x22 then Some ([], cs)
      else if c = 0x5C then
        (case cs of
           [] \<Rightarrow> None
         | e # es \<Rightarrow>
             if e = 0x75 then
               (case es of
                  h1 # h2 # h3 # h4 # rest \<Rightarrow>
                    (case hexValue h1 of None \<Rightarrow> None | Some a \<Rightarrow>
                     case hexValue h2 of None \<Rightarrow> None | Some b \<Rightarrow>
                     case hexValue h3 of None \<Rightarrow> None | Some d \<Rightarrow>
                     case hexValue h4 of None \<Rightarrow> None | Some f \<Rightarrow>
                     case parseChars rest of
                       None \<Rightarrow> None
                     | Some (s, r) \<Rightarrow> Some (of_nat (4096 * a + 256 * b + 16 * d + f) # s, r))
                | _ \<Rightarrow> None)
             else
               (case simpleEscape e of
                  None \<Rightarrow> None
                | Some u \<Rightarrow>
                    (case parseChars es of None \<Rightarrow> None | Some (s, r) \<Rightarrow> Some (u # s, r))))
      else if c < 0x20 then None
      else (case parseChars cs of None \<Rightarrow> None | Some (s, r) \<Rightarrow> Some (c # s, r)))"

text \<open>The number grammar: an optional minus, an integer part without a leading
  zero, an optional fraction and an optional exponent.\<close>

definition isDigit :: "16 word \<Rightarrow> bool" where
  "isDigit c \<longleftrightarrow> 0x30 \<le> c \<and> c \<le> 0x39"

definition numberInt :: "jsstring \<Rightarrow> jsstring option" where
  "numberInt cs =
     (case cs of
        [] \<Rightarrow> None
      | c # r \<Rightarrow> if c = 0x30 then Some r
                 else if isDigit c then Some (dropWhile isDigit r) else None)"

definition numberFrac :: "jsstring \<Rightarrow> jsstring option" where
  "numberFrac cs =
     (case cs of
        [] \<Rightarrow> Some cs
      | c # r \<Rightarrow> if c = 0x2E then
                   (if takeWhile isDigit r = [] then None else Some (dropWhile isDigit r))
                 else Some cs)"

definition numberExp :: "jsstring \<Rightarrow> jsstring option" where
  "numberExp cs =
     (case cs of
        [] \<Rightarrow> Some cs
      | c # r \<Rightarrow>
          if c = 0x65 \<or> c = 0x45 then
            (let r' = (case r of [] \<Rightarrow> r | s # t \<Rightarrow> if s = 0x2B \<or> s = 0x2D then t else r)
             in if takeWhile isDigit r' = [] then None else Some (dropWhile isDigit r'))
          else Some cs)"

definition parseNumber :: "jsstring \<Rightarrow> (jsstring \<times> jsstring) option" where
  "parseNumber cs =
     (case numberInt (case cs of [] \<Rightarrow> cs | c # r \<Rightarrow> if c = 0x2D then r else cs) of
        None \<Rightarrow> None
      | Some r1 \<Rightarrow>
          (case numberFrac r1 of
             None \<Rightarrow> None
           | Some r2 \<Rightarrow>
               (case numberExp r2 of
                  None \<Rightarrow> None
                | Some r3 \<Rightarrow> Some (take (length cs - length r3) cs, r3))))"

text \<open>
  The parser of values, array elements and object members. The first argument
  bounds the depth of the recursion; \<open>JSON_parse\<close> starts it with twice the
  length of the text plus two, which the recursion cannot exhaust: a value consumes
  a character before it descends, and elements and members consume one between
  two descents.
\<close>

fun parseValue :: "nat \<Rightarrow> jsstring \<Rightarrow> (json \<times> jsstring) option"
  and parseElements :: "nat \<Rightarrow> jsstring \<Rightarrow> (json list \<times> jsstring) option"
  and parseMembers :: "nat \<Rightarrow> jsstring \<Rightarrow> ((jsstring \<times> json) list \<times> jsstring) option"
where
  "parseValue 0 cs = None"
| "parseValue (Suc n) cs =
     (case skipWs cs of
        [] \<Rightarrow> None
      | c # r \<Rightarrow>
          if c = 0x7B then
            (case skipWs r of
               [] \<Rightarrow> None
             | c' # r' \<Rightarrow>
                 if c' = 0x7D then Some (JObject [], r')
                 else (case parseMembers n (c' # r') of
                         None \<Rightarrow> None
                       | Some (ms, r'') \<Rightarrow> Some (JObject ms, r'')))
          else if c = 0x5B then
            (case skipWs r of
               [] \<Rightarrow> None
             | c' # r' \<Rightarrow>
                 if c' = 0x5D then Some (JArray [], r')
                 else (case parseElements n (c' # r') of
                         None \<Rightarrow> None
                       | Some (vs, r'') \<Rightarrow> Some (JArray vs, r'')))
          else if c = 0x22 then
            (case parseChars r of None \<Rightarrow> None | Some (s, r') \<Rightarrow> Some (JString s, r'))
          else if c = 0x74 then
            (if take 3 r = js ''rue'' then Some (JBool True, drop 3 r) else None)
          else if c = 0x66 then
            (if take 4 r = js ''alse'' then Some (JBool False, drop 4 r) else None)
          else if c = 0x6E then
            (if take 3 r = js ''ull'' then Some (JNull, drop 3 r) else None)
          else if c = 0x2D \<or> isDigit c then
            (case parseNumber (c # r) of
               None \<Rightarrow> None
             | Some (lexeme, r') \<Rightarrow> Some (JNumber lexeme, r'))
          else None)"
| "parseElements 0 cs = None"
| "parseElements (Suc n) cs =
     (case parseValue n cs of
        None \<Rightarrow> None
      | Some (v, r) \<Rightarrow>
          (case skipWs r of
             [] \<Rightarrow> None
           | c # r' \<Rightarrow>
               if c = 0x2C then
                 (case parseElements n r' of
                    None \<Rightarrow> None
                  | Some (vs, r'') \<Rightarrow> Some (v # vs, r''))
               else if c = 0x5D then Some ([v], r')
               else None))"
| "parseMembers 0 cs = None"
| "parseMembers (Suc n) cs =
     (case skipWs cs of
        [] \<Rightarrow> None
      | c # r \<Rightarrow>
          if c \<noteq> 0x22 then None
          else
            (case parseChars r of
               None \<Rightarrow> None
             | Some (k, r1) \<Rightarrow>
                 (case skipWs r1 of
                    [] \<Rightarrow> None
                  | c1 # r2 \<Rightarrow>
                      if c1 \<noteq> 0x3A then None
                      else
                        (case parseValue n r2 of
                           None \<Rightarrow> None
                         | Some (v, r3) \<Rightarrow>
                             (case skipWs r3 of
                                [] \<Rightarrow> None
                              | c3 # r4 \<Rightarrow>
                                  if c3 = 0x2C then
                                    (case parseMembers n r4 of
                                       None \<Rightarrow> None
                                     | Some (ms, r5) \<Rightarrow> Some ((k, v) # ms, r5))
                                  else if c3 = 0x7D then Some ([(k, v)], r4)
                                  else None)))))"

definition JSON_parse :: "jsstring \<Rightarrow> json option" where
  "JSON_parse text =
     (case parseValue (2 * length text + 2) text of
        None \<Rightarrow> None
      | Some (v, r) \<Rightarrow> if skipWs r = [] then Some v else None)"

subsection \<open>Encoding and decoding a share link\<close>

text \<open>
  \<open>ShareModal\<close> builds the link as origin, path and \<^verbatim>\<open>?view=\<close> followed by
  \<open>btoa(JSON.stringify(dataToShare))\<close>; when that throws it shows an error text
  instead of a link (\<open>None\<close>).
\<close>

definition shareEncode :: "jsstring \<Rightarrow> Message list \<Rightarrow> jsstring option" where
  "shareEncode t ms = btoa (stringifyShared t ms)"

text \<open>
  \<open>getView blob\<close> is what \<open>URLSearchParams.get('view')\<close> returns for that link.
  The blob consists of base64 characters, so there is nothing to percent-decode and
  no separator in it; the form decoding turns every \<open>+\<close> into a space.
\<close>

definition getView :: "jsstring \<Rightarrow> jsstring option" where
  "getView blob = Some (map (\<lambda>c. if c = 0x2B then 0x20 else c) blob)"

text \<open>
  Reading a property of a parsed value, and the truthiness of the result. A number
  is taken for zero when its mantissa has no digit other than \<open>0\<close>; an exponent
  that makes a number underflow to zero is not modelled.
\<close>

definition property :: "string \<Rightarrow> json \<Rightarrow> json option" where
  "property k v = (case v of JObject ms \<Rightarrow> map_of (rev ms) (js k) | _ \<Rightarrow> None)"

definition numberIsZero :: "jsstring \<Rightarrow> bool" where
  "numberIsZero lexeme \<longleftrightarrow>
     list_all (\<lambda>c. c = 0x30 \<or> c = 0x2E \<or> c = 0x2D)
       (takeWhile (\<lambda>c. c \<noteq> 0x65 \<and> c \<noteq> 0x45) lexeme)"

definition jsTruthy :: "json option \<Rightarrow> bool" where
  "jsTruthy v \<longleftrightarrow>
     (case v of
        None \<Rightarrow> False
      | Some JNull \<Rightarrow> False
      | Some (JBool b) \<Rightarrow> b
      | Some (JNumber lexeme) \<Rightarrow> \<not> numberIsZero lexeme
      | Some (JString s) \<Rightarrow> s \<noteq> []
      | Some (JArray vs) \<Rightarrow> True
      | Some (JObject ms) \<Rightarrow> True)"

text \<open>
  The view keeps the parsed value as \<open>publicSessionData\<close> and renders its
  \<open>title\<close> and the \<open>role\<close> and \<open>text\<close> of its \<open>messages\<close>. \<open>Shared\<close> is a
  value of the declared type; a parsed value of another shape is \<open>Untyped\<close>, and
  what the view does with it is outside this model.
\<close>

datatype SharedView = NotShared | Shared jsstring "Message list" | Untyped

definition roleOf :: "jsstring \<Rightarrow> Role option" where
  "roleOf s = (if s = js ''user'' then Some User else if s = js ''model'' then Some Model else None)"

definition messageOf :: "json \<Rightarrow> Message option" where
  "messageOf v =
     (case (property ''role'' v, property ''text'' v) of
        (Some (JString r), Some (JString t)) \<Rightarrow>
          (case roleOf r of None \<Rightarrow> None | Some r' \<Rightarrow> Some \<lparr>role = r', msg_text = t\<rparr>)
      | _ \<Rightarrow> None)"

fun messagesOf :: "json list \<Rightarrow> Message list option" where
  "messagesOf [] = Some []"
| "messagesOf (v # vs) =
     (case messageOf v of
        None \<Rightarrow> None
      | Some m \<Rightarrow> (case messagesOf vs of None \<Rightarrow> None | Some ms \<Rightarrow> Some (m # ms)))"

definition typedView :: "json \<Rightarrow> SharedView" where
  "typedView v =
     (case (property ''title'' v, property ''messages'' v) of
        (Some (JString t), Some (JArray vs)) \<Rightarrow>
          (case messagesOf vs of None \<Rightarrow> Untyped | Some ms \<Rightarrow> Shared t ms)
      | _ \<Rightarrow> Untyped)"

text \<open>
  The effect of \<^verbatim>\<open>index.tsx\<close>: a view parameter that does not decode or parse, a
  parsed \<open>null\<close> (reading its \<open>title\<close> throws), a falsy \<open>title\<close> or
  \<open>messages\<close> that are not an array leave the normal application.
\<close>

definition shareViewEffect_idx :: "jsstring option \<Rightarrow> SharedView" where
  "shareViewEffect_idx viewData =
     (case viewData of
        None \<Rightarrow> NotShared
      | Some encoded \<Rightarrow>
          if encoded = [] then NotShared
          else
            (case atob encoded of
               None \<Rightarrow> NotShared
             | Some decodedData \<Rightarrow>
                 (case JSON_parse decodedData of
                    None \<Rightarrow> NotShared
                  | Some parsedData \<Rightarrow>
                      if parsedData = JNull then NotShared
                      else if jsTruthy (property ''title'' parsedData) \<and>
                              (case property ''messages'' parsedData of
                                 Some (JArray vs) \<Rightarrow> True | _ \<Rightarrow> False)
                      then typedView parsedData
                      else NotShared)))"

text \<open>
  The effect of \<^verbatim>\<open>part_000\<close> stores whatever parses; the component shows the
  shared view when the stored value is truthy.
\<close>

definition shareViewEffect :: "jsstring option \<Rightarrow> SharedView" where
  "shareViewEffect viewParam =
     (case viewParam of
        None \<Rightarrow> NotShared
      | Some encoded \<Rightarrow>
          if encoded = [] then NotShared
          else
            (case atob encoded of
               None \<Rightarrow> NotShared
             | Some decoded \<Rightarrow>
                 (case JSON_parse decoded of
                    None \<Rightarrow> NotShared
                  | Some decodedData \<Rightarrow>
                      if jsTruthy (Some decodedData) then typedView decodedData
                      else NotShared)))"

text \<open>
  The value \<open>JSON.parse\<close> is to return for the text of a message and of the shared
  data.
\<close>

definition jsonOfMessage :: "Message \<Rightarrow> json" where
  "jsonOfMessage m =
     JObject [(js ''role'', JString (roleName (role m))), (js ''text'', JString (msg_text m))]"

definition jsonOfShared :: "jsstring \<Rightarrow> Message list \<Rightarrow> json" where
  "jsonOfShared t ms =
     JObject [(js ''title'', JString t), (js ''messages'', JArray (map jsonOfMessage ms))]"

section \<open>API credential and chat initialisation\<close>

text \<open>
  \<open>apiKey\<close> is \<open>process.env.API_KEY\<close> (\<open>None\<close> when undefined). In
  \<^verbatim>\<open>part_000\<close> an effect with no dependencies, so run once when \<open>App\<close> mounts, sets
  \<open>isApiKeyMissing\<close>; the chat initialisation effect creates the chat instance only
  when the flag is clear, and sets the flag when the creation throws (\<open>created\<close>
  is false). The banner is rendered when the flag is set; the two \<open>disabled\<close>
  attributes are those of the text input and of the send button.
\<close>

definition apiKeyAbsent :: "jsstring option \<Rightarrow> bool" where
  "apiKeyAbsent apiKey \<longleftrightarrow> \<not> truthy apiKey \<or> apiKey = Some (js ''YOUR_API_KEY'')"

definition apiKeyCheckEffect :: "jsstring option \<Rightarrow> AppState \<Rightarrow> AppState" where
  "apiKeyCheckEffect apiKey st =
     (if apiKeyAbsent apiKey then st\<lparr>isApiKeyMissing := True\<rparr>
      else st\<lparr>isApiKeyMissing := False\<rparr>)"

definition chatInitEffect :: "bool \<Rightarrow> AppState \<Rightarrow> AppState" where
  "chatInitEffect created st =
     (if \<not> isApiKeyMissing st \<and> truthy (activeSessionId st) then
        (if created then st\<lparr>chat := True\<rparr> else st\<lparr>isApiKeyMissing := True\<rparr>)
      else st\<lparr>chat := False\<rparr>)"

definition initialSessionEffect :: "jsstring \<Rightarrow> AppState \<Rightarrow> AppState" where
  "initialSessionEffect uuid st =
     (if \<not> isGuest st \<and> sessions st \<noteq> [] \<and> \<not> truthy (activeSessionId st)
      then st\<lparr>activeSessionId := Some (session_id (hd (sessions st)))\<rparr>
      else if \<not> isGuest st \<and> sessions st = [] \<and> \<not> truthy (activeSessionId st)
      then handleNewChat True uuid st
      else st)"

definition inputDisabled :: "AppState \<Rightarrow> bool" where
  "inputDisabled st \<longleftrightarrow> isLoading st \<or> isApiKeyMissing st"

definition sendDisabled :: "AppState \<Rightarrow> bool" where
  "sendDisabled st \<longleftrightarrow> isLoading st \<or> trim (inputValue st) = [] \<or> isApiKeyMissing st"

text \<open>The remaining handlers of \<^verbatim>\<open>part_000\<close> that write state.\<close>

definition handleEditClick :: "StoredSession \<Rightarrow> AppState \<Rightarrow> AppState" where
  "handleEditClick session st =
     st\<lparr>editingSessionId := Some (session_id session), editingTitle := title session\<rparr>"

definition handleSaveSettings :: "AISettings \<Rightarrow> AppState \<Rightarrow> AppState" where
  "handleSaveSettings currentSettings st =
     (let st1 = st\<lparr>aiSettings := currentSettings\<rparr>
      in case activeSessionId st of
           None \<Rightarrow> st1
         | Some activeId \<Rightarrow>
             if activeId \<noteq> [] \<and> \<not> isGuest st
             then st1\<lparr>allUserSessions :=
                        updateSession activeId (user_id (currentUser st))
                          (noUpdates\<lparr>u_settings := Some currentSettings\<rparr>) (allUserSessions st)\<rparr>
             else st1)"

definition handleTogglePublic :: "AppState \<Rightarrow> AppState" where
  "handleTogglePublic st =
     (case activeSessionId st of
        None \<Rightarrow> st
      | Some activeId \<Rightarrow>
          if activeId \<noteq> [] \<and> \<not> isGuest st
          then st\<lparr>allUserSessions :=
                    updateSession activeId (user_id (currentUser st))
                      (noUpdates\<lparr>u_isPublic :=
                         Some (\<not> (case find (\<lambda>s. session_id s = activeId) (sessions st) of
                                      None \<Rightarrow> False | Some s \<Rightarrow> isPublic s))\<rparr>)
                      (allUserSessions st)\<rparr>
          else st)"

definition handleViewChat :: "UserProfile \<Rightarrow> jsstring \<Rightarrow> AppState \<Rightarrow> AppState" where
  "handleViewChat ownerProfile sessionId st =
     (loginUser ownerProfile st)\<lparr>activeSessionId := Some sessionId\<rparr>"

text \<open>
  The events of \<open>App\<close> after it has mounted: the user's actions, the settling of a
  completion request, and the effects that run again when their dependencies
  change. The API key check is not among them: its dependency list is empty.
\<close>

datatype Event =
    NewChat jsstring
  | SelectSession jsstring
  | Send
  | Settled SendCtx Completion
  | EditClick StoredSession
  | SetEditingTitle jsstring
  | TitleSave
  | TitleEscape
  | Delete jsstring bool jsstring
  | Archive jsstring jsstring
  | SaveSettings AISettings
  | TogglePublic
  | LoginRegister jsstring jsstring bool
  | LoginAs UserProfile
  | ViewChat UserProfile jsstring
  | Logout
  | UpdateProfile UserProfile
  | SetInput jsstring
  | ToggleShowArchived
  | SetLoginModal bool
  | ChatInit bool
  | InitialSession jsstring

fun step :: "(jsstring \<Rightarrow> jsstring) \<Rightarrow> Event \<Rightarrow> AppState \<Rightarrow> AppState" where
  "step lc (NewChat uuid) st = handleNewChat False uuid st"
| "step lc (SelectSession i) st = handleSelectSession i st"
| "step lc Send st = snd (handleSendMessage_begin st)"
| "step lc (Settled ctx outcome) st = handleSendMessage_resume ctx outcome st"
| "step lc (EditClick session) st = handleEditClick session st"
| "step lc (SetEditingTitle v) st = st\<lparr>editingTitle := v\<rparr>"
| "step lc TitleSave st = handleTitleSave st"
| "step lc TitleEscape st = st\<lparr>editingSessionId := None\<rparr>"
| "step lc (Delete sessionId confirmed uuid) st = handleDeleteSession sessionId confirmed uuid st"
| "step lc (Archive sessionId uuid) st = handleArchiveSession sessionId uuid st"
| "step lc (SaveSettings s) st = handleSaveSettings s st"
| "step lc TogglePublic st = handleTogglePublic st"
| "step lc (LoginRegister uuid tempUsername tempIsVerified) st =
     (case handleLoginRegister lc uuid tempUsername tempIsVerified st of
        Inl err \<Rightarrow> st | Inr st' \<Rightarrow> st')"
| "step lc (LoginAs profile) st = loginUser profile st"
| "step lc (ViewChat profile sessionId) st = handleViewChat profile sessionId st"
| "step lc Logout st = logoutUser st"
| "step lc (UpdateProfile profile) st = updateUserProfile profile st"
| "step lc (SetInput v) st = st\<lparr>inputValue := v\<rparr>"
| "step lc ToggleShowArchived st = st\<lparr>showArchivedSessions := \<not> showArchivedSessions st\<rparr>"
| "step lc (SetLoginModal b) st = st\<lparr>isLoginRegisterModalOpen := b\<rparr>"
| "step lc (ChatInit created) st = chatInitEffect created st"
| "step lc (InitialSession uuid) st = initialSessionEffect uuid st"

definition run :: "(jsstring \<Rightarrow> jsstring) \<Rightarrow> Event list \<Rightarrow> AppState \<Rightarrow> AppState" where
  "run lc events st = foldl (\<lambda>s e. step lc e s) st events"

text \<open>
  \<^verbatim>\<open>index.tsx\<close> has no flag. Its chat initialisation effect, which runs whenever
  the active session or the session list changes, reads the key itself: without a
  key it appends a notice to the active session unless a message with that text is
  there, and creates no chat instance. The send button is disabled only while
  loading or for a blank input.
\<close>

definition apiKeyNotice :: Message where
  "apiKeyNotice =
     \<lparr>role = Model,
      msg_text = js ''API Key is missing. Please ensure it's configured correctly.''\<rparr>"

definition chatInitEffect_idx :: "jsstring option \<Rightarrow> bool \<Rightarrow> AppState_idx \<Rightarrow> AppState_idx" where
  "chatInitEffect_idx apiKey created st =
     (case activeSessionId st of
        None \<Rightarrow> st
      | Some activeId \<Rightarrow>
          if activeId = [] \<or> publicSessionData st \<noteq> None then st
          else
            (case find (\<lambda>s. session_id s = activeId) (sessions_idx st) of
               None \<Rightarrow> st
             | Some activeSession \<Rightarrow>
                 if \<not> truthy apiKey then
                   st\<lparr>sessions_idx :=
                        map (\<lambda>s. if session_id s = activeId \<and>
                                     \<not> list_ex (\<lambda>m. msg_text m = msg_text apiKeyNotice) (messages s)
                                  then s\<lparr>messages := messages s @ [apiKeyNotice]\<rparr> else s)
                          (sessions_idx st)\<rparr>
                 else if created then st\<lparr>chat := True\<rparr> else st))"

definition sendDisabled_idx :: "AppState_idx \<Rightarrow> bool" where
  "sendDisabled_idx st \<longleftrightarrow> isLoading st \<or> trim (inputValue st) = []"

definition inputDisabled_idx :: "AppState_idx \<Rightarrow> bool" where
  "inputDisabled_idx st \<longleftrightarrow> isLoading st"

section \<open>Loading from local storage\<close>

text \<open>
  \<open>localStorage\<close> maps string keys to string values. The effects below return
  the new state, the new storage and the messages written with \<open>console.error\<close>.
  \<open>JSON.parse\<close> followed by the cast to the expected type is a parameter of each
  effect: it gives \<open>None\<close> where \<open>JSON.parse\<close> throws.
\<close>

type_synonym Storage = "(jsstring \<times> jsstring) list"

definition getItem :: "string \<Rightarrow> Storage \<Rightarrow> jsstring option" where
  "getItem key storage = map_of storage (js key)"

definition removeItem :: "string \<Rightarrow> Storage \<Rightarrow> Storage" where
  "removeItem key storage = AList.delete (js key) storage"

text \<open>
  The mount effect of \<open>UserProvider\<close> in \<^verbatim>\<open>part_000\<close>: one \<open>try\<close> block reads
  the roster, the consolidated sessions and the last active user; its \<open>catch\<close>
  removes all three keys. \<open>setCurrentUser(DEFAULT_GUEST_USER_PROFILE)\<close> follows
  unless the block returned early with the last active user.
\<close>

definition loadFailed :: "AppState \<Rightarrow> Storage \<Rightarrow> AppState \<times> Storage \<times> jsstring list" where
  "loadFailed st storage =
     (st\<lparr>currentUser := DEFAULT_GUEST_USER_PROFILE\<rparr>,
      removeItem ''allUserChatSessions''
        (removeItem ''lastActiveUserId'' (removeItem ''registeredUsers'' storage)),
      [js ''Failed to load user or session data from localStorage''])"

definition loadLastActive ::
  "UserProfile list \<Rightarrow> AppState \<Rightarrow> Storage \<Rightarrow> AppState \<times> Storage \<times> jsstring list" where
  "loadLastActive usersToSearch st storage =
     (case getItem ''lastActiveUserId'' storage of
        None \<Rightarrow> (st\<lparr>currentUser := DEFAULT_GUEST_USER_PROFILE\<rparr>, storage, [])
      | Some lastActiveUserId \<Rightarrow>
          if lastActiveUserId = [] then (st\<lparr>currentUser := DEFAULT_GUEST_USER_PROFILE\<rparr>, storage, [])
          else
            (case find (\<lambda>p. user_id p = lastActiveUserId) usersToSearch of
               Some activeProfile \<Rightarrow> (st\<lparr>currentUser := activeProfile\<rparr>, storage, [])
             | None \<Rightarrow> (st\<lparr>currentUser := DEFAULT_GUEST_USER_PROFILE\<rparr>, storage, [])))"

definition loadSessions ::
  "(jsstring \<Rightarrow> AllUserSessions option) \<Rightarrow> UserProfile list \<Rightarrow> AppState \<Rightarrow> Storage
     \<Rightarrow> AppState \<times> Storage \<times> jsstring list" where
  "loadSessions parseSessions usersToSearch st storage =
     (case getItem ''allUserChatSessions'' storage of
        None \<Rightarrow> loadLastActive usersToSearch st storage
      | Some savedAllUserSessions \<Rightarrow>
          if savedAllUserSessions = [] then loadLastActive usersToSearch st storage
          else
            (case parseSessions savedAllUserSessions of
               None \<Rightarrow> loadFailed st storage
             | Some parsedAllUserSessions \<Rightarrow>
                 loadLastActive usersToSearch (st\<lparr>allUserSessions := parsedAllUserSessions\<rparr>)
                   storage))"

definition loadEffect ::
  "(jsstring \<Rightarrow> UserProfile list option) \<Rightarrow> (jsstring \<Rightarrow> AllUserSessions option) \<Rightarrow>
     AppState \<Rightarrow> Storage \<Rightarrow> AppState \<times> Storage \<times> jsstring list" where
  "loadEffect parseUsers parseSessions st storage =
     (case getItem ''registeredUsers'' storage of
        None \<Rightarrow> loadSessions parseSessions [] st storage
      | Some savedRegisteredUsers \<Rightarrow>
          if savedRegisteredUsers = [] then loadSessions parseSessions [] st storage
          else
            (case parseUsers savedRegisteredUsers of
               None \<Rightarrow> loadFailed st storage
             | Some parsedRegisteredUsers \<Rightarrow>
                 loadSessions parseSessions parsedRegisteredUsers
                   (st\<lparr>registeredUsers := parsedRegisteredUsers\<rparr>) storage))"

text \<open>A key holds a malformed value when it has a non-empty value that does not parse.\<close>

definition malformed :: "(jsstring \<Rightarrow> 'a option) \<Rightarrow> string \<Rightarrow> Storage \<Rightarrow> bool" where
  "malformed parse key storage \<longleftrightarrow>
     (case getItem key storage of None \<Rightarrow> False | Some v \<Rightarrow> v \<noteq> [] \<and> parse v = None)"

text \<open>
  \<^verbatim>\<open>index.tsx\<close>: the mount effect of \<open>UserProvider\<close> reads the roster and, inside
  the same branch, the last active user; its \<open>catch\<close> removes these two keys.
\<close>

definition loadUsers_idx ::
  "(jsstring \<Rightarrow> UserProfile list option) \<Rightarrow> 'a AppCore_scheme \<Rightarrow> Storage
     \<Rightarrow> 'a AppCore_scheme \<times> Storage \<times> jsstring list" where
  "loadUsers_idx parseUsers st storage =
     (let guest = (st\<lparr>currentUser := DEFAULT_GUEST_USER_PROFILE\<rparr>, storage, [])
      in case getItem ''registeredUsers'' storage of
           None \<Rightarrow> guest
         | Some savedRegisteredUsers \<Rightarrow>
             if savedRegisteredUsers = [] then guest
             else
               (case parseUsers savedRegisteredUsers of
                  None \<Rightarrow>
                    (st\<lparr>currentUser := DEFAULT_GUEST_USER_PROFILE\<rparr>,
                     removeItem ''lastActiveUserId'' (removeItem ''registeredUsers'' storage),
                     [js ''Failed to load user data from localStorage''])
                | Some parsedRegisteredUsers \<Rightarrow>
                    (let st1 = st\<lparr>registeredUsers := parsedRegisteredUsers\<rparr>;
                         guest1 = (st1\<lparr>currentUser := DEFAULT_GUEST_USER_PROFILE\<rparr>, storage, [])
                     in case getItem ''lastActiveUserId'' storage of
                          None \<Rightarrow> guest1
                        | Some lastActiveUserId \<Rightarrow>
                            if lastActiveUserId = [] then guest1
                            else
                              (case find (\<lambda>p. user_id p = lastActiveUserId)
                                      parsedRegisteredUsers of
                                 Some activeProfile \<Rightarrow>
                                   (st1\<lparr>currentUser := activeProfile\<rparr>, storage, [])
                               | None \<Rightarrow> guest1))))"

text \<open>
  \<^verbatim>\<open>index.tsx\<close>: the effect of \<open>App\<close> that loads the settings and then the
  sessions of the current user, each in a \<open>try\<close> block of its own. The settings
  \<open>catch\<close> only logs; the sessions \<open>catch\<close> removes the sessions key. A parsed
  settings object is the function that overrides the defaults
  (\<open>{ ...DEFAULT_AI_SETTINGS, ...parsedSettings }\<close>); the parsed sessions are those
  after the migration \<open>map\<close>. When no session is loaded the effect calls
  \<open>handleNewChat(true)\<close>, which closes over the state of the render that scheduled
  the effect (\<open>rendered\<close>): the new session gets the settings of that render.
\<close>

definition sessionsKey :: "AppState_idx \<Rightarrow> jsstring" where
  "sessionsKey st = js ''chatSessions_'' @ user_id (currentUser st)"

definition loadSettings_idx ::
  "(jsstring \<Rightarrow> (AISettings \<Rightarrow> AISettings) option) \<Rightarrow> AppState_idx \<Rightarrow> Storage
     \<Rightarrow> AppState_idx \<times> jsstring list" where
  "loadSettings_idx parseSettings st storage =
     (case getItem ''aiSettings'' storage of
        None \<Rightarrow> (st, [])
      | Some savedSettings \<Rightarrow>
          if savedSettings = [] then (st, [])
          else
            (case parseSettings savedSettings of
               None \<Rightarrow> (st, [js ''Failed to load AI settings from localStorage''])
             | Some parsedSettings \<Rightarrow>
                 (st\<lparr>aiSettings := parsedSettings DEFAULT_AI_SETTINGS\<rparr>, [])))"

definition loadSessions_idx ::
  "(jsstring \<Rightarrow> SessionCore list option) \<Rightarrow> jsstring \<Rightarrow> AppState_idx \<Rightarrow> AppState_idx
     \<Rightarrow> Storage \<Rightarrow> AppState_idx \<times> Storage \<times> jsstring list" where
  "loadSessions_idx parseSessions now rendered st storage =
     (let fresh = st\<lparr>sessions_idx := [newSession_idx now rendered],
                      activeSessionId := Some (session_id (newSession_idx now rendered))\<rparr>
      in case map_of storage (sessionsKey rendered) of
           None \<Rightarrow> (fresh, storage, [])
         | Some savedSessions \<Rightarrow>
             if savedSessions = [] then (fresh, storage, [])
             else
               (case parseSessions savedSessions of
                  None \<Rightarrow>
                    (fresh, AList.delete (sessionsKey rendered) storage,
                     [js ''Failed to load sessions from localStorage''])
                | Some migratedSessions \<Rightarrow>
                    (case migratedSessions of
                       [] \<Rightarrow> (fresh, storage, [])
                     | first # rest \<Rightarrow>
                         (let firstActive =
                                (case find (\<lambda>s. \<not> isArchived s) migratedSessions of
                                   Some s \<Rightarrow> s | None \<Rightarrow> first)
                          in (st\<lparr>sessions_idx := migratedSessions,
                                  activeSessionId := Some (session_id firstActive)\<rparr>,
                              storage, [])))))"

definition loadSettingsAndSessions_idx ::
  "(jsstring \<Rightarrow> (AISettings \<Rightarrow> AISettings) option) \<Rightarrow> (jsstring \<Rightarrow> SessionCore list option) \<Rightarrow>
     jsstring \<Rightarrow> AppState_idx \<Rightarrow> Storage \<Rightarrow> AppState_idx \<times> Storage \<times> jsstring list" where
  "loadSettingsAndSessions_idx parseSettings parseSessions now st storage =
     (case loadSettings_idx parseSettings st storage of
        (st1, log1) \<Rightarrow>
          (case loadSessions_idx parseSessions now st st1 storage of
             (st2, storage2, log2) \<Rightarrow> (st2, storage2, log1 @ log2)))"

section \<open>Example states\<close>

text \<open>
  Concrete users, sessions and states, for the closed instances of the theorems.
  \<open>asciiLower\<close> is \<open>toLowerCase\<close> on ASCII strings.
\<close>

definition ada :: UserProfile where
  "ada = \<lparr>user_id = js ''u1'', username = js ''ada'', isVerified = False,
           profilePicture = None\<rparr>"

definition chatOf :: "string \<Rightarrow> string \<Rightarrow> bool \<Rightarrow> Message list \<Rightarrow> StoredSession" where
  "chatOf i t archived ms =
     \<lparr>session_id = js i, title = js t, messages = ms, settings = DEFAULT_AI_SETTINGS,
      isPublic = False, isArchived = archived, ownerId = js ''u1''\<rparr>"

definition chatOf_idx :: "string \<Rightarrow> string \<Rightarrow> bool \<Rightarrow> Message list \<Rightarrow> SessionCore" where
  "chatOf_idx i t archived ms =
     \<lparr>session_id = js i, title = js t, messages = ms, settings = DEFAULT_AI_SETTINGS,
      isPublic = False, isArchived = archived\<rparr>"

definition appOf :: "StoredSession list \<Rightarrow> string \<Rightarrow> AppState" where
  "appOf ss active =
     \<lparr>currentUser = ada, registeredUsers = [ada], activeSessionId = Some (js active),
      chat = True, inputValue = [], isLoading = False, editingSessionId = None,
      editingTitle = [], showArchivedSessions = False, isLoginRegisterModalOpen = False,
      aiSettings = DEFAULT_AI_SETTINGS, publicSessionData = None,
      allUserSessions = [(js ''u1'', ss)], isApiKeyMissing = False\<rparr>"

definition appOf_idx :: "SessionCore list \<Rightarrow> string \<Rightarrow> AppState_idx" where
  "appOf_idx ss active =
     \<lparr>currentUser = ada, registeredUsers = [ada], activeSessionId = Some (js active),
      chat = True, inputValue = [], isLoading = False, editingSessionId = None,
      editingTitle = [], showArchivedSessions = False, isLoginRegisterModalOpen = False,
      aiSettings = DEFAULT_AI_SETTINGS, publicSessionData = None, sessions_idx = ss\<rparr>"

definition asciiLower :: "jsstring \<Rightarrow> jsstring" where
  "asciiLower s = map (\<lambda>c. if 0x41 \<le> c \<and> c \<le> 0x5A then c + 0x20 else c) s"

text \<open>
  Stand-ins for \<open>JSON.parse\<close> on the stored roster and sessions, and a storage whose
  roster does not parse while its sessions do. \<open>sessionsJson\<close> is the text
  \<^verbatim>\<open>{"u1":[]}\<close>.
\<close>

definition sessionsJson :: jsstring where
  "sessionsJson = js ''{'' @ [0x22] @ js ''u1'' @ [0x22] @ js '':[]}''"

definition usersParser :: "jsstring \<Rightarrow> UserProfile list option" where
  "usersParser s = (if s = js ''[]'' then Some [] else None)"

definition sessionsParser :: "jsstring \<Rightarrow> AllUserSessions option" where
  "sessionsParser s = (if s = sessionsJson then Some [(js ''u1'', [])] else None)"

definition corruptStorage :: Storage where
  "corruptStorage =
     [(js ''registeredUsers'', js ''[{''), (js ''allUserChatSessions'', sessionsJson)]"

definition goodStorage :: Storage where
  "goodStorage = [(js ''registeredUsers'', js ''[]''), (js ''allUserChatSessions'', sessionsJson)]"


section \<open>Lemmas\<close>


lemma sessionsOf_update:
  "sessionsOf (AList.update k v st) k' = (if k' = k then v else sessionsOf st k')"
  by (simp add: sessionsOf_def update_conv')

lemma sessionsOf_ids_in_allIds:
  "s \<in> set (sessionsOf st k) \<Longrightarrow> session_id s \<in> set (allIds st)"
proof -
  assume a: "s \<in> set (sessionsOf st k)"
  then obtain ss where m: "map_of st k = Some ss" and s: "s \<in> set ss"
    by (cases "map_of st k") (auto simp: sessionsOf_def)
  from m have "(k, ss) \<in> set st" by (rule map_of_SomeD)
  with s show ?thesis by (force simp: allIds_def)
qed


lemma spread_keeps:
  "u_session_id u = None \<Longrightarrow> u_ownerId u = None \<Longrightarrow>
   session_id (spread s u) = session_id s \<and> ownerId (spread s u) = ownerId s"
  by (simp add: spread_def)

lemma partitioned_add:
  assumes "partitioned st" "session_id s \<notin> set (allIds st)"
  shows "partitioned (addSession s st)"
  using assms
  unfolding partitioned_def ownedByKey_def disjointIds_def addSession_def Let_def
  by (auto simp: sessionsOf_update list_all_iff dest: sessionsOf_ids_in_allIds)

lemma partitioned_update:
  assumes "partitioned st" "u_session_id u = None" "u_ownerId u = None"
  shows "partitioned (updateSession sessionId userId u st)"
  using assms
  unfolding partitioned_def ownedByKey_def disjointIds_def updateSession_def Let_def
  by (auto simp: sessionsOf_update list_all_iff spread_keeps)

lemma partitioned_delete:
  assumes "partitioned st"
  shows "partitioned (deleteSession sessionId userId st)"
  using assms
  unfolding partitioned_def ownedByKey_def disjointIds_def deleteSession_def Let_def
  by (auto simp: sessionsOf_update list_all_iff)

lemma partitioned_archive:
  assumes "partitioned st"
  shows "partitioned (archiveSession sessionId userId rendered st)"
  unfolding archiveSession_def
  by (rule partitioned_update[OF assms]) (simp_all add: noUpdates_def)

lemma partitioned_empty: "partitioned []"
  by (simp add: partitioned_def ownedByKey_def disjointIds_def sessionsOf_def)


lemma find_map_stable:
  assumes "\<And>x. P (f x) = P x"
  shows "find P (map f xs) = map_option f (find P xs)"
  using assms by (induction xs) simp_all

lemma find_Some_D: "find P xs = Some x \<Longrightarrow> P x \<and> x \<in> set xs"
  by (induction xs) (auto split: if_splits)

lemma trim_split:
  "\<exists>pre post. t = pre @ trim t @ post \<and> list_all isWhiteSpace pre \<and> list_all isWhiteSpace post"
proof -
  define u where "u = dropWhile isWhiteSpace t"
  have t: "t = takeWhile isWhiteSpace t @ u" by (simp add: u_def)
  have "rev (dropWhile isWhiteSpace (rev u)) @ rev (takeWhile isWhiteSpace (rev u)) = u"
    by (metis rev_append rev_rev_ident takeWhile_dropWhile_id)
  then have u: "u = trim t @ rev (takeWhile isWhiteSpace (rev u))"
    unfolding trim_def u_def by simp
  have p1: "list_all isWhiteSpace (takeWhile isWhiteSpace t)"
    by (simp add: list_all_iff) (meson set_takeWhileD)
  have p2: "list_all isWhiteSpace (rev (takeWhile isWhiteSpace (rev u)))"
    by (simp add: list_all_iff) (meson set_takeWhileD)
  from t u have "t = takeWhile isWhiteSpace t @ trim t @ rev (takeWhile isWhiteSpace (rev u))"
    by simp
  with p1 p2 show ?thesis by blast
qed

lemma trim_empty_iff: "trim t = [] \<longleftrightarrow> list_all isWhiteSpace t"
proof
  assume "trim t = []"
  with trim_split[of t] show "list_all isWhiteSpace t"
    by (metis append_Nil list_all_append)
next
  assume "list_all isWhiteSpace t"
  then have d: "dropWhile isWhiteSpace t = []"
    unfolding list_all_iff by (metis dropWhile_eq_Nil_conv)
  show "trim t = []" unfolding trim_def by (simp only: d rev.simps dropWhile.simps)
qed

lemma trim_ends:
  assumes "trim t \<noteq> []"
  shows "\<not> isWhiteSpace (hd (trim t)) \<and> \<not> isWhiteSpace (last (trim t))"
proof -
  define u where "u = dropWhile isWhiteSpace t"
  define w where "w = dropWhile isWhiteSpace (rev u)"
  have tw: "trim t = rev w" by (simp add: trim_def u_def w_def)
  with assms have wne: "w \<noteq> []" by simp
  then have hw: "\<not> isWhiteSpace (hd w)" unfolding w_def by (rule hd_dropWhile)
  have l: "last (trim t) = hd w" using wne by (simp add: tw last_rev)
  have ueq: "u = rev w @ rev (takeWhile isWhiteSpace (rev u))"
    unfolding w_def by (metis rev_append rev_rev_ident takeWhile_dropWhile_id)
  with wne have une: "u \<noteq> []" by auto
  then have hu: "\<not> isWhiteSpace (hd u)" unfolding u_def by (rule hd_dropWhile)
  from ueq wne have "hd u = hd (rev w)" by (metis hd_append2 rev_is_Nil_conv)
  with hu tw have "\<not> isWhiteSpace (hd (trim t))" by simp
  with hw l show ?thesis by simp
qed

lemma untitled_not_blank: "\<not> list_all isWhiteSpace (js ''Untitled Chat'')"
  by (simp add: js_def isWhiteSpace_def)

lemma spread_title: "spread s (noUpdates\<lparr>u_title := Some t\<rparr>) = s\<lparr>title := t\<rparr>"
  by (simp add: spread_def noUpdates_def)


lemma spread_ids:
  "u_session_id u = None \<Longrightarrow> session_id (spread s u) = session_id s"
  by (simp add: spread_def)

lemma find_update_sessions:
  assumes "u_session_id u = None" "find (\<lambda>s. session_id s = a) ss = Some x"
  shows "find (\<lambda>s. session_id s = a) (map (\<lambda>s. if session_id s = a then spread s u else s) ss)
         = Some (spread x u)"
proof -
  have "find (\<lambda>s. session_id s = a) (map (\<lambda>s. if session_id s = a then spread s u else s) ss)
        = map_option (\<lambda>s. if session_id s = a then spread s u else s) (find (\<lambda>s. session_id s = a) ss)"
    by (rule find_map_stable) (simp add: spread_ids[OF assms(1)])
  with assms(2) find_Some_D[OF assms(2)] show ?thesis by simp
qed

lemma activeSessionOf_alt:
  "activeSessionId st = Some a \<Longrightarrow>
   activeSessionOf st = find (\<lambda>s. session_id s = a) (sessions st)"
  by (simp add: activeSessionOf_def)

lemma autoTitle_spec:
  "autoTitle v = (if length v \<le> 30 then v else take 30 v @ js ''...'')"
  by (simp add: autoTitle_def)

lemma begin_Some_D:
  assumes "handleSendMessage_begin st = (Some ctx, st')"
  shows "\<exists>a s. activeSessionId st = Some a \<and> find (\<lambda>s. session_id s = a) (sessions st) = Some s \<and>
     ctx = \<lparr>ctx_sessionId = a, ctx_userId = user_id (currentUser st), ctx_message = inputValue st,
            ctx_messagesAfterUserMessage = messages s @ [\<lparr>role = User, msg_text = inputValue st\<rparr>]\<rparr> \<and>
     st' = st\<lparr>isLoading := True, inputValue := [],
              allUserSessions := updateSession a (user_id (currentUser st))
                (noUpdates\<lparr>u_messages := Some (messages s @ [\<lparr>role = User, msg_text = inputValue st\<rparr>]),
                   u_title := Some (if filter (\<lambda>m. role m = User) (messages s) = []
                                    then autoTitle (inputValue st) else title s)\<rparr>)
                (allUserSessions st)\<rparr>"
  using assms
  by (auto simp: handleSendMessage_begin_def Let_def split: if_splits option.splits)

lemma no_user_iff: "(filter (\<lambda>m. role m = User) ms = []) = (\<not> list_ex (\<lambda>m. role m = User) ms)"
  by (simp add: filter_empty_conv list_ex_iff)

lemma spread_after_send:
  "title (spread s (noUpdates\<lparr>u_messages := Some ms, u_title := Some t\<rparr>)) = t \<and>
   messages (spread s (noUpdates\<lparr>u_messages := Some ms, u_title := Some t\<rparr>)) = ms \<and>
   session_id (spread s (noUpdates\<lparr>u_messages := Some ms, u_title := Some t\<rparr>)) = session_id s"
  by (simp add: spread_def noUpdates_def)


lemma sessions_updateSession:
  "sessions (st\<lparr>allUserSessions := updateSession a (user_id (currentUser st)) u (allUserSessions st)\<rparr>)
   = map (\<lambda>s. if session_id s = a then spread s u else s) (sessions st)"
  by (simp add: sessions_def updateSession_def sessionsOf_update)

lemma begin_active:
  assumes "handleSendMessage_begin st = (Some ctx, st')"
  shows "\<exists>a s. activeSessionId st = Some a \<and> activeSessionOf st = Some s \<and>
     ctx_sessionId ctx = a \<and> ctx_userId ctx = user_id (currentUser st) \<and>
     ctx_messagesAfterUserMessage ctx = messages s @ [\<lparr>role = User, msg_text = inputValue st\<rparr>] \<and>
     activeSessionId st' = Some a \<and> currentUser st' = currentUser st \<and>
     sessions st' = map (\<lambda>x. if session_id x = a then
        spread x (noUpdates\<lparr>u_messages := Some (messages s @ [\<lparr>role = User, msg_text = inputValue st\<rparr>]),
                   u_title := Some (if list_ex (\<lambda>m. role m = User) (messages s) then title s
                                    else autoTitle (inputValue st))\<rparr>) else x) (sessions st)"
proof -
  from begin_Some_D[OF assms] obtain a s where
    a: "activeSessionId st = Some a" and f: "find (\<lambda>s. session_id s = a) (sessions st) = Some s"
    and c: "ctx = \<lparr>ctx_sessionId = a, ctx_userId = user_id (currentUser st), ctx_message = inputValue st,
            ctx_messagesAfterUserMessage = messages s @ [\<lparr>role = User, msg_text = inputValue st\<rparr>]\<rparr>"
    and s': "st' = st\<lparr>isLoading := True, inputValue := [],
              allUserSessions := updateSession a (user_id (currentUser st))
                (noUpdates\<lparr>u_messages := Some (messages s @ [\<lparr>role = User, msg_text = inputValue st\<rparr>]),
                   u_title := Some (if filter (\<lambda>m. role m = User) (messages s) = []
                                    then autoTitle (inputValue st) else title s)\<rparr>)
                (allUserSessions st)\<rparr>"
    by blast
  have ss: "sessions st' = map (\<lambda>x. if session_id x = a then
        spread x (noUpdates\<lparr>u_messages := Some (messages s @ [\<lparr>role = User, msg_text = inputValue st\<rparr>]),
                   u_title := Some (if list_ex (\<lambda>m. role m = User) (messages s) then title s
                                    else autoTitle (inputValue st))\<rparr>) else x) (sessions st)"
    unfolding s' by (simp add: sessions_def updateSession_def sessionsOf_update no_user_iff)
  from a f c s' ss show ?thesis
    by (simp add: activeSessionOf_alt)
qed


lemma find_replace_const:
  assumes "P c" "find P xs = Some x"
  shows "find P (map (\<lambda>s. if P s then c else s) xs) = Some c"
  using assms by (induction xs) (auto split: if_splits)


lemma activeSessionOf_idx_alt:
  "activeSessionId sti = Some a \<Longrightarrow>
   activeSessionOf_idx sti = find (\<lambda>s. session_id s = a) (sessions_idx sti)"
  by (simp add: activeSessionOf_idx_def)

lemma begin_idx_active:
  assumes "handleSendMessage_begin_idx sti = (Some a, sti')" "activeSessionOf_idx sti = Some x"
  shows "activeSessionId sti = Some a \<and> activeSessionId sti' = Some a \<and>
     activeSessionOf_idx sti' =
       Some (x\<lparr>messages := messages x @ [\<lparr>role = User, msg_text = inputValue sti\<rparr>],
               title := (if list_ex (\<lambda>m. role m = User) (messages x) then title x
                         else autoTitle (inputValue sti))\<rparr>)"
proof -
  from assms(1) have a: "activeSessionId sti = Some a"
    by (auto simp: handleSendMessage_begin_idx_def Let_def split: if_splits option.splits)
  with assms(2) have f: "find (\<lambda>s. session_id s = a) (sessions_idx sti) = Some x"
    by (simp add: activeSessionOf_idx_alt)
  then have ix: "session_id x = a" using find_Some_D by fastforce
  from assms(1) a f have s': "sti' = sti\<lparr>isLoading := True, inputValue := [],
      sessions_idx := map (\<lambda>s. if session_id s = a then
          x\<lparr>messages := messages x @ [\<lparr>role = User, msg_text = inputValue sti\<rparr>],
            title := (if list_ex (\<lambda>m. role m = User) (messages x) then title x
                      else autoTitle (inputValue sti))\<rparr> else s) (sessions_idx sti)\<rparr>"
    by (auto simp: handleSendMessage_begin_idx_def Let_def no_user_iff split: if_splits)
  have a': "activeSessionId sti' = Some a" unfolding s' using a by simp
  have "activeSessionOf_idx sti' =
       Some (x\<lparr>messages := messages x @ [\<lparr>role = User, msg_text = inputValue sti\<rparr>],
               title := (if list_ex (\<lambda>m. role m = User) (messages x) then title x
                         else autoTitle (inputValue sti))\<rparr>)"
    unfolding activeSessionOf_idx_alt[OF a']
    unfolding s' using find_replace_const[where P="\<lambda>s. session_id s = a", OF _ f] ix
    by simp
  with a a' show ?thesis by simp
qed

lemma send_title_idx:
  "handleSendMessage_begin_idx sti = (Some a, sti') \<and> activeSessionOf_idx sti = Some si \<longrightarrow>
      (\<exists>si'. activeSessionOf_idx sti' = Some si' \<and>
         title si' = (if list_ex (\<lambda>m. role m = User) (messages si) then title si
                     else if length (inputValue sti) \<le> 30 then inputValue sti
                     else take 30 (inputValue sti) @ js ''...''))"
proof (intro impI, elim conjE)
  assume b: "handleSendMessage_begin_idx sti = (Some a, sti')" and x: "activeSessionOf_idx sti = Some si"
  from begin_idx_active[OF b x] show "\<exists>si'. activeSessionOf_idx sti' = Some si' \<and>
         title si' = (if list_ex (\<lambda>m. role m = User) (messages si) then title si
                     else if length (inputValue sti) \<le> 30 then inputValue sti
                     else take 30 (inputValue sti) @ js ''...'')"
    by (simp add: autoTitle_spec)
qed




lemma find_in_set: "x \<in> set xs \<Longrightarrow> P x \<Longrightarrow> find P xs \<noteq> None"
  by (induction xs) auto

lemma sessions_deleteSession:
  "sessions (st\<lparr>allUserSessions := deleteSession a (user_id (currentUser st)) (allUserSessions st)\<rparr>)
   = filter (\<lambda>s. session_id s \<noteq> a) (sessions st)"
  by (simp add: sessions_def deleteSession_def sessionsOf_update)

lemma sessions_addSession:
  "ownerId n = user_id (currentUser st) \<Longrightarrow>
   sessions (st\<lparr>allUserSessions := addSession n (allUserSessions st)\<rparr>) = sessions st @ [n]"
  by (simp add: sessions_def addSession_def sessionsOf_update)


lemma handleNewChat_forced:
  "sessions (handleNewChat True uuid st) = sessions st @ [newSession uuid st] \<and>
   activeSessionId (handleNewChat True uuid st) = Some uuid \<and>
   currentUser (handleNewChat True uuid st) = currentUser st"
  by (simp add: handleNewChat_def Let_def sessions_def addSession_def sessionsOf_update newSession_def)

lemma delete_active_main:
  assumes "activeSessionId st = Some sid"
  shows "(case filter (\<lambda>s. session_id s \<noteq> sid) (sessions st) of
            first # rest \<Rightarrow>
              activeSessionId (handleDeleteSession sid True uuid st) = Some (session_id first) \<and>
              sessions (handleDeleteSession sid True uuid st) = first # rest
          | [] \<Rightarrow>
              activeSessionId (handleDeleteSession sid True uuid st) = Some uuid \<and>
              sessions (handleDeleteSession sid True uuid st) = [newSession uuid st]) \<and>
         activeSessionOf (handleDeleteSession sid True uuid st) \<noteq> None"
proof (cases "filter (\<lambda>s. session_id s \<noteq> sid) (sessions st)")
  case Nil
  let ?st1 = "st\<lparr>allUserSessions := deleteSession sid (user_id (currentUser st)) (allUserSessions st)\<rparr>"
  have h: "handleDeleteSession sid True uuid st = handleNewChat True uuid ?st1"
    using assms Nil by (simp add: handleDeleteSession_def Let_def)
  have s1: "sessions ?st1 = []" using Nil by (simp add: sessions_deleteSession)
  have n: "newSession uuid ?st1 = newSession uuid st" by (simp add: newSession_def)
  from handleNewChat_forced[of uuid ?st1] s1 n
  have r: "sessions (handleDeleteSession sid True uuid st) = [newSession uuid st]"
    and a: "activeSessionId (handleDeleteSession sid True uuid st) = Some uuid"
    unfolding h by simp_all
  have "activeSessionOf (handleDeleteSession sid True uuid st) \<noteq> None"
    unfolding activeSessionOf_alt[OF a] r by (simp add: newSession_def)
  with Nil r a show ?thesis by simp
next
  case (Cons first rest)
  let ?st1 = "st\<lparr>allUserSessions := deleteSession sid (user_id (currentUser st)) (allUserSessions st)\<rparr>"
  have h: "handleDeleteSession sid True uuid st = ?st1\<lparr>activeSessionId := Some (session_id first)\<rparr>"
    using assms Cons by (simp add: handleDeleteSession_def Let_def)
  have r: "sessions (handleDeleteSession sid True uuid st) = first # rest"
    unfolding h using Cons sessions_deleteSession[where st=st and a=sid] by (simp add: sessions_def)
  have a: "activeSessionId (handleDeleteSession sid True uuid st) = Some (session_id first)"
    unfolding h by simp
  have "activeSessionOf (handleDeleteSession sid True uuid st) \<noteq> None"
    unfolding activeSessionOf_alt[OF a] r by simp
  with Cons r a show ?thesis by simp
qed

lemma delete_active_idx:
  assumes "activeSessionId sti = Some sid"
    "filter (\<lambda>s. session_id s \<noteq> sid) (sessions_idx sti) = first # rest"
  shows "\<exists>sti'. handleDeleteSession_idx sid True sti = Some sti' \<and>
           activeSessionId sti' = Some (session_id first) \<and>
           sessions_idx sti' = first # rest \<and> activeSessionOf_idx sti' \<noteq> None"
  using assms by (simp add: handleDeleteSession_idx_def Let_def activeSessionOf_idx_def)

lemma sessions_archiveSession:
  "sessions (st\<lparr>allUserSessions := archiveSession a (user_id (currentUser st)) r (allUserSessions st)\<rparr>)
   = map (\<lambda>s. if session_id s = a then spread s (noUpdates\<lparr>u_isArchived :=
          Some (\<not> (case map_of r (user_id (currentUser st)) of
                      None \<Rightarrow> False
                    | Some ss \<Rightarrow>
                        (case find (\<lambda>s. session_id s = a) ss of
                           None \<Rightarrow> False
                         | Some s \<Rightarrow> isArchived s)))\<rparr>) else s) (sessions st)"
  by (simp add: sessions_def archiveSession_def updateSession_def sessionsOf_update)

lemma find_map_keep_id:
  assumes "\<And>x. session_id (f x) = session_id x" "x \<in> set xs" "session_id x = a"
  shows "find (\<lambda>s. session_id s = a) (map f xs) \<noteq> None"
  using assms by (intro find_in_set[of "f x"]) auto

lemma archive_active_main:
  assumes "activeSessionId st = Some sid" "\<not> showArchivedSessions st"
  shows "(case filter (\<lambda>s. session_id s \<noteq> sid \<and> \<not> isArchived s) (sessions st) of
            first # rest \<Rightarrow>
              activeSessionId (handleArchiveSession sid uuid st) = Some (session_id first)
          | [] \<Rightarrow>
              activeSessionId (handleArchiveSession sid uuid st) = Some uuid \<and>
              last (sessions (handleArchiveSession sid uuid st)) = newSession uuid st \<and>
              length (sessions (handleArchiveSession sid uuid st)) = Suc (length (sessions st))) \<and>
         activeSessionOf (handleArchiveSession sid uuid st) \<noteq> None"
proof (cases "filter (\<lambda>s. session_id s \<noteq> sid \<and> \<not> isArchived s) (sessions st)")
  case Nil
  let ?st1 = "st\<lparr>allUserSessions := archiveSession sid (user_id (currentUser st)) (allUserSessions st) (allUserSessions st)\<rparr>"
  have h: "handleArchiveSession sid uuid st = handleNewChat True uuid ?st1"
    using assms Nil by (simp add: handleArchiveSession_def Let_def)
  have n: "newSession uuid ?st1 = newSession uuid st" by (simp add: newSession_def)
  from handleNewChat_forced[of uuid ?st1] n
  have r: "sessions (handleArchiveSession sid uuid st) = sessions ?st1 @ [newSession uuid st]"
    and a: "activeSessionId (handleArchiveSession sid uuid st) = Some uuid"
    unfolding h by simp_all
  have l: "length (sessions ?st1) = length (sessions st)"
    by (simp add: sessions_archiveSession)
  have "find (\<lambda>s. session_id s = uuid) (sessions ?st1 @ [newSession uuid st]) \<noteq> None"
    by (rule find_in_set[of "newSession uuid st"]) (simp_all add: newSession_def)
  then have "activeSessionOf (handleArchiveSession sid uuid st) \<noteq> None"
    unfolding activeSessionOf_alt[OF a] r .
  with Nil r a l show ?thesis by simp
next
  case (Cons first rest)
  let ?st1 = "st\<lparr>allUserSessions := archiveSession sid (user_id (currentUser st)) (allUserSessions st) (allUserSessions st)\<rparr>"
  have h: "handleArchiveSession sid uuid st = ?st1\<lparr>activeSessionId := Some (session_id first)\<rparr>"
    using assms Cons by (simp add: handleArchiveSession_def Let_def)
  have a: "activeSessionId (handleArchiveSession sid uuid st) = Some (session_id first)"
    unfolding h by simp
  have "first \<in> set (filter (\<lambda>s. session_id s \<noteq> sid \<and> \<not> isArchived s) (sessions st))"
    unfolding Cons by simp
  then have fin: "first \<in> set (sessions st)" by simp
  have ss: "sessions (handleArchiveSession sid uuid st) = sessions ?st1"
    unfolding h by (simp add: sessions_def)
  have "find (\<lambda>s. session_id s = session_id first) (sessions ?st1) \<noteq> None"
    unfolding sessions_archiveSession
    by (rule find_map_keep_id[OF _ fin]) (simp_all add: spread_def noUpdates_def)
  then have "activeSessionOf (handleArchiveSession sid uuid st) \<noteq> None"
    unfolding activeSessionOf_alt[OF a] ss .
  with Cons a show ?thesis by simp
qed


lemma archive_active_idx:
  assumes "activeSessionId sti = Some sid" "\<not> showArchivedSessions sti"
  shows "(case filter (\<lambda>s. session_id s \<noteq> sid \<and> \<not> isArchived s) (sessions_idx sti) of
            first # rest \<Rightarrow>
              activeSessionId (handleArchiveSession_idx sid now sti) = Some (session_id first)
          | [] \<Rightarrow>
              activeSessionId (handleArchiveSession_idx sid now sti) = Some now \<and>
              sessions_idx (handleArchiveSession_idx sid now sti) = [newSession_idx now sti]) \<and>
         activeSessionOf_idx (handleArchiveSession_idx sid now sti) \<noteq> None"
proof (cases "filter (\<lambda>s. session_id s \<noteq> sid \<and> \<not> isArchived s) (sessions_idx sti)")
  case Nil
  with assms show ?thesis
    by (simp add: handleArchiveSession_idx_def handleNewChat_idx_def Let_def
        activeSessionOf_idx_def newSession_idx_def)
next
  case (Cons first rest)
  have "first \<in> set (filter (\<lambda>s. session_id s \<noteq> sid \<and> \<not> isArchived s) (sessions_idx sti))"
    unfolding Cons by simp
  then have fin: "first \<in> set (sessions_idx sti)" by simp
  have "find (\<lambda>s. session_id s = session_id first)
          (map (\<lambda>s. if session_id s = sid then s\<lparr>isArchived := \<not> isArchived s\<rparr> else s)
             (sessions_idx sti)) \<noteq> None"
    by (rule find_map_keep_id[OF _ fin]) simp_all
  with assms Cons show ?thesis
    by (simp add: handleArchiveSession_idx_def Let_def activeSessionOf_idx_def)
qed


lemma upsert_fresh:
  "user_id p \<notin> user_id ` set us \<Longrightarrow> upsertProfile p us = us @ [p]"
  by (induction us) auto

lemma upsert_member: "p \<in> set (upsertProfile p us)"
  by (induction us) auto

lemma existingUser_SomeD:
  "existingUser lc t us = Some p \<Longrightarrow> p \<in> set us \<and> lc (username p) = lc t"
  unfolding existingUser_def using find_Some_D by fastforce

lemma existingUser_found:
  "p \<in> set us \<Longrightarrow> lc (username p) = lc t \<Longrightarrow> existingUser lc t us \<noteq> None"
  unfolding existingUser_def by (rule find_in_set)

lemma login_existing:
  assumes "p \<in> set (registeredUsers st)"
  shows "registeredUsers (loginUser p st) = registeredUsers st \<and> currentUser (loginUser p st) = p"
  using assms by (auto simp: loginUser_def list_ex_iff)


lemma register_blank:
  "trim u = [] \<Longrightarrow>
   handleLoginRegister lc uuid u v st = Inl (js ''Username cannot be empty.'') \<and>
   handleLoginRegister_idx lc uuid u v st = Inl (js ''Username cannot be empty.'')"
  by (simp add: handleLoginRegister_def handleLoginRegister_idx_def)

lemma register_existing:
  assumes "trim u \<noteq> []" "existingUser lc (trim u) (registeredUsers st) = Some p"
  shows "\<exists>st' sti'. handleLoginRegister lc uuid u v st = Inr st' \<and>
           handleLoginRegister_idx lc uuid u v st = Inr sti' \<and>
           currentUser st' = p \<and> registeredUsers st' = registeredUsers st \<and>
           currentUser sti' = p \<and> registeredUsers sti' = registeredUsers st"
  using assms login_existing[of p st] existingUser_SomeD[OF assms(2)]
  by (simp add: handleLoginRegister_def handleLoginRegister_idx_def loginUser_idx_def)

lemma register_new:
  assumes "trim u \<noteq> []" "existingUser lc (trim u) (registeredUsers st) = None"
    "uuid \<notin> user_id ` set (registeredUsers st)"
  shows "\<exists>st' sti'. handleLoginRegister lc uuid u v st = Inr st' \<and>
           handleLoginRegister_idx lc uuid u v st = Inr sti' \<and>
           currentUser st' = newUserProfile uuid (trim u) v \<and>
           registeredUsers st' = registeredUsers st @ [newUserProfile uuid (trim u) v] \<and>
           currentUser sti' = newUserProfile uuid (trim u) v \<and>
           registeredUsers sti' = registeredUsers st @ [newUserProfile uuid (trim u) v]"
proof -
  let ?n = "newUserProfile uuid (trim u) v"
  have up: "upsertProfile ?n (registeredUsers st) = registeredUsers st @ [?n]"
    by (rule upsert_fresh) (simp add: newUserProfile_def assms(3))
  have r: "registeredUsers (updateUserProfile ?n st) = registeredUsers st @ [?n]"
    by (simp add: updateUserProfile_def up)
  then have m: "?n \<in> set (registeredUsers (updateUserProfile ?n st))" by simp
  from login_existing[OF m] r
  have "registeredUsers (loginUser ?n (updateUserProfile ?n st)) = registeredUsers st @ [?n]"
    "currentUser (loginUser ?n (updateUserProfile ?n st)) = ?n" by simp_all
  with assms(1,2) r show ?thesis
    by (simp add: handleLoginRegister_def handleLoginRegister_idx_def loginUser_idx_def Let_def)
qed

lemma register_result_known:
  assumes "handleLoginRegister lc uuid u v st = Inr st1 \<or> handleLoginRegister_idx lc uuid u v st = Inr st1"
  shows "trim u \<noteq> [] \<and> existingUser lc (trim u) (registeredUsers st1) \<noteq> None"
proof -
  from assms have t: "trim u \<noteq> []"
    by (auto simp: handleLoginRegister_def handleLoginRegister_idx_def Let_def split: if_splits)
  show ?thesis
  proof (cases "existingUser lc (trim u) (registeredUsers st)")
    case None
    let ?n = "newUserProfile uuid (trim u) v"
    have m: "?n \<in> set (registeredUsers (updateUserProfile ?n st))"
      by (simp add: updateUserProfile_def upsert_member)
    from assms t None have "registeredUsers st1 = registeredUsers (loginUser ?n (updateUserProfile ?n st))
       \<or> registeredUsers st1 = registeredUsers (updateUserProfile ?n st)"
      by (auto simp: handleLoginRegister_def handleLoginRegister_idx_def loginUser_idx_def Let_def)
    with login_existing[OF m] m have "?n \<in> set (registeredUsers st1)" by auto
    then have "existingUser lc (trim u) (registeredUsers st1) \<noteq> None"
      by (rule existingUser_found) (simp add: newUserProfile_def)
    with t show ?thesis by simp
  next
    case (Some p)
    from existingUser_SomeD[OF Some] have p: "p \<in> set (registeredUsers st)" by simp
    from assms t Some login_existing[OF p] have "registeredUsers st1 = registeredUsers st"
      by (auto simp: handleLoginRegister_def handleLoginRegister_idx_def loginUser_idx_def)
    with Some t show ?thesis by simp
  qed
qed

lemma register_twice:
  assumes "handleLoginRegister lc uuid u v st = Inr st1 \<or> handleLoginRegister_idx lc uuid u v st = Inr st1"
    "registeredUsers st2 = registeredUsers st1"
  shows "\<exists>st3 sti3 p. handleLoginRegister lc uuid2 u v2 st2 = Inr st3 \<and>
           handleLoginRegister_idx lc uuid2 u v2 st2 = Inr sti3 \<and>
           p \<in> set (registeredUsers st1) \<and> lc (username p) = lc (trim u) \<and>
           currentUser st3 = p \<and> registeredUsers st3 = registeredUsers st1 \<and>
           currentUser sti3 = p \<and> registeredUsers sti3 = registeredUsers st1"
proof -
  from register_result_known[OF assms(1)] assms(2) obtain p where
    t: "trim u \<noteq> []" and e: "existingUser lc (trim u) (registeredUsers st2) = Some p"
    by auto
  from register_existing[OF t e, of uuid2 v2] existingUser_SomeD[OF e] assms(2)
  show ?thesis by auto
qed

lemma send_title_main:
  "(handleSendMessage_begin st = (Some ctx, st') \<longrightarrow>
      (\<exists>s s'. activeSessionOf st = Some s \<and> activeSessionOf st' = Some s' \<and>
         title s' = (if list_ex (\<lambda>m. role m = User) (messages s) then title s
                     else if length (inputValue st) \<le> 30 then inputValue st
                     else take 30 (inputValue st) @ js ''...'')))"
proof (intro impI)
  assume b: "handleSendMessage_begin st = (Some ctx, st')"
  from begin_active[OF b] obtain a s where
    a: "activeSessionId st = Some a" and s: "activeSessionOf st = Some s"
    and a': "activeSessionId st' = Some a"
    and ss: "sessions st' = map (\<lambda>x. if session_id x = a then
        spread x (noUpdates\<lparr>u_messages := Some (messages s @ [\<lparr>role = User, msg_text = inputValue st\<rparr>]),
                   u_title := Some (if list_ex (\<lambda>m. role m = User) (messages s) then title s
                                    else autoTitle (inputValue st))\<rparr>) else x) (sessions st)"
    by blast
  from s a have f: "find (\<lambda>s. session_id s = a) (sessions st) = Some s"
    by (simp add: activeSessionOf_alt)
  have "activeSessionOf st' = Some (spread s (noUpdates\<lparr>u_messages := Some (messages s @ [\<lparr>role = User, msg_text = inputValue st\<rparr>]),
                   u_title := Some (if list_ex (\<lambda>m. role m = User) (messages s) then title s
                                    else autoTitle (inputValue st))\<rparr>))"
    unfolding activeSessionOf_alt[OF a'] ss
    by (rule find_update_sessions[OF _ f]) (simp add: noUpdates_def)
  with s show "\<exists>s s'. activeSessionOf st = Some s \<and> activeSessionOf st' = Some s' \<and>
         title s' = (if list_ex (\<lambda>m. role m = User) (messages s) then title s
                     else if length (inputValue st) \<le> 30 then inputValue st
                     else take 30 (inputValue st) @ js ''...'')"
    by (simp add: spread_after_send autoTitle_spec)
qed

subsection \<open>Base64\<close>

lemma b64_arith:
  "a div 4 * 4 + a mod 4 * 16 div 16 = (a::nat)"
  "b < 256 \<Longrightarrow> a div 4 * 4 + (a mod 4 * 16 + b div 16) div 16 = (a::nat)"
  "b < 256 \<Longrightarrow> (a mod 4 * 16 + b div 16) mod 16 * 16 + b mod 16 * 4 div 4 = (b::nat)"
  "b < 256 \<Longrightarrow> c < 256 \<Longrightarrow>
     (a mod 4 * 16 + b div 16) mod 16 * 16 + (b mod 16 * 4 + c div 64) div 4 = (b::nat)"
  "c < 256 \<Longrightarrow> (b mod 16 * 4 + c div 64) mod 4 * 64 + c mod 64 = (c::nat)"
  by (simp_all add: less_mult_imp_div_less div_mult2_eq[symmetric])

lemma b64_bounds:
  "a < 256 \<Longrightarrow> a div 4 < (64::nat)"
  "b < 256 \<Longrightarrow> a mod 4 * 16 + b div 16 < (64::nat)"
  "c < 256 \<Longrightarrow> b mod 16 * 4 + c div 64 < (64::nat)"
  "a mod 4 * 16 < (64::nat)"
  "b mod 16 * 4 < (64::nat)"
proof -
  show "a < 256 \<Longrightarrow> a div 4 < (64::nat)" by (simp add: less_mult_imp_div_less)
  show "b < 256 \<Longrightarrow> a mod 4 * 16 + b div 16 < (64::nat)"
  proof -
    assume "b < 256"
    then have "b div 16 < 16" by (simp add: less_mult_imp_div_less)
    moreover have "a mod 4 < 4" by simp
    ultimately show ?thesis by linarith
  qed
  show "c < 256 \<Longrightarrow> b mod 16 * 4 + c div 64 < (64::nat)"
  proof -
    assume "c < 256"
    then have "c div 64 < 4" by (simp add: less_mult_imp_div_less)
    moreover have "b mod 16 < 16" by simp
    ultimately show ?thesis by linarith
  qed
  have "a mod 4 < 4" by simp
  then show "a mod 4 * 16 < (64::nat)" by linarith
  have "b mod 16 < 16" by simp
  then show "b mod 16 * 4 < (64::nat)" by linarith
qed

lemma b64bytes_sextets:
  "list_all (\<lambda>b. b < 256) bs \<Longrightarrow> b64bytes (b64sextets bs) = bs"
proof (induction bs rule: b64sextets.induct)
  case 1
  then show ?case by simp
next
  case (2 a)
  show ?case by (simp add: b64_arith(1))
next
  case (3 a b)
  then have b: "b < 256" by simp
  show ?case using b64_arith(2,3)[OF b] by simp
next
  case (4 a b c r)
  then have b: "b < 256" and c: "c < 256" and r: "list_all (\<lambda>b. b < 256) r" by simp_all
  show ?case using 4(1)[OF r] b64_arith(2)[OF b] b64_arith(4)[OF b c] b64_arith(5)[OF c]
    by simp
qed

lemma b64sextets_small:
  "list_all (\<lambda>b. b < 256) bs \<Longrightarrow> list_all (\<lambda>v. v < 64) (b64sextets bs)"
proof (induction bs rule: b64sextets.induct)
  case (4 a b c r)
  then have a: "a < 256" and b: "b < 256" and c: "c < 256" and r: "list_all (\<lambda>b. b < 256) r"
    by simp_all
  show ?case using 4(1)[OF r] b64_bounds(1)[OF a] b64_bounds(2)[OF b] b64_bounds(3)[OF c]
    by simp
next
  case (3 a b)
  then have a: "a < 256" and b: "b < 256" by simp_all
  show ?case using b64_bounds(1)[OF a] b64_bounds(2)[OF b] b64_bounds(5) by simp
next
  case (2 a)
  then have a: "a < 256" by simp
  show ?case using b64_bounds(1)[OF a] b64_bounds(4) by simp
qed simp

lemma b64sextets_length:
  "length (b64sextets bs) = 4 * (length bs div 3) + (if length bs mod 3 = 0 then 0 else length bs mod 3 + 1)"
  by (induction bs rule: b64sextets.induct) auto

lemma b64_table: "list_all (\<lambda>n. b64value (b64char n) = Some n) [0..<64]"
  by code_simp

lemma b64value_char: "n < 64 \<Longrightarrow> b64value (b64char n) = Some n"
  using b64_table by (simp add: list_all_iff)

lemma b64values_chars:
  "list_all (\<lambda>v. v < 64) vs \<Longrightarrow> b64values (map b64char vs) = Some vs"
  by (induction vs) (simp_all add: b64value_char)

lemma b64value_plain:
  "b64value c = Some v \<Longrightarrow> \<not> isAsciiWhitespace c \<and> c \<noteq> 0x3D"
  by (auto simp: b64value_def isAsciiWhitespace_def split: if_splits)

lemma b64char_plain:
  "n < 64 \<Longrightarrow> \<not> isAsciiWhitespace (b64char n) \<and> b64char n \<noteq> 0x3D"
  using b64value_plain[OF b64value_char] by blast

lemma stripPadding_none:
  assumes "ys = [] \<or> last ys \<noteq> 0x3D"
  shows "stripPadding ys = ys"
proof (cases "rev ys")
  case Nil
  then show ?thesis by (simp add: stripPadding_def)
next
  case (Cons p r)
  then have "ys \<noteq> []" by auto
  with assms have "last ys \<noteq> 0x3D" by simp
  moreover from Cons have "last ys = p" by (metis last_rev list.sel(1) rev_rev_ident hd_rev)
  ultimately show ?thesis using Cons by (cases r) (simp_all add: stripPadding_def)
qed

lemma stripPadding_unfold:
  "length d mod 4 = 0 \<Longrightarrow>
   stripPadding d =
     (case rev d of
        p # q # r \<Rightarrow> if p = 0x3D \<and> q = 0x3D then rev r
                     else if p = 0x3D then rev (q # r) else d
      | _ \<Rightarrow> d)"
  by (simp add: stripPadding_def)

lemma stripPadding_one:
  assumes "ys \<noteq> []" "last ys \<noteq> 0x3D" "length (ys @ [0x3D]) mod 4 = 0"
  shows "stripPadding (ys @ [0x3D]) = ys"
proof -
  obtain q r where r: "rev ys = q # r" using assms(1) by (cases "rev ys") auto
  then have "last ys = q" by (metis last_rev list.sel(1) rev_rev_ident hd_rev)
  with assms(2) have q: "q \<noteq> 0x3D" by simp
  have b: "rev (q # r) = ys" using r by (metis rev_rev_ident)
  have e: "rev (ys @ [0x3D]) = 0x3D # q # r" using r by simp
  show ?thesis
    unfolding stripPadding_unfold[OF assms(3)] e using q b by (simp del: rev.simps)
qed

lemma stripPadding_two:
  assumes "length (ys @ [0x3D, 0x3D]) mod 4 = 0"
  shows "stripPadding (ys @ [0x3D, 0x3D]) = ys"
  using assms by (simp add: stripPadding_def)

lemma last_b64char:
  assumes "list_all (\<lambda>v. v < 64) vs" "vs \<noteq> []"
  shows "last (map b64char vs) \<noteq> 0x3D"
proof -
  have "last vs \<in> set vs" using assms(2) by simp
  with assms(1) have "last vs < 64" by (simp add: list_all_iff)
  then show ?thesis using b64char_plain assms(2) by (simp add: last_map)
qed

lemma filter_b64chars:
  assumes "list_all (\<lambda>v. v < 64) vs"
  shows "filter (\<lambda>c. \<not> isAsciiWhitespace c) (map b64char vs @ replicate k 0x3D)
         = map b64char vs @ replicate k 0x3D"
proof -
  have "\<forall>c \<in> set (map b64char vs @ replicate k 0x3D). \<not> isAsciiWhitespace c"
    using assms b64char_plain by (auto simp: list_all_iff isAsciiWhitespace_def)
  then show ?thesis by (simp only: filter_True)
qed

lemma strip_encoded:
  assumes "list_all (\<lambda>b. b < 256) bs"
  shows "stripPadding (map b64char (b64sextets bs) @ b64padding (length bs))
         = map b64char (b64sextets bs)"
proof -
  let ?sx = "b64sextets bs"
  have sm: "list_all (\<lambda>v. v < 64) ?sx" by (rule b64sextets_small[OF assms])
  have len: "length ?sx = 4 * (length bs div 3) + (if length bs mod 3 = 0 then 0 else length bs mod 3 + 1)"
    by (rule b64sextets_length)
  consider "length bs mod 3 = 0" | "length bs mod 3 = 1" | "length bs mod 3 = 2" by linarith
  then show ?thesis
  proof cases
    case 1
    then have p: "b64padding (length bs) = []" by (simp add: b64padding_def)
    show ?thesis unfolding p using last_b64char[OF sm]
      by (cases "?sx = []") (simp_all add: stripPadding_none)
  next
    case 2
    then have p: "b64padding (length bs) = [0x3D, 0x3D]"
      by (simp add: b64padding_def numeral_2_eq_2)
    from 2 len have "length (map b64char ?sx @ [0x3D, 0x3D]) mod 4 = 0" by simp
    then show ?thesis unfolding p by (rule stripPadding_two)
  next
    case 3
    then have p: "b64padding (length bs) = [0x3D]" by (simp add: b64padding_def)
    from 3 len have l: "length (map b64char ?sx @ [0x3D]) mod 4 = 0" by simp
    from 3 len have ne: "?sx \<noteq> []" by auto
    show ?thesis unfolding p
      by (rule stripPadding_one[OF _ last_b64char[OF sm ne] l]) (simp add: ne)
  qed
qed

lemma btoa_atob:
  assumes "btoa s = Some blob"
  shows "atob blob = Some s"
proof -
  let ?bs = "map unat s"
  let ?sx = "b64sextets ?bs"
  from assms have small: "\<not> list_ex (\<lambda>c. c > 0xFF) s"
    and blob: "blob = map b64char ?sx @ b64padding (length s)"
    by (auto simp: btoa_def split: if_splits)
  have bs: "list_all (\<lambda>b. b < 256) ?bs"
  proof -
    have "\<And>c. c \<in> set s \<Longrightarrow> unat c < 256"
    proof -
      fix c :: "16 word" assume "c \<in> set s"
      with small have "c \<le> 0xFF" by (auto simp: list_ex_iff not_less)
      then have "unat c \<le> unat (0xFF :: 16 word)" by (simp add: word_le_nat_alt)
      then show "unat c < 256" by simp
    qed
    then show ?thesis by (simp add: list_all_iff)
  qed
  have sm: "list_all (\<lambda>v. v < 64) ?sx" by (rule b64sextets_small[OF bs])
  have f: "filter (\<lambda>c. \<not> isAsciiWhitespace c) blob = blob"
    unfolding blob b64padding_def by (rule filter_b64chars[OF sm])
  have st: "stripPadding blob = map b64char ?sx"
    unfolding blob using strip_encoded[OF bs] by simp
  have l: "length (map b64char ?sx) mod 4 \<noteq> 1"
  proof -
    have m1: "(4 * k + 2) mod 4 = (2::nat)" for k by presburger
    have m2: "(4 * k + 3) mod 4 = (3::nat)" for k by presburger
    consider "length ?bs mod 3 = 0" | "length ?bs mod 3 = 1" | "length ?bs mod 3 = 2" by linarith
    then show ?thesis
    proof cases
      case 1
      then show ?thesis using b64sextets_length[of ?bs] by simp
    next
      case 2
      then have "length ?sx = 4 * (length ?bs div 3) + 2" using b64sextets_length[of ?bs] by simp
      then show ?thesis using m1 by simp
    next
      case 3
      then have "length ?sx = 4 * (length ?bs div 3) + 3" using b64sextets_length[of ?bs] by simp
      then show ?thesis using m2 by simp
    qed
  qed
  have dec: "map of_nat (b64bytes ?sx) = s"
    unfolding b64bytes_sextets[OF bs] by (simp add: map_idI)
  show ?thesis
    unfolding atob_def f st Let_def using l b64values_chars[OF sm] dec by simp
qed

subsection \<open>Strings of \<open>JSON.stringify\<close> read by \<open>JSON.parse\<close>\<close>

lemma hex_table: "list_all (\<lambda>n. hexValue (hexDigit n) = Some n) [0..<16]"
  by code_simp

lemma hexValue_digit: "n < 16 \<Longrightarrow> hexValue (hexDigit n) = Some n"
  using hex_table by (simp add: list_all_iff)

lemma hex_split: "4096 * (n div 4096) + 256 * (n div 256 mod 16) + 16 * (n div 16 mod 16) + n mod 16 = (n::nat)"
proof -
  have a: "n div 256 = n div 16 div 16" by (simp add: div_mult2_eq[symmetric])
  have b: "n div 4096 = n div 16 div 16 div 16" by (simp add: div_mult2_eq[symmetric])
  have 1: "16 * (n div 16) + n mod 16 = n" by simp
  have 2: "16 * (n div 16 div 16) + n div 16 mod 16 = n div 16" by simp
  have 3: "16 * (n div 16 div 16 div 16) + n div 16 div 16 mod 16 = n div 16 div 16" by simp
  show ?thesis unfolding a b using 1 2 3 by linarith
qed

lemma parseChars_plain:
  "c \<noteq> 0x22 \<Longrightarrow> c \<noteq> 0x5C \<Longrightarrow> \<not> c < 0x20 \<Longrightarrow>
   parseChars (c # cs) = (case parseChars cs of None \<Rightarrow> None | Some (s, r) \<Rightarrow> Some (c # s, r))"
  by simp

lemma parseChars_simple:
  "simpleEscape e = Some u \<Longrightarrow> e \<noteq> 0x75 \<Longrightarrow>
   parseChars (0x5C # e # es) = (case parseChars es of None \<Rightarrow> None | Some (s, r) \<Rightarrow> Some (u # s, r))"
  by simp

lemma parseChars_unicode:
  "parseChars (unicodeEscape c @ cs) =
     (case parseChars cs of None \<Rightarrow> None | Some (s, r) \<Rightarrow> Some (c # s, r))"
proof -
  have "unat c < 2 ^ LENGTH(16)" by (rule unsigned_less)
  then have lt: "unat c < 65536" by simp
  then have d: "unat c div 4096 < 16" by (simp add: less_mult_imp_div_less)
  have v: "hexValue (hexDigit (unat c div 4096)) = Some (unat c div 4096)"
    "hexValue (hexDigit (unat c div 256 mod 16)) = Some (unat c div 256 mod 16)"
    "hexValue (hexDigit (unat c div 16 mod 16)) = Some (unat c div 16 mod 16)"
    "hexValue (hexDigit (unat c mod 16)) = Some (unat c mod 16)"
    using d by (simp_all add: hexValue_digit)
  have "(of_nat (4096 * (unat c div 4096) + 256 * (unat c div 256 mod 16) +
          16 * (unat c div 16 mod 16) + unat c mod 16) :: 16 word) = c"
    unfolding hex_split by simp
  then show ?thesis
    by (simp add: unicodeEscape_def v del: of_nat_add of_nat_mult split: option.splits)
qed

declare parseChars.simps [simp del]

lemma parseChars_unit:
  "parseChars (quoteUnit c @ cs) =
     (case parseChars cs of None \<Rightarrow> None | Some (s, r) \<Rightarrow> Some (c # s, r))"
proof -
  consider "c = 0x8" | "c = 0x9" | "c = 0xA" | "c = 0xC" | "c = 0xD" | "c = 0x22" | "c = 0x5C"
    | "c \<noteq> 0x8" "c \<noteq> 0x9" "c \<noteq> 0xA" "c \<noteq> 0xC" "c \<noteq> 0xD" "c \<noteq> 0x22" "c \<noteq> 0x5C"
      "c < 0x20 \<or> isHighSurrogate c \<or> isLowSurrogate c"
    | "c \<noteq> 0x8" "c \<noteq> 0x9" "c \<noteq> 0xA" "c \<noteq> 0xC" "c \<noteq> 0xD" "c \<noteq> 0x22" "c \<noteq> 0x5C"
      "\<not> (c < 0x20 \<or> isHighSurrogate c \<or> isLowSurrogate c)"
    by blast
  then show ?thesis
  proof cases
    case 8
    then show ?thesis by (simp add: quoteUnit_def parseChars_unicode)
  next
    case 9
    then show ?thesis by (simp add: quoteUnit_def parseChars_plain)
  qed (auto simp: quoteUnit_def parseChars_simple simpleEscape_def)
qed

lemma parseChars_pair:
  assumes "isHighSurrogate c" "isLowSurrogate d"
  shows "parseChars (c # d # cs) =
     (case parseChars cs of None \<Rightarrow> None | Some (s, r) \<Rightarrow> Some (c # d # s, r))"
proof -
  have c: "c \<noteq> 0x22 \<and> c \<noteq> 0x5C \<and> \<not> c < 0x20"
    using assms(1) by (auto simp: isHighSurrogate_def word_le_nat_alt word_less_nat_alt)
  have d: "d \<noteq> 0x22 \<and> d \<noteq> 0x5C \<and> \<not> d < 0x20"
    using assms(2) by (auto simp: isLowSurrogate_def word_le_nat_alt word_less_nat_alt)
  show ?thesis using c d by (simp add: parseChars_plain split: option.splits)
qed

lemma parseChars_quoteChars:
  "parseChars (quoteChars s @ 0x22 # rest) = Some (s, rest)"
proof (induction s rule: quoteChars.induct)
  case 1
  then show ?case by (simp add: parseChars.simps)
next
  case (2 c)
  then show ?case by (simp add: parseChars_unit parseChars.simps)
next
  case (3 c d cs)
  show ?case
  proof (cases "isHighSurrogate c \<and> isLowSurrogate d")
    case True
    then have q: "quoteChars (c # d # cs) = c # d # quoteChars cs" by simp
    show ?thesis unfolding q using 3(1)[OF True] True by (simp add: parseChars_pair)
  next
    case False
    then have q: "quoteChars (c # d # cs) = quoteUnit c @ quoteChars (d # cs)" by auto
    show ?thesis unfolding q using 3(2)[OF False] by (simp add: parseChars_unit)
  qed
qed

subsection \<open>The shared data read by \<open>JSON.parse\<close>\<close>

lemma skipWs_Cons: "\<not> isJsonWhitespace c \<Longrightarrow> skipWs (c # cs) = c # cs"
  by (simp add: skipWs_def)

lemma parseValue_string:
  "parseValue (Suc n) (quoteJSONString s @ rest) = Some (JString s, rest)"
  by (simp add: quoteJSONString_def skipWs_def isJsonWhitespace_def parseChars_quoteChars)

lemma parseMembers_last:
  assumes "parseValue n (vt @ 0x7D # rest) = Some (v, 0x7D # rest)"
  shows "parseMembers (Suc n) (quoteJSONString k @ 0x3A # vt @ 0x7D # rest) = Some ([(k, v)], rest)"
  using assms
  by (simp add: quoteJSONString_def skipWs_def isJsonWhitespace_def parseChars_quoteChars)

lemma parseMembers_more:
  assumes "parseValue n (vt @ 0x2C # cont) = Some (v, 0x2C # cont)"
    and "parseMembers n cont = Some (ms, r)"
  shows "parseMembers (Suc n) (quoteJSONString k @ 0x3A # vt @ 0x2C # cont) = Some ((k, v) # ms, r)"
  using assms
  by (simp add: quoteJSONString_def skipWs_def isJsonWhitespace_def parseChars_quoteChars)

lemma parseValue_object:
  assumes "parseMembers n (quoteJSONString k @ cont) = Some (ms, r)"
  shows "parseValue (Suc n) (0x7B # quoteJSONString k @ cont) = Some (JObject ms, r)"
  using assms
  by (simp add: quoteJSONString_def skipWs_def isJsonWhitespace_def)

lemma parseElements_last:
  assumes "parseValue n (vt @ 0x5D # rest) = Some (v, 0x5D # rest)"
  shows "parseElements (Suc n) (vt @ 0x5D # rest) = Some ([v], rest)"
  using assms by (simp add: skipWs_def isJsonWhitespace_def)

lemma parseElements_more:
  assumes "parseValue n (vt @ 0x2C # cont) = Some (v, 0x2C # cont)"
    and "parseElements n cont = Some (vs, r)"
  shows "parseElements (Suc n) (vt @ 0x2C # cont) = Some (v # vs, r)"
  using assms by (simp add: skipWs_def isJsonWhitespace_def)

lemma parseValue_empty_array:
  "parseValue (Suc n) (0x5B # 0x5D # rest) = Some (JArray [], rest)"
  by (simp add: skipWs_def isJsonWhitespace_def)

lemma parseValue_array:
  assumes "parseElements n (0x7B # cont) = Some (vs, r)"
  shows "parseValue (Suc n) (0x5B # 0x7B # cont) = Some (JArray vs, r)"
  using assms by (simp add: skipWs_def isJsonWhitespace_def)

lemma stringifyMessage_unfold:
  "stringifyMessage m @ rest =
     0x7B # quoteJSONString (js ''role'') @ 0x3A # quoteJSONString (roleName (role m)) @
     0x2C # quoteJSONString (js ''text'') @ 0x3A # quoteJSONString (msg_text m) @ 0x7D # rest"
  by (simp add: stringifyMessage_def js_def)

lemma parseValue_message:
  "parseValue (Suc (Suc (Suc (Suc n)))) (stringifyMessage m @ rest) = Some (jsonOfMessage m, rest)"
  unfolding stringifyMessage_unfold jsonOfMessage_def
  by (intro parseValue_object parseMembers_more parseMembers_last parseValue_string)

lemma fuel4: "4 \<le> f \<Longrightarrow> \<exists>n. f = Suc (Suc (Suc (Suc n)))"
  by presburger

lemma parseValue_message_fuel:
  "4 \<le> f \<Longrightarrow> parseValue f (stringifyMessage m @ rest) = Some (jsonOfMessage m, rest)"
  using fuel4 [of f] parseValue_message by auto

lemma stringifyMessage_head: "\<exists>cont. stringifyMessage m = 0x7B # cont"
  by (simp add: stringifyMessage_def js_def)

lemma stringifyElements_head: "ms \<noteq> [] \<Longrightarrow> \<exists>cont. stringifyElements ms = 0x7B # cont"
  by (induction ms rule: stringifyElements.induct)
     (use stringifyMessage_head in \<open>auto simp: stringifyMessage_def js_def\<close>)

lemma parseElements_messages:
  "ms \<noteq> [] \<Longrightarrow> length ms + 4 \<le> f \<Longrightarrow>
     parseElements f (stringifyElements ms @ 0x5D # rest) = Some (map jsonOfMessage ms, rest)"
proof (induction ms arbitrary: f rule: stringifyElements.induct)
  case 1
  then show ?case by simp
next
  case (2 m)
  then obtain n where f: "f = Suc n" and n: "4 \<le> n"
    by (cases f) auto
  show ?case
    unfolding f by (simp add: parseElements_last parseValue_message_fuel n del: parseElements.simps)
next
  case (3 m m' ms)
  then obtain n where f: "f = Suc n" and n: "4 \<le> n" and n': "length (m' # ms) + 4 \<le> n"
    by (cases f) auto
  have tl: "parseElements n (stringifyElements (m' # ms) @ 0x5D # rest) =
      Some (map jsonOfMessage (m' # ms), rest)"
    using 3 n' by simp
  have "parseElements (Suc n) (stringifyMessage m @ 0x2C # stringifyElements (m' # ms) @ 0x5D # rest)
      = Some (jsonOfMessage m # map jsonOfMessage (m' # ms), rest)"
    by (rule parseElements_more) (simp_all only: parseValue_message_fuel [OF n] tl)
  then show ?case
    unfolding f by (simp add: js_def del: parseElements.simps)
qed


lemma parseValue_messages:
  assumes "length ms + 5 \<le> f"
  shows "parseValue f (0x5B # stringifyElements ms @ 0x5D # rest) =
     Some (JArray (map jsonOfMessage ms), rest)"
proof -
  from assms obtain n where f: "f = Suc n" and n: "length ms + 4 \<le> n"
    by (cases f) auto
  show ?thesis
  proof (cases "ms = []")
    case True
    then show ?thesis unfolding f by (simp add: parseValue_empty_array del: parseValue.simps)
  next
    case False
    then obtain cont where c: "stringifyElements ms = 0x7B # cont"
      using stringifyElements_head by blast
    have "parseElements n (stringifyElements ms @ 0x5D # rest) = Some (map jsonOfMessage ms, rest)"
      using False n by (rule parseElements_messages)
    then have "parseElements n (0x7B # cont @ 0x5D # rest) = Some (map jsonOfMessage ms, rest)"
      by (simp add: c)
    then have "parseValue (Suc n) (0x5B # 0x7B # cont @ 0x5D # rest) =
        Some (JArray (map jsonOfMessage ms), rest)"
      by (rule parseValue_array)
    then show ?thesis unfolding f by (simp add: c)
  qed
qed

lemma stringifyShared_unfold:
  "stringifyShared t ms @ rest =
     0x7B # quoteJSONString (js ''title'') @ 0x3A # quoteJSONString t @
     0x2C # quoteJSONString (js ''messages'') @ 0x3A # (0x5B # stringifyElements ms @ [0x5D]) @
     0x7D # rest"
  by (simp add: stringifyShared_def js_def)

lemma parseValue_shared:
  assumes "length ms + 8 \<le> f"
  shows "parseValue f (stringifyShared t ms @ rest) = Some (jsonOfShared t ms, rest)"
proof -
  from assms obtain n where f: "f = Suc (Suc (Suc n))" and n: "length ms + 5 \<le> n"
    by (cases f; cases "f - 1"; cases "f - 2") auto
  have arr: "parseValue n ((0x5B # stringifyElements ms @ [0x5D]) @ 0x7D # rest) =
      Some (JArray (map jsonOfMessage ms), 0x7D # rest)"
    using parseValue_messages [OF n, of "0x7D # rest"] by simp
  show ?thesis
    unfolding f stringifyShared_unfold jsonOfShared_def
    by (intro parseValue_object parseMembers_more parseMembers_last parseValue_string arr)
qed

lemma stringifyElements_length: "length ms \<le> length (stringifyElements ms) + 1"
  by (induction ms rule: stringifyElements.induct) (simp_all add: js_def)

lemma stringifyShared_length: "length ms + 3 \<le> length (stringifyShared t ms)"
  using stringifyElements_length [of ms]
  by (simp add: stringifyShared_def js_def quoteJSONString_def)

lemma JSON_parse_stringifyShared:
  "JSON_parse (stringifyShared t ms) = Some (jsonOfShared t ms)"
proof -
  have "length ms + 8 \<le> 2 * length (stringifyShared t ms) + 2"
    using stringifyShared_length [of ms t] by simp
  then have "parseValue (2 * length (stringifyShared t ms) + 2) (stringifyShared t ms @ []) =
      Some (jsonOfShared t ms, [])"
    by (rule parseValue_shared)
  then show ?thesis
    by (simp add: JSON_parse_def skipWs_def)
qed

lemma roleOf_roleName: "roleOf (roleName r) = Some r"
  by (cases r) (simp_all add: roleOf_def roleName_def js_def)

lemma messageOf_json: "messageOf (jsonOfMessage m) = Some m"
  by (simp add: messageOf_def jsonOfMessage_def property_def roleOf_roleName js_def)

lemma messagesOf_json: "messagesOf (map jsonOfMessage ms) = Some ms"
  by (induction ms) (simp_all add: messageOf_json)

lemma property_title: "property ''title'' (jsonOfShared t ms) = Some (JString t)"
  by (simp add: property_def jsonOfShared_def js_def)

lemma property_messages:
  "property ''messages'' (jsonOfShared t ms) = Some (JArray (map jsonOfMessage ms))"
  by (simp add: property_def jsonOfShared_def js_def)

lemma typedView_json: "typedView (jsonOfShared t ms) = Shared t ms"
  by (simp add: typedView_def property_title property_messages messagesOf_json)

lemma getView_plain: "0x2B \<notin> set blob \<Longrightarrow> getView blob = Some blob"
  by (auto simp: getView_def intro: map_idI)

lemma stringifyShared_nonempty: "stringifyShared t ms \<noteq> []"
  by (simp add: stringifyShared_def js_def)

lemma atob_empty: "atob [] = Some []"
  by (simp add: atob_def stripPadding_def)

lemma shareEncode_nonempty: "shareEncode t ms = Some blob \<Longrightarrow> blob \<noteq> []"
  using btoa_atob [of "stringifyShared t ms" blob] atob_empty stringifyShared_nonempty [of t ms]
  by (cases "blob = []") (simp_all add: shareEncode_def)

lemma shareViewEffect_encoded:
  assumes "shareEncode t ms = Some blob"
  shows "shareViewEffect (Some blob) = Shared t ms"
proof -
  have "atob blob = Some (stringifyShared t ms)"
    using assms by (simp add: shareEncode_def btoa_atob)
  moreover have "jsTruthy (Some (jsonOfShared t ms))"
    by (simp add: jsTruthy_def jsonOfShared_def)
  ultimately show ?thesis
    using shareEncode_nonempty [OF assms]
    by (simp add: shareViewEffect_def JSON_parse_stringifyShared typedView_json)
qed

lemma shareViewEffect_idx_encoded:
  assumes "shareEncode t ms = Some blob"
  shows "shareViewEffect_idx (Some blob) = (if t = [] then NotShared else Shared t ms)"
proof -
  have "atob blob = Some (stringifyShared t ms)"
    using assms by (simp add: shareEncode_def btoa_atob)
  moreover have "jsonOfShared t ms \<noteq> JNull"
    by (simp add: jsonOfShared_def)
  ultimately show ?thesis
    using shareEncode_nonempty [OF assms]
    by (simp add: shareViewEffect_idx_def JSON_parse_stringifyShared typedView_json jsTruthy_def
        property_title property_messages)
qed

subsection \<open>Texts that \<open>btoa\<close> accepts\<close>

lemma hexDigit_table: "list_all (\<lambda>n. hexDigit n \<le> 0xFF) [0..<16]"
  by code_simp

lemma hexDigit_latin1: "n < 16 \<Longrightarrow> hexDigit n \<le> 0xFF"
  using hexDigit_table by (simp add: list_all_iff)

lemma unicodeEscape_latin1: "list_all (\<lambda>c. c \<le> 0xFF) (unicodeEscape c)"
proof -
  have "unat c < 65536"
    using unsigned_less [of c] by simp
  then have "unat c div 4096 < 16"
    by (simp add: less_mult_imp_div_less)
  then show ?thesis
    by (simp add: unicodeEscape_def hexDigit_latin1)
qed

lemma quoteUnit_latin1: "c \<le> 0xFF \<Longrightarrow> list_all (\<lambda>c. c \<le> 0xFF) (quoteUnit c)"
  by (simp add: quoteUnit_def unicodeEscape_latin1)

lemma latin1_not_surrogate: "c \<le> 0xFF \<Longrightarrow> \<not> isHighSurrogate (c :: 16 word)"
  by (simp add: isHighSurrogate_def word_le_nat_alt)

lemma quoteChars_latin1:
  "list_all (\<lambda>c. c \<le> 0xFF) s \<Longrightarrow> list_all (\<lambda>c. c \<le> 0xFF) (quoteChars s)"
  by (induction s rule: quoteChars.induct)
     (simp_all add: latin1_not_surrogate quoteUnit_latin1)

lemma quoteJSONString_latin1:
  "list_all (\<lambda>c. c \<le> 0xFF) s \<Longrightarrow> list_all (\<lambda>c. c \<le> 0xFF) (quoteJSONString s)"
  by (simp add: quoteJSONString_def quoteChars_latin1)

lemma of_char_latin1: "of_char c \<le> (0xFF :: 16 word)"
proof -
  have lt: "(of_char c :: nat) < 256"
    by simp
  have "(of_char c :: nat) mod 65536 = of_char c"
    by (rule mod_less) (use lt in linarith)
  moreover have "(of_char c :: nat) \<le> 255"
    using lt by linarith
  ultimately have le: "unat (word_of_nat (of_char c) :: 16 word) \<le> 255"
    by (simp add: unat_of_nat)
  have eq: "(of_char c :: 16 word) = word_of_nat (of_char c)"
    by (simp only: of_nat_of_char)
  show ?thesis
    by (subst eq) (use le in \<open>simp add: word_le_nat_alt\<close>)
qed

lemma js_latin1: "list_all (\<lambda>c. c \<le> 0xFF) (js s)"
  by (simp add: js_def list_all_iff of_char_latin1)

lemma stringifyMessage_latin1:
  "list_all (\<lambda>c. c \<le> 0xFF) (msg_text m) \<Longrightarrow> list_all (\<lambda>c. c \<le> 0xFF) (stringifyMessage m)"
  by (cases "role m")
     (simp_all add: stringifyMessage_def roleName_def js_latin1 quoteJSONString_latin1)

lemma stringifyElements_latin1:
  "list_all (\<lambda>m. list_all (\<lambda>c. c \<le> 0xFF) (msg_text m)) ms \<Longrightarrow>
     list_all (\<lambda>c. c \<le> 0xFF) (stringifyElements ms)"
  by (induction ms rule: stringifyElements.induct)
     (simp_all add: js_latin1 stringifyMessage_latin1)

lemma stringifyShared_latin1:
  "list_all (\<lambda>c. c \<le> 0xFF) t \<Longrightarrow> list_all (\<lambda>m. list_all (\<lambda>c. c \<le> 0xFF) (msg_text m)) ms \<Longrightarrow>
     list_all (\<lambda>c. c \<le> 0xFF) (stringifyShared t ms)"
  by (simp add: stringifyShared_def js_latin1 quoteJSONString_latin1 stringifyElements_latin1)

lemma shareEncode_latin1:
  assumes "list_all (\<lambda>c. c \<le> 0xFF) t"
    and "list_all (\<lambda>m. list_all (\<lambda>c. c \<le> 0xFF) (msg_text m)) ms"
  shows "shareEncode t ms \<noteq> None"
proof -
  have "\<not> list_ex (\<lambda>c. c > 0xFF) (stringifyShared t ms)"
    using stringifyShared_latin1 [OF assms] by (auto simp: list_ex_iff list_all_iff)
  then show ?thesis
    by (simp add: shareEncode_def btoa_def)
qed

lemma step_keeps_flag: "isApiKeyMissing st \<Longrightarrow> isApiKeyMissing (step lc e st)"
proof (cases e)
  case (LoginRegister uuid u v)
  assume "isApiKeyMissing st"
  then show ?thesis unfolding LoginRegister
    by (cases "handleLoginRegister lc uuid u v st")
      (auto simp: handleLoginRegister_def loginUser_def updateUserProfile_def Let_def
        split: if_splits option.splits)
qed (auto simp: handleNewChat_def handleSelectSession_def handleSendMessage_begin_def
      handleSendMessage_resume_def handleEditClick_def handleTitleSave_def
      handleDeleteSession_def handleArchiveSession_def handleSaveSettings_def
      handleTogglePublic_def handleViewChat_def loginUser_def logoutUser_def
      updateUserProfile_def chatInitEffect_def initialSessionEffect_def Let_def
      split: option.splits list.splits)

lemma run_keeps_flag: "isApiKeyMissing st \<Longrightarrow> isApiKeyMissing (run lc events st)"
  unfolding run_def by (induction events arbitrary: st) (simp_all add: step_keeps_flag)

lemma getItem_removeItem:
  "getItem k (removeItem k' storage) = (if js k = js k' then None else getItem k storage)"
  by (simp add: getItem_def removeItem_def delete_conv')

lemma storage_keys_distinct:
  "js ''registeredUsers'' \<noteq> js ''lastActiveUserId''"
  "js ''registeredUsers'' \<noteq> js ''allUserChatSessions''"
  "js ''lastActiveUserId'' \<noteq> js ''allUserChatSessions''"
  "js ''aiSettings'' \<noteq> js ''chatSessions_'' @ x"
  by (simp_all add: js_def)

lemma loadFailed_facts:
  assumes "loadFailed st storage = (st', storage', console)"
  shows "console = [js ''Failed to load user or session data from localStorage''] \<and>
         getItem ''registeredUsers'' storage' = None \<and>
         getItem ''allUserChatSessions'' storage' = None \<and>
         getItem ''lastActiveUserId'' storage' = None \<and>
         currentUser st' = DEFAULT_GUEST_USER_PROFILE \<and>
         registeredUsers st' = registeredUsers st \<and> allUserSessions st' = allUserSessions st"
  using assms storage_keys_distinct
  by (auto simp: loadFailed_def getItem_removeItem)

lemma loadLastActive_facts:
  assumes "loadLastActive us st storage = (st', storage', console)"
  shows "console = [] \<and> storage' = storage \<and> registeredUsers st' = registeredUsers st \<and>
         allUserSessions st' = allUserSessions st"
  using assms by (auto simp: loadLastActive_def split: option.splits if_splits)

lemma loadSessions_malformed:
  assumes "malformed ps ''allUserChatSessions'' storage"
  shows "loadSessions ps us st storage = loadFailed st storage"
  using assms by (auto simp: loadSessions_def malformed_def split: option.splits)

lemma loadSessions_wellformed:
  assumes "\<not> malformed ps ''allUserChatSessions'' storage"
    "loadSessions ps us st storage = (st', storage', console)"
  shows "console = [] \<and> storage' = storage \<and> registeredUsers st' = registeredUsers st \<and>
         allUserSessions st' =
           (case getItem ''allUserChatSessions'' storage of
              None \<Rightarrow> allUserSessions st
            | Some v \<Rightarrow> if v = [] then allUserSessions st else the (ps v))"
  using assms
  by (auto simp: loadSessions_def malformed_def split: option.splits if_splits
      dest!: loadLastActive_facts)

lemma loadEffect_users_malformed:
  assumes "malformed pu ''registeredUsers'' storage"
  shows "loadEffect pu ps st storage = loadFailed st storage"
  using assms by (auto simp: loadEffect_def malformed_def split: option.splits)

lemma loadEffect_sessions_malformed:
  assumes "\<not> malformed pu ''registeredUsers'' storage" "malformed ps ''allUserChatSessions'' storage"
  shows "\<exists>st1. loadEffect pu ps st storage = loadFailed st1 storage \<and>
           allUserSessions st1 = allUserSessions st \<and>
           registeredUsers st1 =
             (case getItem ''registeredUsers'' storage of
                None \<Rightarrow> registeredUsers st
              | Some v \<Rightarrow> if v = [] then registeredUsers st else the (pu v))"
  using assms
  by (auto simp: loadEffect_def malformed_def loadSessions_malformed[OF assms(2)]
      split: option.splits)

lemma loadEffect_failure:
  assumes "malformed pu ''registeredUsers'' storage \<or> malformed ps ''allUserChatSessions'' storage"
    "loadEffect pu ps st storage = (st', storage', console)"
  shows "console = [js ''Failed to load user or session data from localStorage''] \<and>
         getItem ''registeredUsers'' storage' = None \<and>
         getItem ''allUserChatSessions'' storage' = None \<and>
         getItem ''lastActiveUserId'' storage' = None \<and>
         currentUser st' = DEFAULT_GUEST_USER_PROFILE \<and>
         allUserSessions st' = allUserSessions st \<and>
         (malformed pu ''registeredUsers'' storage \<longrightarrow> registeredUsers st' = registeredUsers st)"
proof (cases "malformed pu ''registeredUsers'' storage")
  case True
  from loadEffect_users_malformed[OF True, of ps st] assms(2)
  have "loadFailed st storage = (st', storage', console)" by simp
  from loadFailed_facts[OF this] show ?thesis by simp
next
  case False
  with assms(1) have m: "malformed ps ''allUserChatSessions'' storage" by simp
  from loadEffect_sessions_malformed[OF False m, of st] assms(2)
  obtain st1 where "loadFailed st1 storage = (st', storage', console)"
    and "allUserSessions st1 = allUserSessions st" by auto
  with loadFailed_facts[of st1 storage st' storage' console] False show ?thesis by simp
qed

lemma loadEffect_success:
  assumes "\<not> malformed pu ''registeredUsers'' storage"
    "\<not> malformed ps ''allUserChatSessions'' storage"
    "loadEffect pu ps st storage = (st', storage', console)"
  shows "console = [] \<and> storage' = storage \<and>
         registeredUsers st' =
           (case getItem ''registeredUsers'' storage of
              None \<Rightarrow> registeredUsers st
            | Some v \<Rightarrow> if v = [] then registeredUsers st else the (pu v)) \<and>
         allUserSessions st' =
           (case getItem ''allUserChatSessions'' storage of
              None \<Rightarrow> allUserSessions st
            | Some v \<Rightarrow> if v = [] then allUserSessions st else the (ps v))"
  using assms(1,3) loadSessions_wellformed[OF assms(2)]
  by (auto simp: loadEffect_def malformed_def split: option.splits if_splits)



lemma loadUsers_idx_malformed:
  assumes "malformed pu ''registeredUsers'' storage"
  shows "loadUsers_idx pu st storage =
           (st\<lparr>currentUser := DEFAULT_GUEST_USER_PROFILE\<rparr>,
            removeItem ''lastActiveUserId'' (removeItem ''registeredUsers'' storage),
            [js ''Failed to load user data from localStorage''])"
  using assms by (auto simp: loadUsers_idx_def malformed_def Let_def split: option.splits)

lemma loadUsers_idx_wellformed:
  assumes "\<not> malformed pu ''registeredUsers'' storage"
  shows "snd (loadUsers_idx pu st storage) = (storage, [])"
  using assms
  by (auto simp: loadUsers_idx_def malformed_def Let_def split: option.splits)

lemma loadSettings_idx_malformed:
  assumes "malformed pset ''aiSettings'' storage"
  shows "loadSettings_idx pset st storage =
           (st, [js ''Failed to load AI settings from localStorage''])"
  using assms by (auto simp: loadSettings_idx_def malformed_def split: option.splits)

lemma loadSettings_idx_other_fields:
  "sessions_idx (fst (loadSettings_idx pset st storage)) = sessions_idx st \<and>
   activeSessionId (fst (loadSettings_idx pset st storage)) = activeSessionId st \<and>
   currentUser (fst (loadSettings_idx pset st storage)) = currentUser st"
  by (auto simp: loadSettings_idx_def split: option.splits)

lemma loadSessions_idx_storage:
  "map_of (fst (snd (loadSessions_idx pses now r st storage))) (js ''aiSettings'') =
   map_of storage (js ''aiSettings'')"
  using storage_keys_distinct(4)[of "user_id (currentUser r)"]
  by (auto simp: loadSessions_idx_def Let_def sessionsKey_def delete_conv'
      split: option.splits list.splits)

lemma loadSessions_idx_malformed:
  assumes "map_of storage (sessionsKey r) = Some v" "v \<noteq> []" "pses v = None"
  shows "loadSessions_idx pses now r st storage =
           (st\<lparr>sessions_idx := [newSession_idx now r],
               activeSessionId := Some (session_id (newSession_idx now r))\<rparr>,
            AList.delete (sessionsKey r) storage,
            [js ''Failed to load sessions from localStorage''])"
  using assms by (simp add: loadSessions_idx_def Let_def)

lemma loadSessions_idx_settings_free:
  "sessions_idx (fst (loadSessions_idx pses now r (st\<lparr>aiSettings := x\<rparr>) storage)) =
     sessions_idx (fst (loadSessions_idx pses now r st storage)) \<and>
   activeSessionId (fst (loadSessions_idx pses now r (st\<lparr>aiSettings := x\<rparr>) storage)) =
     activeSessionId (fst (loadSessions_idx pses now r st storage)) \<and>
   snd (loadSessions_idx pses now r (st\<lparr>aiSettings := x\<rparr>) storage) =
     snd (loadSessions_idx pses now r st storage) \<and>
   aiSettings (fst (loadSessions_idx pses now r st storage)) = aiSettings st"
  by (auto simp: loadSessions_idx_def Let_def split: option.splits list.splits)

lemma loadSettings_idx_shape:
  "fst (loadSettings_idx pset st storage) =
     st\<lparr>aiSettings := aiSettings (fst (loadSettings_idx pset st storage))\<rparr>"
  by (simp add: loadSettings_idx_def split: option.splits)

lemma loadBoth_idx_sessions:
  "sessions_idx (fst (loadSettingsAndSessions_idx pset pses now st storage)) =
     sessions_idx (fst (loadSessions_idx pses now st st storage)) \<and>
   activeSessionId (fst (loadSettingsAndSessions_idx pset pses now st storage)) =
     activeSessionId (fst (loadSessions_idx pses now st st storage)) \<and>
   fst (snd (loadSettingsAndSessions_idx pset pses now st storage)) =
     fst (snd (loadSessions_idx pses now st st storage)) \<and>
   aiSettings (fst (loadSettingsAndSessions_idx pset pses now st storage)) =
     aiSettings (fst (loadSettings_idx pset st storage)) \<and>
   snd (snd (loadSettingsAndSessions_idx pset pses now st storage)) =
     snd (loadSettings_idx pset st storage) @
     snd (snd (loadSessions_idx pses now st st storage))"
proof -
  define x where "x = aiSettings (fst (loadSettings_idx pset st storage))"
  define l where "l = snd (loadSettings_idx pset st storage)"
  have e: "loadSettings_idx pset st storage = (st\<lparr>aiSettings := x\<rparr>, l)"
    unfolding x_def l_def using loadSettings_idx_shape[of pset st storage]
    by (metis prod.collapse)
  obtain s2 g2 l2 where r: "loadSessions_idx pses now st (st\<lparr>aiSettings := x\<rparr>) storage = (s2, g2, l2)"
    by (cases "loadSessions_idx pses now st (st\<lparr>aiSettings := x\<rparr>) storage") auto
  have b: "loadSettingsAndSessions_idx pset pses now st storage = (s2, g2, l @ l2)"
    by (simp add: loadSettingsAndSessions_idx_def e r)
  from loadSessions_idx_settings_free[where pses=pses and now=now and r=st and st=st and x=x
        and storage=storage]
      loadSessions_idx_settings_free[where pses=pses and now=now and r=st
        and st="st\<lparr>aiSettings := x\<rparr>" and x=x and storage=storage]
  show ?thesis unfolding b e r by (auto simp: r) (metis fst_conv snd_conv)+
qed


section \<open>Claims\<close>

lemmas example_defs =
  appOf_def appOf_idx_def chatOf_def chatOf_idx_def ada_def js_def
  DEFAULT_AI_SETTINGS_def DEFAULT_GUEST_USER_PROFILE_def isGuest_def truthy_def
  sessions_def sessionsOf_def activeSessionOf_def activeSessionOf_idx_def
  updateSession_def deleteSession_def addSession_def archiveSession_def
  spread_def noUpdates_def trim_def isWhiteSpace_def autoTitle_def finalTitle_def
  newSession_def newSession_idx_def errorMessage_def greeting_def Let_def

subsection \<open>C3: the store is partitioned by owner\<close>

text \<open>
  C3. In every state of the session store that the application reaches, the sessions
  stored under an owner's key all have that owner as \<open>ownerId\<close>, and the
  collections of two different owners share no session identifier. The reachable
  states are those built from the empty store by \<open>addSession\<close> (with a fresh
  identifier), \<open>updateSession\<close> (with the fields the application passes),
  \<open>deleteSession\<close> and \<open>archiveSession\<close>, so each of the four preserves the
  partition.
\<close>

theorem store_partitioned:
  "reachable st \<Longrightarrow> ownedByKey st k \<and> (k1 \<noteq> k2 \<longrightarrow> disjointIds st k1 k2)"
proof -
  assume "reachable st"
  then have "partitioned st"
    by (induction rule: reachable.induct)
      (simp_all add: partitioned_empty partitioned_add partitioned_update partitioned_delete
        partitioned_archive)
  then show ?thesis by (simp add: partitioned_def)
qed

theorem store_partitioned_witness:
  "reachable
     (archiveSession (js ''a'') (js ''u1'') []
        (addSession ((chatOf ''b'' ''B'' False [])\<lparr>ownerId := js ''u2''\<rparr>)
           (addSession (chatOf ''a'' ''A'' False []) []))) \<and>
   ownedByKey
     (archiveSession (js ''a'') (js ''u1'') []
        (addSession ((chatOf ''b'' ''B'' False [])\<lparr>ownerId := js ''u2''\<rparr>)
           (addSession (chatOf ''a'' ''A'' False []) []))) (js ''u1'') \<and>
   js ''u1'' \<noteq> js ''u2'' \<and>
   disjointIds
     (archiveSession (js ''a'') (js ''u1'') []
        (addSession ((chatOf ''b'' ''B'' False [])\<lparr>ownerId := js ''u2''\<rparr>)
           (addSession (chatOf ''a'' ''A'' False []) []))) (js ''u1'') (js ''u2'')"
proof -
  have r0: "reachable (addSession (chatOf ''a'' ''A'' False []) [])"
    by (rule reach_add[OF reach_empty]) (simp add: allIds_def)
  have r1: "reachable (addSession ((chatOf ''b'' ''B'' False [])\<lparr>ownerId := js ''u2''\<rparr>)
           (addSession (chatOf ''a'' ''A'' False []) []))"
    by (rule reach_add[OF r0]) (simp add: allIds_def example_defs)
  have r2: "reachable (archiveSession (js ''a'') (js ''u1'') []
        (addSession ((chatOf ''b'' ''B'' False [])\<lparr>ownerId := js ''u2''\<rparr>)
           (addSession (chatOf ''a'' ''A'' False []) [])))"
    by (rule reach_archive[OF r1])
  have n: "js ''u1'' \<noteq> js ''u2''" by (simp add: js_def)
  from store_partitioned[OF r2, of "js ''u1''" "js ''u1''" "js ''u2''"] r2 n
  show ?thesis by simp
qed

subsection \<open>C10: committing a rename\<close>

text \<open>
  C10. A rename commit (\<open>handleTitleSave\<close> with a session being edited) sets the
  title of that session, in both variants, to the edited text with leading and
  trailing whitespace removed, or to \<open>Untitled Chat\<close> when the edited text is blank;
  the new title is never empty and never whitespace only.
\<close>

theorem rename_commit:
  "(editingSessionId st = Some e \<and> e \<noteq> [] \<longrightarrow>
      sessions (handleTitleSave st) =
        map (\<lambda>s. if session_id s = e then s\<lparr>title := finalTitle (editingTitle st)\<rparr> else s)
          (sessions st)) \<and>
   (editingSessionId sti = Some e \<and> e \<noteq> [] \<longrightarrow>
      sessions_idx (handleTitleSave_idx sti) =
        map (\<lambda>s. if session_id s = e then s\<lparr>title := finalTitle (editingTitle sti)\<rparr> else s)
          (sessions_idx sti)) \<and>
   finalTitle t \<noteq> [] \<and> \<not> list_all isWhiteSpace (finalTitle t) \<and>
   (if list_all isWhiteSpace t then finalTitle t = js ''Untitled Chat''
    else \<exists>pre post. t = pre @ finalTitle t @ post \<and>
           list_all isWhiteSpace pre \<and> list_all isWhiteSpace post \<and>
           \<not> isWhiteSpace (hd (finalTitle t)) \<and> \<not> isWhiteSpace (last (finalTitle t)))"
proof (intro conjI impI)
  assume "editingSessionId st = Some e \<and> e \<noteq> []"
  then show "sessions (handleTitleSave st) =
        map (\<lambda>s. if session_id s = e then s\<lparr>title := finalTitle (editingTitle st)\<rparr> else s)
          (sessions st)"
    by (simp add: handleTitleSave_def sessions_def updateSession_def sessionsOf_update spread_title)
next
  assume "editingSessionId sti = Some e \<and> e \<noteq> []"
  then show "sessions_idx (handleTitleSave_idx sti) =
        map (\<lambda>s. if session_id s = e then s\<lparr>title := finalTitle (editingTitle sti)\<rparr> else s)
          (sessions_idx sti)"
    by (simp add: handleTitleSave_idx_def)
next
  show ne: "finalTitle t \<noteq> []" by (simp add: finalTitle_def js_def)
  show "\<not> list_all isWhiteSpace (finalTitle t)"
  proof (cases "trim t = []")
    case True
    then show ?thesis using untitled_not_blank by (simp add: finalTitle_def)
  next
    case False
    with trim_ends[OF False] show ?thesis
      by (auto simp: finalTitle_def list_all_iff)
  qed
  show "if list_all isWhiteSpace t then finalTitle t = js ''Untitled Chat''
    else \<exists>pre post. t = pre @ finalTitle t @ post \<and>
           list_all isWhiteSpace pre \<and> list_all isWhiteSpace post \<and>
           \<not> isWhiteSpace (hd (finalTitle t)) \<and> \<not> isWhiteSpace (last (finalTitle t))"
  proof (cases "list_all isWhiteSpace t")
    case True
    then show ?thesis by (simp add: finalTitle_def trim_empty_iff)
  next
    case False
    then have n: "trim t \<noteq> []" by (simp add: trim_empty_iff)
    then have f: "finalTitle t = trim t" by (simp add: finalTitle_def)
    from trim_split[of t] trim_ends[OF n] False show ?thesis unfolding f by auto
  qed
qed

theorem rename_commit_witness:
  "editingSessionId ((appOf [chatOf ''a'' ''New Chat'' False []] ''a'')
       \<lparr>editingSessionId := Some (js ''a''), editingTitle := js '' Plan ''\<rparr>) = Some (js ''a'') \<and>
   js ''a'' \<noteq> [] \<and>
   map title (sessions (handleTitleSave ((appOf [chatOf ''a'' ''New Chat'' False []] ''a'')
       \<lparr>editingSessionId := Some (js ''a''), editingTitle := js '' Plan ''\<rparr>))) = [js ''Plan''] \<and>
   map title (sessions_idx (handleTitleSave_idx ((appOf_idx [chatOf_idx ''a'' ''New Chat'' False []] ''a'')
       \<lparr>editingSessionId := Some (js ''a''), editingTitle := js '' Plan ''\<rparr>))) = [js ''Plan''] \<and>
   \<not> list_all isWhiteSpace (js '' Plan '') \<and>
   finalTitle (js '' Plan '') = js ''Plan'' \<and>
   finalTitle (js ''  '') = js ''Untitled Chat''"
  using rename_commit[of "(appOf [chatOf ''a'' ''New Chat'' False []] ''a'')
       \<lparr>editingSessionId := Some (js ''a''), editingTitle := js '' Plan ''\<rparr>" "js ''a''"
       "(appOf_idx [chatOf_idx ''a'' ''New Chat'' False []] ''a'')
       \<lparr>editingSessionId := Some (js ''a''), editingTitle := js '' Plan ''\<rparr>" "js ''  ''"]
  by (simp add: example_defs)

subsection \<open>C1: the title after a send\<close>

text \<open>
  C1 as stated fails: a title the user typed before the first user message is
  replaced by the first send. Renaming the new chat \<open>a\<close> to \<open>Plan\<close> and then
  sending \<open>hello\<close> leaves the title \<open>hello\<close>, in both variants.
\<close>

theorem rename_before_first_send_is_overwritten:
  "map title (sessions (handleTitleSave ((appOf [chatOf ''a'' ''New Chat'' False []] ''a'')
       \<lparr>editingSessionId := Some (js ''a''), editingTitle := js ''Plan''\<rparr>))) = [js ''Plan''] \<and>
   map title (sessions (snd (handleSendMessage_begin
       ((handleTitleSave ((appOf [chatOf ''a'' ''New Chat'' False []] ''a'')
           \<lparr>editingSessionId := Some (js ''a''), editingTitle := js ''Plan''\<rparr>))
         \<lparr>inputValue := js ''hello''\<rparr>)))) = [js ''hello''] \<and>
   map title (sessions_idx (handleTitleSave_idx
       ((appOf_idx [chatOf_idx ''a'' ''New Chat'' False [greeting]] ''a'')
           \<lparr>editingSessionId := Some (js ''a''), editingTitle := js ''Plan''\<rparr>))) = [js ''Plan''] \<and>
   map title (sessions_idx (snd (handleSendMessage_begin_idx
       ((handleTitleSave_idx ((appOf_idx [chatOf_idx ''a'' ''New Chat'' False [greeting]] ''a'')
           \<lparr>editingSessionId := Some (js ''a''), editingTitle := js ''Plan''\<rparr>))
         \<lparr>inputValue := js ''hello''\<rparr>)))) = [js ''hello'']"
  by (simp add: example_defs handleTitleSave_def handleTitleSave_idx_def
      handleSendMessage_begin_def handleSendMessage_begin_idx_def)

text \<open>
  C1 (amended). When a send issues a request, the title of the active session
  afterwards is: if the session had no user message before, the sent text when it
  has at most 30 code units, and otherwise its first 30 code units followed by
  three full stops; if the session already had a user message, the title it had
  before. So a title typed after the first user message is never replaced by a
  send. Both variants.
\<close>

theorem send_title:
  "(fst (handleSendMessage_begin st) \<noteq> None \<longrightarrow>
      (\<exists>s s'. activeSessionOf st = Some s \<and>
         activeSessionOf (snd (handleSendMessage_begin st)) = Some s' \<and>
         title s' = (if list_ex (\<lambda>m. role m = User) (messages s) then title s
                     else if length (inputValue st) \<le> 30 then inputValue st
                     else take 30 (inputValue st) @ js ''...''))) \<and>
   (fst (handleSendMessage_begin_idx sti) \<noteq> None \<and> activeSessionOf_idx sti = Some si \<longrightarrow>
      (\<exists>si'. activeSessionOf_idx (snd (handleSendMessage_begin_idx sti)) = Some si' \<and>
         title si' = (if list_ex (\<lambda>m. role m = User) (messages si) then title si
                      else if length (inputValue sti) \<le> 30 then inputValue sti
                      else take 30 (inputValue sti) @ js ''...'')))"
proof (intro conjI impI)
  assume "fst (handleSendMessage_begin st) \<noteq> None"
  then obtain ctx where "handleSendMessage_begin st = (Some ctx, snd (handleSendMessage_begin st))"
    by (cases "handleSendMessage_begin st") auto
  with send_title_main[of st ctx "snd (handleSendMessage_begin st)"]
  show "\<exists>s s'. activeSessionOf st = Some s \<and>
         activeSessionOf (snd (handleSendMessage_begin st)) = Some s' \<and>
         title s' = (if list_ex (\<lambda>m. role m = User) (messages s) then title s
                     else if length (inputValue st) \<le> 30 then inputValue st
                     else take 30 (inputValue st) @ js ''...'')"
    by blast
next
  assume h: "fst (handleSendMessage_begin_idx sti) \<noteq> None \<and> activeSessionOf_idx sti = Some si"
  then obtain a where
    "handleSendMessage_begin_idx sti = (Some a, snd (handleSendMessage_begin_idx sti))"
    by (cases "handleSendMessage_begin_idx sti") auto
  with h send_title_idx[of sti a "snd (handleSendMessage_begin_idx sti)" si]
  show "\<exists>si'. activeSessionOf_idx (snd (handleSendMessage_begin_idx sti)) = Some si' \<and>
         title si' = (if list_ex (\<lambda>m. role m = User) (messages si) then title si
                      else if length (inputValue sti) \<le> 30 then inputValue sti
                      else take 30 (inputValue sti) @ js ''...'')"
    by blast
qed

theorem send_title_witness:
  "fst (handleSendMessage_begin
      ((appOf [chatOf ''a'' ''New Chat'' False []] ''a'')
         \<lparr>inputValue := js ''A message that is longer than thirty units''\<rparr>)) \<noteq> None \<and>
   (\<exists>s'. activeSessionOf (snd (handleSendMessage_begin
      ((appOf [chatOf ''a'' ''New Chat'' False []] ''a'')
         \<lparr>inputValue := js ''A message that is longer than thirty units''\<rparr>))) = Some s' \<and>
      title s' = js ''A message that is longer than ...'') \<and>
   fst (handleSendMessage_begin_idx
      ((appOf_idx [chatOf_idx ''a'' ''Plan'' False [\<lparr>role = User, msg_text = js ''hi''\<rparr>]] ''a'')
         \<lparr>inputValue := js ''hello''\<rparr>)) \<noteq> None \<and>
   (\<exists>si'. activeSessionOf_idx (snd (handleSendMessage_begin_idx
      ((appOf_idx [chatOf_idx ''a'' ''Plan'' False [\<lparr>role = User, msg_text = js ''hi''\<rparr>]] ''a'')
         \<lparr>inputValue := js ''hello''\<rparr>))) = Some si' \<and> title si' = js ''Plan'')"
proof -
  let ?st = "(appOf [chatOf ''a'' ''New Chat'' False []] ''a'')
         \<lparr>inputValue := js ''A message that is longer than thirty units''\<rparr>"
  let ?sti = "(appOf_idx [chatOf_idx ''a'' ''Plan'' False [\<lparr>role = User, msg_text = js ''hi''\<rparr>]] ''a'')
         \<lparr>inputValue := js ''hello''\<rparr>"
  have b: "fst (handleSendMessage_begin ?st) \<noteq> None"
    by (simp add: example_defs handleSendMessage_begin_def)
  have bi: "fst (handleSendMessage_begin_idx ?sti) \<noteq> None"
    by (simp add: example_defs handleSendMessage_begin_idx_def)
  have a: "activeSessionOf ?st = Some (chatOf ''a'' ''New Chat'' False [])"
    by (simp add: example_defs)
  have ai: "activeSessionOf_idx ?sti =
      Some (chatOf_idx ''a'' ''Plan'' False [\<lparr>role = User, msg_text = js ''hi''\<rparr>])"
    by (simp add: example_defs)
  from send_title[of ?st ?sti "chatOf_idx ''a'' ''Plan'' False [\<lparr>role = User, msg_text = js ''hi''\<rparr>]"]
    b bi a ai
  show ?thesis by (auto simp add: chatOf_def chatOf_idx_def js_def)
qed

subsection \<open>C8: a failed completion request\<close>



subsection \<open>C4: deleting the active session\<close>

text \<open>
  C4 as stated fails: the replacement after a delete is the first remaining
  session, archived or not. With the sessions \<open>a\<close> (active), \<open>b\<close> (archived) and
  \<open>c\<close>, deleting \<open>a\<close> makes the archived \<open>b\<close> active although \<open>c\<close> is the first
  remaining session that is not archived. Both variants.
\<close>

theorem delete_selects_archived_session:
  "activeSessionId (handleDeleteSession (js ''a'') True (js ''n'')
      (appOf [chatOf ''a'' ''A'' False [], chatOf ''b'' ''B'' True [], chatOf ''c'' ''C'' False []]
         ''a'')) = Some (js ''b'') \<and>
   map_option isArchived (activeSessionOf (handleDeleteSession (js ''a'') True (js ''n'')
      (appOf [chatOf ''a'' ''A'' False [], chatOf ''b'' ''B'' True [], chatOf ''c'' ''C'' False []]
         ''a''))) = Some True \<and>
   map session_id (filter (\<lambda>s. \<not> isArchived s) (sessions (handleDeleteSession (js ''a'') True
      (js ''n'')
      (appOf [chatOf ''a'' ''A'' False [], chatOf ''b'' ''B'' True [], chatOf ''c'' ''C'' False []]
         ''a'')))) = [js ''c''] \<and>
   map_option activeSessionId (handleDeleteSession_idx (js ''a'') True
      (appOf_idx [chatOf_idx ''a'' ''A'' False [], chatOf_idx ''b'' ''B'' True [],
                  chatOf_idx ''c'' ''C'' False []] ''a'')) = Some (Some (js ''b''))"
  by (simp add: example_defs handleDeleteSession_def handleDeleteSession_idx_def)

text \<open>
  C4 (amended). When the active session is deleted, the first remaining session of
  the list becomes active, whether it is archived or not; in the consolidated
  variant, when no session remains a fresh session is created and made active, and
  afterwards the active identifier refers to a session of the current user. In
  \<^verbatim>\<open>index.tsx\<close> the same holds whenever a session remains.
\<close>

theorem delete_active_replacement:
  "(activeSessionId st = Some sid \<longrightarrow>
      (case filter (\<lambda>s. session_id s \<noteq> sid) (sessions st) of
         first # rest \<Rightarrow>
           activeSessionId (handleDeleteSession sid True uuid st) = Some (session_id first) \<and>
           sessions (handleDeleteSession sid True uuid st) = first # rest
       | [] \<Rightarrow>
           activeSessionId (handleDeleteSession sid True uuid st) = Some uuid \<and>
           sessions (handleDeleteSession sid True uuid st) = [newSession uuid st]) \<and>
      activeSessionOf (handleDeleteSession sid True uuid st) \<noteq> None) \<and>
   (activeSessionId sti = Some sid \<and>
    filter (\<lambda>s. session_id s \<noteq> sid) (sessions_idx sti) = first # rest \<longrightarrow>
      (\<exists>sti'. handleDeleteSession_idx sid True sti = Some sti' \<and>
         activeSessionId sti' = Some (session_id first) \<and>
         sessions_idx sti' = first # rest \<and> activeSessionOf_idx sti' \<noteq> None))"
proof (intro conjI impI)
  assume a: "activeSessionId st = Some sid"
  from delete_active_main[OF a, of uuid]
  show "(case filter (\<lambda>s. session_id s \<noteq> sid) (sessions st) of
         first # rest \<Rightarrow>
           activeSessionId (handleDeleteSession sid True uuid st) = Some (session_id first) \<and>
           sessions (handleDeleteSession sid True uuid st) = first # rest
       | [] \<Rightarrow>
           activeSessionId (handleDeleteSession sid True uuid st) = Some uuid \<and>
           sessions (handleDeleteSession sid True uuid st) = [newSession uuid st])"
    by (rule conjunct1)
  from delete_active_main[OF a, of uuid]
  show "activeSessionOf (handleDeleteSession sid True uuid st) \<noteq> None"
    by (rule conjunct2)
next
  assume "activeSessionId sti = Some sid \<and>
    filter (\<lambda>s. session_id s \<noteq> sid) (sessions_idx sti) = first # rest"
  then show "\<exists>sti'. handleDeleteSession_idx sid True sti = Some sti' \<and>
         activeSessionId sti' = Some (session_id first) \<and>
         sessions_idx sti' = first # rest \<and> activeSessionOf_idx sti' \<noteq> None"
    using delete_active_idx[of sti sid first rest] by blast
qed

theorem delete_active_replacement_witness:
  "activeSessionId (appOf [chatOf ''a'' ''A'' False []] ''a'') = Some (js ''a'') \<and>
   activeSessionId (handleDeleteSession (js ''a'') True (js ''n'')
      (appOf [chatOf ''a'' ''A'' False []] ''a'')) = Some (js ''n'') \<and>
   map session_id (sessions (handleDeleteSession (js ''a'') True (js ''n'')
      (appOf [chatOf ''a'' ''A'' False []] ''a''))) = [js ''n''] \<and>
   activeSessionOf (handleDeleteSession (js ''a'') True (js ''n'')
      (appOf [chatOf ''a'' ''A'' False []] ''a'')) \<noteq> None \<and>
   activeSessionId (appOf_idx [chatOf_idx ''a'' ''A'' False [], chatOf_idx ''b'' ''B'' True []] ''a'')
      = Some (js ''a'') \<and>
   filter (\<lambda>s. session_id s \<noteq> js ''a'')
      (sessions_idx (appOf_idx [chatOf_idx ''a'' ''A'' False [], chatOf_idx ''b'' ''B'' True []] ''a''))
      = chatOf_idx ''b'' ''B'' True [] # [] \<and>
   (\<exists>sti'. handleDeleteSession_idx (js ''a'') True
        (appOf_idx [chatOf_idx ''a'' ''A'' False [], chatOf_idx ''b'' ''B'' True []] ''a'') = Some sti' \<and>
      activeSessionId sti' = Some (js ''b'') \<and> activeSessionOf_idx sti' \<noteq> None)"
proof -
  let ?st = "appOf [chatOf ''a'' ''A'' False []] ''a''"
  let ?sti = "appOf_idx [chatOf_idx ''a'' ''A'' False [], chatOf_idx ''b'' ''B'' True []] ''a''"
  have a: "activeSessionId ?st = Some (js ''a'')" by (simp add: appOf_def)
  have f: "filter (\<lambda>s. session_id s \<noteq> js ''a'') (sessions ?st) = []"
    by (simp add: example_defs)
  have ai: "activeSessionId ?sti = Some (js ''a'')" by (simp add: appOf_idx_def)
  have fi: "filter (\<lambda>s. session_id s \<noteq> js ''a'') (sessions_idx ?sti) = chatOf_idx ''b'' ''B'' True [] # []"
    by (simp add: example_defs)
  have n: "session_id (newSession (js ''n'') ?st) = js ''n''" by (simp add: newSession_def)
  have b: "session_id (chatOf_idx ''b'' ''B'' True []) = js ''b''" by (simp add: chatOf_idx_def)
  from delete_active_replacement[of ?st "js ''a''" "js ''n''" ?sti "chatOf_idx ''b'' ''B'' True []" "[]"]
    a f ai fi n b
  show ?thesis by auto
qed

subsection \<open>C5: archiving the active session\<close>

text \<open>
  C5. When the active session is archived (its flag toggled) while archived sessions
  are hidden, the first remaining session that is not archived becomes active; when
  there is none, a fresh session is created and made active. In every case the
  active identifier afterwards refers to a session in the list. Both variants; in
  \<^verbatim>\<open>index.tsx\<close> the fresh session replaces the whole list.
\<close>

theorem archive_active_replacement:
  "(activeSessionId st = Some sid \<and> \<not> showArchivedSessions st \<longrightarrow>
      (case filter (\<lambda>s. session_id s \<noteq> sid \<and> \<not> isArchived s) (sessions st) of
         first # rest \<Rightarrow>
           activeSessionId (handleArchiveSession sid uuid st) = Some (session_id first)
       | [] \<Rightarrow>
           activeSessionId (handleArchiveSession sid uuid st) = Some uuid \<and>
           last (sessions (handleArchiveSession sid uuid st)) = newSession uuid st \<and>
           length (sessions (handleArchiveSession sid uuid st)) = Suc (length (sessions st))) \<and>
      activeSessionOf (handleArchiveSession sid uuid st) \<noteq> None) \<and>
   (activeSessionId sti = Some sid \<and> \<not> showArchivedSessions sti \<longrightarrow>
      (case filter (\<lambda>s. session_id s \<noteq> sid \<and> \<not> isArchived s) (sessions_idx sti) of
         first # rest \<Rightarrow>
           activeSessionId (handleArchiveSession_idx sid now sti) = Some (session_id first)
       | [] \<Rightarrow>
           activeSessionId (handleArchiveSession_idx sid now sti) = Some now \<and>
           sessions_idx (handleArchiveSession_idx sid now sti) = [newSession_idx now sti]) \<and>
      activeSessionOf_idx (handleArchiveSession_idx sid now sti) \<noteq> None)"
proof (intro conjI impI)
  assume h: "activeSessionId st = Some sid \<and> \<not> showArchivedSessions st"
  from archive_active_main[of st sid uuid] h
  show "(case filter (\<lambda>s. session_id s \<noteq> sid \<and> \<not> isArchived s) (sessions st) of
         first # rest \<Rightarrow>
           activeSessionId (handleArchiveSession sid uuid st) = Some (session_id first)
       | [] \<Rightarrow>
           activeSessionId (handleArchiveSession sid uuid st) = Some uuid \<and>
           last (sessions (handleArchiveSession sid uuid st)) = newSession uuid st \<and>
           length (sessions (handleArchiveSession sid uuid st)) = Suc (length (sessions st)))"
    by blast
  from archive_active_main[of st sid uuid] h
  show "activeSessionOf (handleArchiveSession sid uuid st) \<noteq> None" by blast
next
  assume h: "activeSessionId sti = Some sid \<and> \<not> showArchivedSessions sti"
  from archive_active_idx[of sti sid now] h
  show "(case filter (\<lambda>s. session_id s \<noteq> sid \<and> \<not> isArchived s) (sessions_idx sti) of
         first # rest \<Rightarrow>
           activeSessionId (handleArchiveSession_idx sid now sti) = Some (session_id first)
       | [] \<Rightarrow>
           activeSessionId (handleArchiveSession_idx sid now sti) = Some now \<and>
           sessions_idx (handleArchiveSession_idx sid now sti) = [newSession_idx now sti])"
    by blast
  from archive_active_idx[of sti sid now] h
  show "activeSessionOf_idx (handleArchiveSession_idx sid now sti) \<noteq> None" by blast
qed

theorem archive_active_replacement_witness:
  "activeSessionId
      (appOf [chatOf ''a'' ''A'' False [], chatOf ''b'' ''B'' True [], chatOf ''c'' ''C'' False []] ''a'')
      = Some (js ''a'') \<and>
   \<not> showArchivedSessions
      (appOf [chatOf ''a'' ''A'' False [], chatOf ''b'' ''B'' True [], chatOf ''c'' ''C'' False []] ''a'') \<and>
   activeSessionId (handleArchiveSession (js ''a'') (js ''n'')
      (appOf [chatOf ''a'' ''A'' False [], chatOf ''b'' ''B'' True [], chatOf ''c'' ''C'' False []] ''a''))
      = Some (js ''c'') \<and>
   activeSessionOf (handleArchiveSession (js ''a'') (js ''n'')
      (appOf [chatOf ''a'' ''A'' False [], chatOf ''b'' ''B'' True [], chatOf ''c'' ''C'' False []] ''a''))
      \<noteq> None \<and>
   activeSessionId (appOf_idx [chatOf_idx ''a'' ''A'' False [], chatOf_idx ''b'' ''B'' True []] ''a'')
      = Some (js ''a'') \<and>
   \<not> showArchivedSessions
      (appOf_idx [chatOf_idx ''a'' ''A'' False [], chatOf_idx ''b'' ''B'' True []] ''a'') \<and>
   activeSessionId (handleArchiveSession_idx (js ''a'') (js ''n'')
      (appOf_idx [chatOf_idx ''a'' ''A'' False [], chatOf_idx ''b'' ''B'' True []] ''a''))
      = Some (js ''n'') \<and>
   map session_id (sessions_idx (handleArchiveSession_idx (js ''a'') (js ''n'')
      (appOf_idx [chatOf_idx ''a'' ''A'' False [], chatOf_idx ''b'' ''B'' True []] ''a''))) = [js ''n''] \<and>
   activeSessionOf_idx (handleArchiveSession_idx (js ''a'') (js ''n'')
      (appOf_idx [chatOf_idx ''a'' ''A'' False [], chatOf_idx ''b'' ''B'' True []] ''a'')) \<noteq> None"
proof -
  let ?st = "appOf [chatOf ''a'' ''A'' False [], chatOf ''b'' ''B'' True [], chatOf ''c'' ''C'' False []] ''a''"
  let ?sti = "appOf_idx [chatOf_idx ''a'' ''A'' False [], chatOf_idx ''b'' ''B'' True []] ''a''"
  have a: "activeSessionId ?st = Some (js ''a'') \<and> \<not> showArchivedSessions ?st"
    by (simp add: appOf_def)
  have f: "filter (\<lambda>s. session_id s \<noteq> js ''a'' \<and> \<not> isArchived s) (sessions ?st)
      = [chatOf ''c'' ''C'' False []]"
    by (simp add: example_defs)
  have ai: "activeSessionId ?sti = Some (js ''a'') \<and> \<not> showArchivedSessions ?sti"
    by (simp add: appOf_idx_def)
  have fi: "filter (\<lambda>s. session_id s \<noteq> js ''a'' \<and> \<not> isArchived s) (sessions_idx ?sti) = []"
    by (simp add: example_defs)
  have c: "session_id (chatOf ''c'' ''C'' False []) = js ''c''" by (simp add: chatOf_def)
  have n: "session_id (newSession_idx (js ''n'') ?sti) = js ''n''" by (simp add: newSession_idx_def)
  from archive_active_replacement[of ?st "js ''a''" "js ''n''" ?sti "js ''n''"] a f ai fi c n
  show ?thesis by auto
qed

subsection \<open>C6: register or login\<close>

text \<open>
  C6 as stated fails for a blank username: on an empty roster no profile has the
  username, yet none is created; the dialog reports an error. Both variants.
\<close>

theorem blank_username_registers_nobody:
  "existingUser asciiLower (trim (js ''  '')) (registeredUsers ((appOf [] ''a'')\<lparr>registeredUsers := []\<rparr>))
     = None \<and>
   handleLoginRegister asciiLower (js ''u2'') (js ''  '') False
     ((appOf [] ''a'')\<lparr>registeredUsers := []\<rparr>) = Inl (js ''Username cannot be empty.'') \<and>
   handleLoginRegister_idx asciiLower (js ''u2'') (js ''  '') False
     ((appOf_idx [] ''a'')\<lparr>registeredUsers := []\<rparr>) = Inl (js ''Username cannot be empty.'')"
  by (simp add: handleLoginRegister_def handleLoginRegister_idx_def existingUser_def
      trim_def isWhiteSpace_def js_def appOf_def appOf_idx_def)

text \<open>
  C6 (amended). A username that is blank after trimming is rejected and nothing
  changes. Otherwise the trimmed username is looked up in the roster, comparing
  lower-cased names. If a profile is found, it is a profile of the roster whose
  lower-cased name is the lower-cased trimmed input; it becomes the current user as
  it is (the supplied verified flag is not used) and the roster is unchanged. If
  none is found, a profile with the trimmed name, the supplied flag and the fresh
  identifier is appended to the roster and becomes the current user. After a
  successful call, a second call with the same username on any state with that
  roster logs into a profile of the roster and leaves the roster unchanged.
  Both variants; \<open>lc\<close> is \<open>toLowerCase\<close>.
\<close>

theorem register_or_login:
  "(trim u = [] \<longrightarrow>
      handleLoginRegister lc uuid u v st = Inl (js ''Username cannot be empty.'') \<and>
      handleLoginRegister_idx lc uuid u v st = Inl (js ''Username cannot be empty.'')) \<and>
   (trim u \<noteq> [] \<and> existingUser lc (trim u) (registeredUsers st) = Some p \<longrightarrow>
      p \<in> set (registeredUsers st) \<and> lc (username p) = lc (trim u) \<and>
      (\<exists>st' sti'. handleLoginRegister lc uuid u v st = Inr st' \<and>
         handleLoginRegister_idx lc uuid u v st = Inr sti' \<and>
         currentUser st' = p \<and> registeredUsers st' = registeredUsers st \<and>
         currentUser sti' = p \<and> registeredUsers sti' = registeredUsers st)) \<and>
   (trim u \<noteq> [] \<and> existingUser lc (trim u) (registeredUsers st) = None \<and>
    uuid \<notin> user_id ` set (registeredUsers st) \<longrightarrow>
      (\<forall>q \<in> set (registeredUsers st). lc (username q) \<noteq> lc (trim u)) \<and>
      (\<exists>st' sti'. handleLoginRegister lc uuid u v st = Inr st' \<and>
         handleLoginRegister_idx lc uuid u v st = Inr sti' \<and>
         currentUser st' = newUserProfile uuid (trim u) v \<and>
         registeredUsers st' = registeredUsers st @ [newUserProfile uuid (trim u) v] \<and>
         currentUser sti' = newUserProfile uuid (trim u) v \<and>
         registeredUsers sti' = registeredUsers st @ [newUserProfile uuid (trim u) v])) \<and>
   ((handleLoginRegister lc uuid u v st = Inr st1 \<or>
     handleLoginRegister_idx lc uuid u v st = Inr st1) \<and>
    registeredUsers st2 = registeredUsers st1 \<longrightarrow>
      (\<exists>st3 sti3 q. handleLoginRegister lc uuid2 u v2 st2 = Inr st3 \<and>
         handleLoginRegister_idx lc uuid2 u v2 st2 = Inr sti3 \<and>
         q \<in> set (registeredUsers st1) \<and> lc (username q) = lc (trim u) \<and>
         currentUser st3 = q \<and> registeredUsers st3 = registeredUsers st1 \<and>
         currentUser sti3 = q \<and> registeredUsers sti3 = registeredUsers st1))"
proof (intro conjI impI)
  assume "trim u = []"
  then show "handleLoginRegister lc uuid u v st = Inl (js ''Username cannot be empty.'')"
    and "handleLoginRegister_idx lc uuid u v st = Inl (js ''Username cannot be empty.'')"
    using register_blank[of u lc uuid v st] by simp_all
next
  assume h: "trim u \<noteq> [] \<and> existingUser lc (trim u) (registeredUsers st) = Some p"
  then show "p \<in> set (registeredUsers st)" and "lc (username p) = lc (trim u)"
    using existingUser_SomeD[of lc "trim u" "registeredUsers st" p] by simp_all
  from h show "\<exists>st' sti'. handleLoginRegister lc uuid u v st = Inr st' \<and>
         handleLoginRegister_idx lc uuid u v st = Inr sti' \<and>
         currentUser st' = p \<and> registeredUsers st' = registeredUsers st \<and>
         currentUser sti' = p \<and> registeredUsers sti' = registeredUsers st"
    using register_existing[of u lc st p uuid v] by simp
next
  assume h: "trim u \<noteq> [] \<and> existingUser lc (trim u) (registeredUsers st) = None \<and>
    uuid \<notin> user_id ` set (registeredUsers st)"
  then show "\<forall>q \<in> set (registeredUsers st). lc (username q) \<noteq> lc (trim u)"
    using existingUser_found[of _ "registeredUsers st" lc "trim u"] by blast
  from h show "\<exists>st' sti'. handleLoginRegister lc uuid u v st = Inr st' \<and>
         handleLoginRegister_idx lc uuid u v st = Inr sti' \<and>
         currentUser st' = newUserProfile uuid (trim u) v \<and>
         registeredUsers st' = registeredUsers st @ [newUserProfile uuid (trim u) v] \<and>
         currentUser sti' = newUserProfile uuid (trim u) v \<and>
         registeredUsers sti' = registeredUsers st @ [newUserProfile uuid (trim u) v]"
    using register_new[of u lc st uuid v] by simp
next
  assume h: "(handleLoginRegister lc uuid u v st = Inr st1 \<or>
     handleLoginRegister_idx lc uuid u v st = Inr st1) \<and>
    registeredUsers st2 = registeredUsers st1"
  then show "\<exists>st3 sti3 q. handleLoginRegister lc uuid2 u v2 st2 = Inr st3 \<and>
         handleLoginRegister_idx lc uuid2 u v2 st2 = Inr sti3 \<and>
         q \<in> set (registeredUsers st1) \<and> lc (username q) = lc (trim u) \<and>
         currentUser st3 = q \<and> registeredUsers st3 = registeredUsers st1 \<and>
         currentUser sti3 = q \<and> registeredUsers sti3 = registeredUsers st1"
    using register_twice[of lc uuid u v st st1 st2 uuid2 v2] by simp
qed

theorem register_or_login_witness:
  "trim (js '' Ada '') \<noteq> [] \<and>
   existingUser asciiLower (trim (js '' Ada '')) (registeredUsers (appOf [] ''a'')) = Some ada \<and>
   (\<exists>st'. handleLoginRegister asciiLower (js ''u2'') (js '' Ada '') True (appOf [] ''a'') = Inr st' \<and>
      currentUser st' = ada \<and> registeredUsers st' = [ada]) \<and>
   trim (js ''Bob'') \<noteq> [] \<and>
   existingUser asciiLower (trim (js ''Bob'')) (registeredUsers (appOf [] ''a'')) = None \<and>
   js ''u2'' \<notin> user_id ` set (registeredUsers (appOf [] ''a'')) \<and>
   (\<exists>st'. handleLoginRegister asciiLower (js ''u2'') (js ''Bob'') False (appOf [] ''a'') = Inr st' \<and>
      currentUser st' = newUserProfile (js ''u2'') (js ''Bob'') False \<and>
      registeredUsers st' = [ada, newUserProfile (js ''u2'') (js ''Bob'') False]) \<and>
   handleLoginRegister asciiLower (js ''u2'') (js ''Bob'') False (appOf [] ''a'') =
     Inr ((loginUser (newUserProfile (js ''u2'') (js ''Bob'') False)
            (updateUserProfile (newUserProfile (js ''u2'') (js ''Bob'') False) (appOf [] ''a'')))
          \<lparr>isLoginRegisterModalOpen := False\<rparr>) \<and>
   (\<exists>st3. handleLoginRegister asciiLower (js ''u3'') (js ''Bob'') True
        (logoutUser ((loginUser (newUserProfile (js ''u2'') (js ''Bob'') False)
            (updateUserProfile (newUserProfile (js ''u2'') (js ''Bob'') False) (appOf [] ''a'')))
          \<lparr>isLoginRegisterModalOpen := False\<rparr>)) = Inr st3 \<and>
      registeredUsers st3 = [ada, newUserProfile (js ''u2'') (js ''Bob'') False] \<and>
      currentUser st3 = newUserProfile (js ''u2'') (js ''Bob'') False)"
proof -
  let ?st = "appOf [] ''a''"
  let ?bob = "newUserProfile (js ''u2'') (js ''Bob'') False"
  let ?st1 = "(loginUser ?bob (updateUserProfile ?bob ?st))\<lparr>isLoginRegisterModalOpen := False\<rparr>"
  have t1: "trim (js '' Ada '') = js ''Ada''" and t2: "trim (js ''Bob'') = js ''Bob''"
    by (simp_all add: trim_def isWhiteSpace_def js_def)
  have n1: "js ''Ada'' \<noteq> []" and n2: "js ''Bob'' \<noteq> []" by (simp_all add: js_def)
  have r: "registeredUsers ?st = [ada]" by (simp add: appOf_def)
  have e1: "existingUser asciiLower (js ''Ada'') [ada] = Some ada"
    by (simp add: existingUser_def asciiLower_def ada_def js_def)
  have e2: "existingUser asciiLower (js ''Bob'') [ada] = None"
    by (simp add: existingUser_def asciiLower_def ada_def js_def)
  have f: "js ''u2'' \<notin> user_id ` set [ada]" by (simp add: ada_def js_def)
  have h1: "handleLoginRegister asciiLower (js ''u2'') (js ''Bob'') False ?st = Inr ?st1"
    by (simp add: handleLoginRegister_def Let_def t2 r e2 n2)
  have r1: "registeredUsers ?st1 = [ada, ?bob]"
    using f by (simp add: loginUser_def updateUserProfile_def r newUserProfile_def)
  have r2: "registeredUsers (logoutUser ?st1) = registeredUsers ?st1"
    by (simp add: logoutUser_def)
  have e3: "existingUser asciiLower (js ''Bob'') [ada, ?bob] = Some ?bob"
    by (simp add: existingUser_def asciiLower_def ada_def newUserProfile_def js_def)
  from register_or_login[where u="js '' Ada ''" and lc=asciiLower and uuid="js ''u2''" and v=True
      and st="?st" and p=ada and ?st1.0="?st" and ?st2.0="?st" and ?uuid2.0="js ''u3''" and ?v2.0=True]
  have a: "\<exists>st'. handleLoginRegister asciiLower (js ''u2'') (js '' Ada '') True ?st = Inr st' \<and>
      currentUser st' = ada \<and> registeredUsers st' = [ada]"
    unfolding t1 r using e1 n1 by auto
  from register_or_login[where u="js ''Bob''" and lc=asciiLower and uuid="js ''u2''" and v=False
      and st="?st" and p=ada and ?st1.0="?st" and ?st2.0="?st" and ?uuid2.0="js ''u3''" and ?v2.0=True]
  have b: "\<exists>st'. handleLoginRegister asciiLower (js ''u2'') (js ''Bob'') False ?st = Inr st' \<and>
      currentUser st' = ?bob \<and> registeredUsers st' = [ada, ?bob]"
    unfolding t2 r using e2 f n2 by auto
  from register_or_login[where u="js ''Bob''" and lc=asciiLower and uuid="js ''u2''" and v=False
      and st="?st" and p=ada and ?st1.0="?st1" and ?st2.0="logoutUser ?st1"
      and ?uuid2.0="js ''u3''" and ?v2.0=True] h1 r2
  obtain st3 q where c: "handleLoginRegister asciiLower (js ''u3'') (js ''Bob'') True (logoutUser ?st1) = Inr st3"
    "currentUser st3 = q" "registeredUsers st3 = registeredUsers ?st1"
    by blast
  have "handleLoginRegister asciiLower (js ''u3'') (js ''Bob'') True (logoutUser ?st1)
      = Inr ((loginUser ?bob (logoutUser ?st1))\<lparr>isLoginRegisterModalOpen := False\<rparr>)"
    by (simp add: handleLoginRegister_def Let_def t2 r2 r1 e3 n2)
  with c r1 have d: "\<exists>st3. handleLoginRegister asciiLower (js ''u3'') (js ''Bob'') True (logoutUser ?st1) = Inr st3 \<and>
      registeredUsers st3 = [ada, ?bob] \<and> currentUser st3 = ?bob"
    by (auto simp: loginUser_def)
  from a b d h1 show ?thesis unfolding t1 t2 r using e1 e2 f n1 n2 by simp
qed

subsection \<open>C2: the share link round trip\<close>

text \<open>
  C2, as stated, fails on two inputs. A title holding the euro sign (a code unit
  above U+00FF) has no share export: \<open>btoa\<close> throws and the modal shows an error
  text instead of a link. The export of an empty title exists, and the effect of
  \<^verbatim>\<open>index.tsx\<close> decodes it to the normal application, because it takes a
  shared view only when \<open>parsedData.title\<close> is truthy.
\<close>

theorem share_link_missing_or_rejected:
  "shareEncode [0x20AC, 0x35] [\<lparr>role = User, msg_text = [0x20AC, 0x35]\<rparr>] = None \<and>
   shareEncode [] [] = Some (js ''eyJ0aXRsZSI6IiIsIm1lc3NhZ2VzIjpbXX0='') \<and>
   shareViewEffect_idx (getView (js ''eyJ0aXRsZSI6IiIsIm1lc3NhZ2VzIjpbXX0='')) = NotShared"
proof -
  have a: "shareEncode [0x20AC, 0x35] [\<lparr>role = User, msg_text = [0x20AC, 0x35]\<rparr>] = None"
    by code_simp
  have b: "shareEncode [] [] = Some (js ''eyJ0aXRsZSI6IiIsIm1lc3NhZ2VzIjpbXX0='')"
    by code_simp
  have c: "0x2B \<notin> set (js ''eyJ0aXRsZSI6IiIsIm1lc3NhZ2VzIjpbXX0='')"
    by (simp add: js_def)
  have "shareViewEffect_idx (getView (js ''eyJ0aXRsZSI6IiIsIm1lc3NhZ2VzIjpbXX0='')) = NotShared"
    using shareViewEffect_idx_encoded [OF b] by (simp add: getView_plain [OF c])
  with a b show ?thesis by simp
qed

text \<open>
  C2 (amended): whenever the share export of a title and a message sequence
  exists and its base64 text holds no \<open>+\<close>, decoding the link reproduces exactly
  that title and those messages, in order; the effect of \<^verbatim>\<open>index.tsx\<close> does so
  for every non-empty title and takes the link of an empty title for no shared
  view. The export exists at least when every code unit of the title and of the
  message texts is at most U+00FF.
\<close>

theorem share_roundtrip:
  "(list_all (\<lambda>c. c \<le> 0xFF) t \<and> list_all (\<lambda>m. list_all (\<lambda>c. c \<le> 0xFF) (msg_text m)) ms
      \<longrightarrow> shareEncode t ms \<noteq> None) \<and>
   (shareEncode t ms = Some blob \<and> 0x2B \<notin> set blob \<longrightarrow>
      shareViewEffect (getView blob) = Shared t ms \<and>
      shareViewEffect_idx (getView blob) = (if t = [] then NotShared else Shared t ms))"
  by (simp add: shareEncode_latin1 getView_plain shareViewEffect_encoded
      shareViewEffect_idx_encoded)

theorem share_roundtrip_witness:
  "list_all (\<lambda>c. c \<le> 0xFF) (js ''Hi'') \<and>
   list_all (\<lambda>m. list_all (\<lambda>c. c \<le> 0xFF) (msg_text m))
     [\<lparr>role = User, msg_text = js ''hello''\<rparr>] \<and>
   shareEncode (js ''Hi'') [\<lparr>role = User, msg_text = js ''hello''\<rparr>] =
     Some (js ''eyJ0aXRsZSI6IkhpIiwibWVzc2FnZXMiOlt7InJvbGUiOiJ1c2VyIiwidGV4dCI6ImhlbGxvIn1dfQ=='') \<and>
   shareViewEffect
     (getView (js ''eyJ0aXRsZSI6IkhpIiwibWVzc2FnZXMiOlt7InJvbGUiOiJ1c2VyIiwidGV4dCI6ImhlbGxvIn1dfQ=='')) =
     Shared (js ''Hi'') [\<lparr>role = User, msg_text = js ''hello''\<rparr>] \<and>
   shareViewEffect_idx
     (getView (js ''eyJ0aXRsZSI6IkhpIiwibWVzc2FnZXMiOlt7InJvbGUiOiJ1c2VyIiwidGV4dCI6ImhlbGxvIn1dfQ=='')) =
     Shared (js ''Hi'') [\<lparr>role = User, msg_text = js ''hello''\<rparr>]"
proof -
  have enc: "shareEncode (js ''Hi'') [\<lparr>role = User, msg_text = js ''hello''\<rparr>] =
      Some (js ''eyJ0aXRsZSI6IkhpIiwibWVzc2FnZXMiOlt7InJvbGUiOiJ1c2VyIiwidGV4dCI6ImhlbGxvIn1dfQ=='')"
    by code_simp
  have plus: "0x2B \<notin>
      set (js ''eyJ0aXRsZSI6IkhpIiwibWVzc2FnZXMiOlt7InJvbGUiOiJ1c2VyIiwidGV4dCI6ImhlbGxvIn1dfQ=='')"
    by (simp add: js_def)
  have t: "js ''Hi'' \<noteq> []"
    by (simp add: js_def)
  have l: "list_all (\<lambda>c. c \<le> 0xFF) (js ''Hi'')"
    "list_all (\<lambda>m. list_all (\<lambda>c. c \<le> 0xFF) (msg_text m))
       [\<lparr>role = User, msg_text = js ''hello''\<rparr>]"
    by (simp_all add: js_latin1)
  show ?thesis
    using share_roundtrip [of "js ''Hi''" "[\<lparr>role = User, msg_text = js ''hello''\<rparr>]"
        "js ''eyJ0aXRsZSI6IkhpIiwibWVzc2FnZXMiOlt7InJvbGUiOiJ1c2VyIiwidGV4dCI6ImhlbGxvIn1dfQ==''"]
      enc plus t l
    by simp
qed

subsection \<open>C7: a missing API credential\<close>

text \<open>
  C7 as stated fails on \<^verbatim>\<open>index.tsx\<close>: without a key, after the chat
  initialisation effect has run, the send button is enabled for the input \<open>hi\<close>;
  the effect has put its notice into the transcript instead, and each further run
  reads the key again.
\<close>

theorem send_control_enabled_without_key:
  "\<not> sendDisabled_idx
       ((chatInitEffect_idx None True (appOf_idx [chatOf_idx ''a'' ''New Chat'' False [greeting]] ''a''))
          \<lparr>inputValue := js ''hi''\<rparr>) \<and>
   \<not> inputDisabled_idx
       ((chatInitEffect_idx None True (appOf_idx [chatOf_idx ''a'' ''New Chat'' False [greeting]] ''a''))
          \<lparr>inputValue := js ''hi''\<rparr>) \<and>
   map messages (sessions_idx
       (chatInitEffect_idx None True (appOf_idx [chatOf_idx ''a'' ''New Chat'' False [greeting]] ''a'')))
     = [[greeting, apiKeyNotice]]"
  by (simp add: sendDisabled_idx_def inputDisabled_idx_def chatInitEffect_idx_def example_defs
      apiKeyNotice_def)

text \<open>
  C7 (amended). In the consolidated variant a key that is undefined, empty or the
  placeholder \<open>YOUR_API_KEY\<close> is detected by the effect that runs once at mount;
  after any sequence of later events the flag is still set, so the banner is shown,
  the input and the send button are disabled, and a send issues no completion
  request. In \<^verbatim>\<open>index.tsx\<close> a missing key is read at every chat initialisation,
  which then creates no chat instance, and without a chat instance a send issues no
  completion request; its send button does not depend on the key.
\<close>

theorem api_key_missing:
  "(apiKeyAbsent apiKey \<longrightarrow>
      isApiKeyMissing (run lc events (apiKeyCheckEffect apiKey st0)) \<and>
      inputDisabled (run lc events (apiKeyCheckEffect apiKey st0)) \<and>
      sendDisabled (run lc events (apiKeyCheckEffect apiKey st0)) \<and>
      fst (handleSendMessage_begin (run lc events (apiKeyCheckEffect apiKey st0))) = None) \<and>
   (\<not> truthy apiKey \<longrightarrow> chat (chatInitEffect_idx apiKey created sti) = chat sti) \<and>
   (\<not> chat sti \<longrightarrow> fst (handleSendMessage_begin_idx sti) = None) \<and>
   sendDisabled_idx sti = (isLoading sti \<or> trim (inputValue sti) = [])"
proof (intro conjI impI)
  assume a: "apiKeyAbsent apiKey"
  then have "isApiKeyMissing (apiKeyCheckEffect apiKey st0)"
    by (simp add: apiKeyCheckEffect_def)
  then show m: "isApiKeyMissing (run lc events (apiKeyCheckEffect apiKey st0))"
    by (rule run_keeps_flag)
  then show "inputDisabled (run lc events (apiKeyCheckEffect apiKey st0))"
    and "sendDisabled (run lc events (apiKeyCheckEffect apiKey st0))"
    by (simp_all add: inputDisabled_def sendDisabled_def)
  from m show "fst (handleSendMessage_begin (run lc events (apiKeyCheckEffect apiKey st0))) = None"
    by (simp add: handleSendMessage_begin_def)
next
  assume "\<not> truthy apiKey"
  then show "chat (chatInitEffect_idx apiKey created sti) = chat sti"
    by (simp add: chatInitEffect_idx_def split: option.splits)
next
  assume "\<not> chat sti"
  then show "fst (handleSendMessage_begin_idx sti) = None"
    by (simp add: handleSendMessage_begin_idx_def)
next
  show "sendDisabled_idx sti = (isLoading sti \<or> trim (inputValue sti) = [])"
    by (simp add: sendDisabled_idx_def)
qed

theorem api_key_missing_witness:
  "apiKeyAbsent (Some (js ''YOUR_API_KEY'')) \<and>
   isApiKeyMissing (run asciiLower [ChatInit True, SetInput (js ''hi''), Send]
      (apiKeyCheckEffect (Some (js ''YOUR_API_KEY'')) (appOf [chatOf ''a'' ''New Chat'' False []] ''a''))) \<and>
   sendDisabled (run asciiLower [ChatInit True, SetInput (js ''hi''), Send]
      (apiKeyCheckEffect (Some (js ''YOUR_API_KEY'')) (appOf [chatOf ''a'' ''New Chat'' False []] ''a''))) \<and>
   fst (handleSendMessage_begin (run asciiLower [ChatInit True, SetInput (js ''hi''), Send]
      (apiKeyCheckEffect (Some (js ''YOUR_API_KEY'')) (appOf [chatOf ''a'' ''New Chat'' False []] ''a''))))
     = None \<and>
   inputValue (run asciiLower [ChatInit True, SetInput (js ''hi''), Send]
      (apiKeyCheckEffect (Some (js ''YOUR_API_KEY'')) (appOf [chatOf ''a'' ''New Chat'' False []] ''a'')))
     = js ''hi'' \<and>
   \<not> truthy None \<and>
   \<not> chat (chatInitEffect_idx None True
             ((appOf_idx [chatOf_idx ''a'' ''New Chat'' False [greeting]] ''a'')\<lparr>chat := False\<rparr>)) \<and>
   fst (handleSendMessage_begin_idx (chatInitEffect_idx None True
             ((appOf_idx [chatOf_idx ''a'' ''New Chat'' False [greeting]] ''a'')\<lparr>chat := False\<rparr>)))
     = None"
proof -
  let ?k = "Some (js ''YOUR_API_KEY'')"
  let ?st0 = "appOf [chatOf ''a'' ''New Chat'' False []] ''a''"
  let ?evs = "[ChatInit True, SetInput (js ''hi''), Send]"
  let ?sti = "(appOf_idx [chatOf_idx ''a'' ''New Chat'' False [greeting]] ''a'')\<lparr>chat := False\<rparr>"
  have a: "apiKeyAbsent ?k" by (simp add: apiKeyAbsent_def)
  have t: "\<not> truthy None" by (simp add: truthy_def)
  have i: "inputValue (run asciiLower ?evs (apiKeyCheckEffect ?k ?st0)) = js ''hi''"
    by (simp add: run_def apiKeyCheckEffect_def a chatInitEffect_def handleSendMessage_begin_def
        appOf_def)
  have c: "\<not> chat ?sti" by simp
  from api_key_missing[of ?k asciiLower ?evs ?st0 True ?sti]
       api_key_missing[of None asciiLower ?evs ?st0 True ?sti]
       api_key_missing[of None asciiLower ?evs ?st0 True "chatInitEffect_idx None True ?sti"]
       a t i c
  show ?thesis by simp
qed

subsection \<open>C9: malformed values in local storage\<close>

text \<open>
  C9 as stated fails on the consolidated variant: one handler covers the three keys,
  so a roster that does not parse also discards the sessions, which do parse. With
  the storage \<open>corruptStorage\<close> the sessions are not loaded and their key is
  removed.
\<close>

theorem corrupt_roster_discards_sessions:
  "malformed usersParser ''registeredUsers'' corruptStorage \<and>
   \<not> malformed sessionsParser ''allUserChatSessions'' corruptStorage \<and>
   Option.bind (getItem ''allUserChatSessions'' corruptStorage) sessionsParser = Some [(js ''u1'', [])] \<and>
   allUserSessions (fst (loadEffect usersParser sessionsParser
       ((appOf [] ''a'')\<lparr>allUserSessions := []\<rparr>) corruptStorage)) = [] \<and>
   getItem ''allUserChatSessions'' (fst (snd (loadEffect usersParser sessionsParser
       ((appOf [] ''a'')\<lparr>allUserSessions := []\<rparr>) corruptStorage))) = None"
  by (simp add: malformed_def usersParser_def sessionsParser_def corruptStorage_def getItem_def
      removeItem_def loadEffect_def loadFailed_def sessionsJson_def js_def)


text \<open>
  C9 (amended). A stored value that does not parse never raises to the user: the
  effect catches the failure, logs it and leaves the state of that key at its
  default. In the consolidated variant a malformed roster or a malformed session
  store removes all three keys (roster, sessions, last active user), leaves the
  sessions in state at their default, and makes the guest the current user; when
  the roster is the malformed one it stays at its default too. When neither is
  malformed nothing is logged and the storage is unchanged. In \<^verbatim>\<open>index.tsx\<close> a
  malformed roster removes the roster and the last active user and nothing else;
  malformed settings are logged, the settings stay at their default and their key
  is left in the storage; a malformed session list is logged, its key is removed
  and a fresh chat becomes the only and active session. Settings and sessions load
  independently of each other.
\<close>

theorem load_malformed:
  "(malformed pu ''registeredUsers'' storage \<or> malformed ps ''allUserChatSessions'' storage \<longrightarrow>
      snd (snd (loadEffect pu ps st storage)) =
        [js ''Failed to load user or session data from localStorage''] \<and>
      getItem ''registeredUsers'' (fst (snd (loadEffect pu ps st storage))) = None \<and>
      getItem ''allUserChatSessions'' (fst (snd (loadEffect pu ps st storage))) = None \<and>
      getItem ''lastActiveUserId'' (fst (snd (loadEffect pu ps st storage))) = None \<and>
      currentUser (fst (loadEffect pu ps st storage)) = DEFAULT_GUEST_USER_PROFILE \<and>
      allUserSessions (fst (loadEffect pu ps st storage)) = allUserSessions st \<and>
      (malformed pu ''registeredUsers'' storage \<longrightarrow>
         registeredUsers (fst (loadEffect pu ps st storage)) = registeredUsers st)) \<and>
   (\<not> malformed pu ''registeredUsers'' storage \<and> \<not> malformed ps ''allUserChatSessions'' storage \<longrightarrow>
      snd (loadEffect pu ps st storage) = (storage, [])) \<and>
   (malformed pu ''registeredUsers'' storage \<longrightarrow>
      loadUsers_idx pu sti storage =
        (sti\<lparr>currentUser := DEFAULT_GUEST_USER_PROFILE\<rparr>,
         removeItem ''lastActiveUserId'' (removeItem ''registeredUsers'' storage),
         [js ''Failed to load user data from localStorage''])) \<and>
   (\<not> malformed pu ''registeredUsers'' storage \<longrightarrow>
      snd (loadUsers_idx pu sti storage) = (storage, [])) \<and>
   (malformed pset ''aiSettings'' storage \<longrightarrow>
      aiSettings (fst (loadSettingsAndSessions_idx pset pses now sta storage)) = aiSettings sta \<and>
      js ''Failed to load AI settings from localStorage''
        \<in> set (snd (snd (loadSettingsAndSessions_idx pset pses now sta storage))) \<and>
      map_of (fst (snd (loadSettingsAndSessions_idx pset pses now sta storage))) (js ''aiSettings'')
        = map_of storage (js ''aiSettings'')) \<and>
   (map_of storage (sessionsKey sta) = Some v \<and> v \<noteq> [] \<and> pses v = None \<longrightarrow>
      sessions_idx (fst (loadSettingsAndSessions_idx pset pses now sta storage))
        = [newSession_idx now sta] \<and>
      activeSessionId (fst (loadSettingsAndSessions_idx pset pses now sta storage)) = Some now \<and>
      js ''Failed to load sessions from localStorage''
        \<in> set (snd (snd (loadSettingsAndSessions_idx pset pses now sta storage))) \<and>
      map_of (fst (snd (loadSettingsAndSessions_idx pset pses now sta storage))) (sessionsKey sta)
        = None) \<and>
   sessions_idx (fst (loadSettingsAndSessions_idx pset pses now sta storage)) =
     sessions_idx (fst (loadSessions_idx pses now sta sta storage)) \<and>
   activeSessionId (fst (loadSettingsAndSessions_idx pset pses now sta storage)) =
     activeSessionId (fst (loadSessions_idx pses now sta sta storage)) \<and>
   aiSettings (fst (loadSettingsAndSessions_idx pset pses now sta storage)) =
     aiSettings (fst (loadSettings_idx pset sta storage))"
proof -
  obtain st' storage' console where e: "loadEffect pu ps st storage = (st', storage', console)"
    by (cases "loadEffect pu ps st storage") auto
  have A: "malformed pu ''registeredUsers'' storage \<or> malformed ps ''allUserChatSessions'' storage \<longrightarrow>
      snd (snd (loadEffect pu ps st storage)) =
        [js ''Failed to load user or session data from localStorage''] \<and>
      getItem ''registeredUsers'' (fst (snd (loadEffect pu ps st storage))) = None \<and>
      getItem ''allUserChatSessions'' (fst (snd (loadEffect pu ps st storage))) = None \<and>
      getItem ''lastActiveUserId'' (fst (snd (loadEffect pu ps st storage))) = None \<and>
      currentUser (fst (loadEffect pu ps st storage)) = DEFAULT_GUEST_USER_PROFILE \<and>
      allUserSessions (fst (loadEffect pu ps st storage)) = allUserSessions st \<and>
      (malformed pu ''registeredUsers'' storage \<longrightarrow>
         registeredUsers (fst (loadEffect pu ps st storage)) = registeredUsers st)"
    using loadEffect_failure[OF _ e] unfolding e by simp
  have B: "\<not> malformed pu ''registeredUsers'' storage \<and> \<not> malformed ps ''allUserChatSessions'' storage \<longrightarrow>
      snd (loadEffect pu ps st storage) = (storage, [])"
    using loadEffect_success[OF _ _ e] unfolding e by simp
  have C: "malformed pu ''registeredUsers'' storage \<longrightarrow>
      loadUsers_idx pu sti storage =
        (sti\<lparr>currentUser := DEFAULT_GUEST_USER_PROFILE\<rparr>,
         removeItem ''lastActiveUserId'' (removeItem ''registeredUsers'' storage),
         [js ''Failed to load user data from localStorage''])"
    using loadUsers_idx_malformed by blast
  have D: "\<not> malformed pu ''registeredUsers'' storage \<longrightarrow>
      snd (loadUsers_idx pu sti storage) = (storage, [])"
    using loadUsers_idx_wellformed by blast
  note L = loadBoth_idx_sessions[of pset pses now sta storage]
  have E: "malformed pset ''aiSettings'' storage \<longrightarrow>
      aiSettings (fst (loadSettingsAndSessions_idx pset pses now sta storage)) = aiSettings sta \<and>
      js ''Failed to load AI settings from localStorage''
        \<in> set (snd (snd (loadSettingsAndSessions_idx pset pses now sta storage))) \<and>
      map_of (fst (snd (loadSettingsAndSessions_idx pset pses now sta storage))) (js ''aiSettings'')
        = map_of storage (js ''aiSettings'')"
    using L loadSettings_idx_malformed[of pset storage sta]
      loadSessions_idx_storage[of pses now sta sta storage]
    by simp
  have F: "map_of storage (sessionsKey sta) = Some v \<and> v \<noteq> [] \<and> pses v = None \<longrightarrow>
      sessions_idx (fst (loadSettingsAndSessions_idx pset pses now sta storage))
        = [newSession_idx now sta] \<and>
      activeSessionId (fst (loadSettingsAndSessions_idx pset pses now sta storage)) = Some now \<and>
      js ''Failed to load sessions from localStorage''
        \<in> set (snd (snd (loadSettingsAndSessions_idx pset pses now sta storage))) \<and>
      map_of (fst (snd (loadSettingsAndSessions_idx pset pses now sta storage))) (sessionsKey sta)
        = None"
    using L loadSessions_idx_malformed[of storage sta v pses now sta]
    by (auto simp: newSession_idx_def delete_conv')
  from A B C D E F L show ?thesis by blast
qed

theorem load_malformed_witness:
  "malformed usersParser ''registeredUsers'' corruptStorage \<and>
   snd (snd (loadEffect usersParser sessionsParser (appOf [] ''a'') corruptStorage)) =
     [js ''Failed to load user or session data from localStorage''] \<and>
   getItem ''allUserChatSessions''
     (fst (snd (loadEffect usersParser sessionsParser (appOf [] ''a'') corruptStorage))) = None \<and>
   \<not> malformed usersParser ''registeredUsers'' goodStorage \<and>
   \<not> malformed sessionsParser ''allUserChatSessions'' goodStorage \<and>
   snd (loadEffect usersParser sessionsParser (appOf [] ''a'') goodStorage) = (goodStorage, []) \<and>
   snd (snd (loadUsers_idx usersParser (appOf_idx [] ''a'') corruptStorage)) =
     [js ''Failed to load user data from localStorage''] \<and>
   snd (loadUsers_idx usersParser (appOf_idx [] ''a'') goodStorage) = (goodStorage, []) \<and>
   malformed (\<lambda>s. None :: (AISettings \<Rightarrow> AISettings) option) ''aiSettings''
     [(js ''aiSettings'', js ''{''), (js ''chatSessions_u1'', js ''[{'')] \<and>
   map_of [(js ''aiSettings'', js ''{''), (js ''chatSessions_u1'', js ''[{'')]
     (sessionsKey (appOf_idx [] ''a'')) = Some (js ''[{'') \<and>
   js ''[{'' \<noteq> [] \<and>
   aiSettings (fst (loadSettingsAndSessions_idx (\<lambda>s. None) (\<lambda>s. None) (js ''n'') (appOf_idx [] ''a'')
     [(js ''aiSettings'', js ''{''), (js ''chatSessions_u1'', js ''[{'')])) = DEFAULT_AI_SETTINGS \<and>
   map session_id (sessions_idx (fst (loadSettingsAndSessions_idx (\<lambda>s. None) (\<lambda>s. None) (js ''n'')
     (appOf_idx [] ''a'') [(js ''aiSettings'', js ''{''), (js ''chatSessions_u1'', js ''[{'')])))
     = [js ''n''] \<and>
   map fst (fst (snd (loadSettingsAndSessions_idx (\<lambda>s. None) (\<lambda>s. None) (js ''n'')
     (appOf_idx [] ''a'') [(js ''aiSettings'', js ''{''), (js ''chatSessions_u1'', js ''[{'')])))
     = [js ''aiSettings'']"
proof -
  let ?g = "[(js ''aiSettings'', js ''{''), (js ''chatSessions_u1'', js ''[{'')]"
  let ?sta = "appOf_idx [] ''a''"
  have m1: "malformed usersParser ''registeredUsers'' corruptStorage"
    by (simp add: malformed_def usersParser_def corruptStorage_def getItem_def js_def)
  have m2: "\<not> malformed usersParser ''registeredUsers'' goodStorage"
    by (simp add: malformed_def usersParser_def goodStorage_def getItem_def js_def)
  have m3: "\<not> malformed sessionsParser ''allUserChatSessions'' goodStorage"
    by (simp add: malformed_def sessionsParser_def goodStorage_def getItem_def sessionsJson_def
        js_def)
  have m4: "malformed (\<lambda>s. None :: (AISettings \<Rightarrow> AISettings) option) ''aiSettings'' ?g"
    by (simp add: malformed_def getItem_def js_def)
  have m5: "map_of ?g (sessionsKey ?sta) = Some (js ''[{'')"
    by (simp add: sessionsKey_def appOf_idx_def ada_def js_def)
  have m6: "js ''[{'' \<noteq> []" by (simp add: js_def)
  have s: "aiSettings ?sta = DEFAULT_AI_SETTINGS" by (simp add: appOf_idx_def)
  have k: "map fst (fst (snd (loadSettingsAndSessions_idx (\<lambda>s. None) (\<lambda>s. None) (js ''n'') ?sta ?g)))
      = [js ''aiSettings'']"
    by (simp add: loadSettingsAndSessions_idx_def loadSettings_idx_def loadSessions_idx_def
        getItem_def sessionsKey_def appOf_idx_def ada_def js_def)
  from load_malformed[of usersParser corruptStorage sessionsParser "appOf [] ''a''" "appOf_idx [] ''a''"
      "\<lambda>s. None" "\<lambda>s. None" "js ''n''" ?sta "js ''[{''"]
    load_malformed[of usersParser goodStorage sessionsParser "appOf [] ''a''" "appOf_idx [] ''a''"
      "\<lambda>s. None" "\<lambda>s. None" "js ''n''" ?sta "js ''[{''"]
    load_malformed[of usersParser ?g sessionsParser "appOf [] ''a''" "appOf_idx [] ''a''"
      "\<lambda>s. None" "\<lambda>s. None" "js ''n''" ?sta "js ''[{''"]
    m1 m2 m3 m4 m5 m6 s k
  show ?thesis by (simp add: newSession_idx_def)
qed

end
